(* ===== verification/Prelude.thy ===== *)
theory Prelude
  imports Main "HOL-Library.Word" "HOL-Library.Char_ord"
begin

text \<open>
  Shared vocabulary of the development.

  Go's \<open>uint64\<close> is \<open>64 word\<close>, so additions wrap and comparisons are unsigned, as in the
  code. Go's \<open>int64\<close> is an \<open>int\<close> whose arithmetic is followed by \<open>i64\<close>, the reduction to
  two's complement on 64 bits. A Go byte slice (\<open>ethtypes.HexBytes0xPrefix\<close> is one: the code
  converts it with \<open>([]byte)(h)\<close>, takes its \<open>len\<close> and slices it) is an optional byte list, where
  \<open>None\<close> is the nil slice. The rest of the theory holds list lemmas used by several components
  and the collections their facts are gathered in.
\<close>

named_theorems chain_simps "equations about linked lists of blocks"
named_theorems frame_simps "fields of a state that an operation leaves alone"

section \<open>Machine integers\<close>

type_synonym u64 = "64 word"
type_synonym int64 = int

definition maxInt64 :: int where
  "maxInt64 = 2 ^ 63 - 1"

definition i64 :: "int \<Rightarrow> int64" where
  "i64 x = (x + 2 ^ 63) mod 2 ^ 64 - 2 ^ 63"

lemma i64_id: "- (2 ^ 63) \<le> x \<Longrightarrow> x < 2 ^ 63 \<Longrightarrow> i64 x = x"
  by (simp add: i64_def)

lemma i64_range: "- (2 ^ 63) \<le> i64 x \<and> i64 x < 2 ^ 63"
proof -
  have "0 \<le> (x + 2 ^ 63) mod 2 ^ 64" and "(x + 2 ^ 63) mod 2 ^ 64 < (2 ^ 64 :: int)"
    by simp_all
  then show ?thesis by (simp add: i64_def)
qed

lemma i64_le: "- (2 ^ 63) \<le> x \<Longrightarrow> i64 x \<le> x"
  using zmod_le_nonneg_dividend [of "x + 2 ^ 63" "2 ^ 64"] by (simp add: i64_def)

lemma unat_u64_less: "unat (w :: u64) < 2 ^ 64"
  using unsigned_less [of w, where ?'a = nat] by simp

lemma uint_u64_less: "uint (w :: u64) < 2 ^ 64"
  using unsigned_less [of w, where ?'a = int] by simp

text \<open>One step up or down a 64-bit counter, when it does not wrap.\<close>

lemma u64_less_unat: "(a :: u64) < b \<longleftrightarrow> unat a < unat b"
  by (simp add: word_less_nat_alt)

lemma u64_le_unat: "(a :: u64) \<le> b \<longleftrightarrow> unat a \<le> unat b"
  by (simp add: word_le_nat_alt)

lemma unat_u64_succ: "(w :: u64) < v \<Longrightarrow> unat (w + 1) = unat w + 1"
  using unat_u64_less [of v] by (simp add: u64_less_unat unat_word_ariths)

lemma unat_u64_pred: "(w :: u64) \<noteq> 0 \<Longrightarrow> unat (w - 1) = unat w - 1"
  by (rule unat_minus_one)

lemma unat_u64_Suc: "(n :: u64) + 1 \<noteq> 0 \<Longrightarrow> unat (n + 1) = Suc (unat n)"
  using unatSuc [of n] by (simp add: add.commute)

lemma u64_Suc_nonzero: "unat (w :: u64) + 1 < 2 ^ 64 \<Longrightarrow> w + 1 \<noteq> 0"
  using unat_word_ariths(1) [of w 1] by auto

lemma u64_next_nonzero: "(a :: u64) \<le> H \<Longrightarrow> H + 1 \<noteq> 0 \<Longrightarrow> a + 1 \<noteq> 0"
  by (metis add_diff_cancel diff_0 word_n1_ge word_order.extremum_uniqueI)

lemma unat_u64_next: "(a :: u64) \<le> H \<Longrightarrow> H + 1 \<noteq> 0 \<Longrightarrow> unat (a + 1) = Suc (unat a)"
  by (rule unat_u64_Suc) (rule u64_next_nonzero)

lemma u64_succ_neq: "(w :: u64) + 1 \<noteq> w"
  by simp

section \<open>Byte slices\<close>

type_synonym hexbytes = "8 word list option"
type_synonym address = "8 word list"

definition bytesOf :: "hexbytes \<Rightarrow> 8 word list" where
  "bytesOf h = (case h of None \<Rightarrow> [] | Some bs \<Rightarrow> bs)"

text \<open>\<open>bytes.Equal\<close>: a nil slice and an empty one are equal.\<close>

definition hexEquals :: "hexbytes \<Rightarrow> hexbytes \<Rightarrow> bool" where
  "hexEquals a b \<longleftrightarrow> bytesOf a = bytesOf b"

lemma bytesOf_simps [simp]: "bytesOf None = []" "bytesOf (Some bs) = bs"
  by (simp_all add: bytesOf_def)

lemma hexEquals_refl [simp, intro]: "hexEquals a a"
  by (simp add: hexEquals_def)

lemma hexEquals_sym: "hexEquals a b \<Longrightarrow> hexEquals b a"
  by (simp add: hexEquals_def)

lemma hexEquals_trans: "hexEquals a b \<Longrightarrow> hexEquals b c \<Longrightarrow> hexEquals a c"
  by (simp add: hexEquals_def)

section \<open>Lists\<close>

lemma last_in_chain: "xs \<noteq> [] \<Longrightarrow> last xs \<in> set xs"
  by (rule last_in_set)

lemma upt_append: "i \<le> j \<Longrightarrow> j \<le> k \<Longrightarrow> [i..<k] = [i..<j] @ [j..<k]"
  using upt_add_eq_append [of i j "k - j"] by simp

lemma successively_butlast: "successively P xs \<Longrightarrow> successively P (butlast xs)"
  by (cases xs rule: rev_cases) (auto simp: successively_append_iff)

lemma successively_drop: "successively P xs \<Longrightarrow> successively P (drop n xs)"
  using successively_append_iff [of P "take n xs" "drop n xs"] by simp

lemma successively_take: "successively P xs \<Longrightarrow> successively P (take n xs)"
  using successively_append_iff [of P "take n xs" "drop n xs"] by simp

lemma successively_tl: "successively P xs \<Longrightarrow> successively P (tl xs)"
  by (cases xs) (auto simp: successively_Cons)

lemma successively_nth:
  "successively P xs \<Longrightarrow> Suc i < length xs \<Longrightarrow> P (xs ! i) (xs ! Suc i)"
  by (simp add: successively_conv_nth)

lemma successively_snoc:
  "successively P (xs @ [y]) \<longleftrightarrow> successively P xs \<and> (xs \<noteq> [] \<longrightarrow> P (last xs) y)"
  by (auto simp: successively_append_iff)


section \<open>High water marks\<close>

text \<open>The interface of a mark that only moves up: one step takes the mark to the maximum of what it
  was and of the key of the step, for steps that the state allows. The highest block, the head of
  light mode and the checkpoint of a listener are such marks.\<close>

locale high_water =
  fixes mark :: "'s \<Rightarrow> 'n :: linorder"
    and key :: "'a \<Rightarrow> 'n"
    and step :: "'a \<Rightarrow> 's \<Rightarrow> 's"
    and allowed :: "'s \<Rightarrow> 'a \<Rightarrow> bool"
  assumes step_max: "allowed s a \<Longrightarrow> mark (step a s) = max (mark s) (key a)"
    and step_allowed: "allowed s a \<Longrightarrow> allowed s b \<Longrightarrow> allowed (step a s) b"
begin

lemma fold_max:
  "\<forall>a \<in> set as. allowed s a \<Longrightarrow> mark (fold step as s) = fold max (map key as) (mark s)"
proof (induction as arbitrary: s)
  case (Cons a as)
  then have "allowed s a" and "\<forall>b \<in> set as. allowed (step a s) b"
    by (auto intro: step_allowed)
  with Cons.IH show ?case by (simp add: step_max max.commute)
qed simp

lemma forward: "\<forall>a \<in> set as. allowed s a \<Longrightarrow> mark s \<le> mark (fold step as s)"
proof (induction as arbitrary: s)
  case (Cons a as)
  then have a: "allowed s a" and "\<forall>b \<in> set as. allowed (step a s) b"
    by (auto intro: step_allowed)
  from Cons.IH [OF this(2)] step_max [OF a] show ?case by simp
qed simp

end

end
