(* ===== verification/RetryUtil.thy ===== *)
theory RetryUtil
  imports Prelude
begin

text \<open>
  \<open>internal/retryutil/retry_delay.go\<close>: the delay before the next attempt of a polling loop. A
  \<open>time.Duration\<close> is an int64. The multiplication \<open>time.Duration(float64(d) * Factor)\<close> is the
  argument \<open>scale\<close> of the model, because its rounding is that of IEEE floats. The loop of
  \<open>CalcFailureDelay\<close> is \<open>delayLoop\<close>, whose first argument counts the iterations that are left.
\<close>

record RetryWrapper =
  InitialDelay :: int64
  MaximumDelay :: int64
  scale :: "int64 \<Rightarrow> int64"

fun delayLoop :: "RetryWrapper \<Rightarrow> nat \<Rightarrow> int64 \<Rightarrow> int64" where
  "delayLoop rw 0 retryDelay = retryDelay"
| "delayLoop rw (Suc n) retryDelay =
     (let d = scale rw retryDelay in
      if d > MaximumDelay rw then MaximumDelay rw else delayLoop rw n d)"

definition CalcFailureDelay :: "RetryWrapper \<Rightarrow> int \<Rightarrow> int64" where
  "CalcFailureDelay rw failureCount =
     (if failureCount = 0 then 0
      else delayLoop rw (nat (failureCount - 1)) (InitialDelay rw))"

text \<open>How \<open>DoFailureDelay\<close> ends: it returns at once, or it waits, and then says whether the
  context ended before the timer did (\<open>ctxDoneFirst\<close>).\<close>

datatype delay_outcome = NoDelay | Waited int64 bool

definition DoFailureDelay :: "RetryWrapper \<Rightarrow> bool \<Rightarrow> int \<Rightarrow> delay_outcome" where
  "DoFailureDelay rw ctxDoneFirst failureCount =
     (if failureCount \<le> 0 then NoDelay
      else Waited (CalcFailureDelay rw failureCount) ctxDoneFirst)"

definition delay_exits :: "delay_outcome \<Rightarrow> bool" where
  "delay_exits d = (case d of NoDelay \<Rightarrow> False | Waited _ done \<Rightarrow> done)"

lemma delayLoop_le_Max: "0 < n \<Longrightarrow> delayLoop rw n d \<le> MaximumDelay rw"
proof (induction n arbitrary: d)
  case 0
  then show ?case by simp
next
  case (Suc n)
  show ?case using Suc.IH [of "scale rw d"] by (cases n) (auto simp: Let_def)
qed

lemma delayLoop_le: "d \<le> MaximumDelay rw \<Longrightarrow> delayLoop rw n d \<le> MaximumDelay rw"
  by (cases n) (simp_all add: delayLoop_le_Max del: delayLoop.simps(2))

text \<open>With a factor of at least one, a longer run of failures never waits less.\<close>

definition inflationary :: "RetryWrapper \<Rightarrow> bool" where
  "inflationary rw \<longleftrightarrow> (\<forall>d. 0 \<le> d \<longrightarrow> d \<le> MaximumDelay rw \<longrightarrow> d \<le> scale rw d)"

lemma inflationaryD: "inflationary rw \<Longrightarrow> 0 \<le> d \<Longrightarrow> d \<le> MaximumDelay rw \<Longrightarrow> d \<le> scale rw d"
  by (simp add: inflationary_def)

lemma delayLoop_Suc_ge:
  "inflationary rw \<Longrightarrow> 0 \<le> d \<Longrightarrow> d \<le> MaximumDelay rw \<Longrightarrow>
     delayLoop rw n d \<le> delayLoop rw (Suc n) d"
proof (induction n arbitrary: d)
  case 0
  then show ?case using inflationaryD [of rw d] by (simp add: Let_def)
next
  case (Suc n)
  let ?d = "scale rw d"
  have "d \<le> ?d" using Suc.prems by (rule inflationaryD)
  show ?case
  proof (cases "?d > MaximumDelay rw")
    case True
    then show ?thesis by (simp add: Let_def)
  next
    case False
    with \<open>d \<le> ?d\<close> Suc.prems have "delayLoop rw n ?d \<le> delayLoop rw (Suc n) ?d"
      by (intro Suc.IH) auto
    moreover have "delayLoop rw (Suc n) d = delayLoop rw n ?d"
      and "delayLoop rw (Suc (Suc n)) d = delayLoop rw (Suc n) ?d"
      using False by (simp_all only: delayLoop.simps Let_def if_False)
    ultimately show ?thesis by simp
  qed
qed

end
