(* ===== verification/Failures.thy ===== *)
theory Failures
  imports Prelude
begin

text \<open>
  The errors of the program as values: the messages of
  \<open>internal/msgs/en_error_messages.go\<close> that the modelled code raises (with the arguments a
  property speaks about), the error texts that come back from a JSON/RPC backend, and the run-time
  panics that the modelled code can reach. \<open>ErrorReason\<close> holds the FFCAPI reasons the
  code returns beside an error (\<open>ReasonNone\<close> is the empty string).
\<close>

datatype (plugins del: size code lifting transfer quickcheck_exhaustive quickcheck_narrowing
    quickcheck_random) failure =
    RPCFailure string \<comment> \<open>the text of an \<open>rpcbackend.RPCError\<close>\<close>
  | LibraryFailure string \<comment> \<open>an error of a library call, by its text\<close>
  | MsgConfigFailed failure \<comment> \<open>a message of the common library, around the error\<close>
  | MsgBlockNotAvailable
  | MsgReceiptNotAvailable string
  | MsgUnmarshalABIMethodFail
  | MsgUnmarshalParamFail nat
  | MsgGasPriceError
  | MsgInvalidOutputType string
  | MsgInvalidTXData string
  | MsgInvalidFromAddress string
  | MsgInvalidToAddress string
  | MsgReverted string
  | MsgReturnDataInvalid
  | MsgMissingBackendURL
  | MsgBadDataFormat string
  | MsgInvalidListenerOptions
  | MsgInvalidFromBlock string
  | MsgMissingEventFilter
  | MsgInvalidEventFilter
  | MsgListenerAlreadyStarted nat
  | MsgCacheInitFail string
  | MsgStreamNotStarted nat
  | MsgStreamAlreadyStarted nat
  | MsgListenerNotStarted nat
  | MsgStreamNotStopped nat
  | MsgTimedOutQueryingChainHead
  | MsgDecodeBytecodeFailed
  | MsgInvalidTXHashReturned nat
  | MsgUnmarshalABIErrorsFail
  | MsgInvalidRegex
  | MsgUnableToCallDebug string
  | MsgReturnValueNotDecoded string
  | MsgReturnValueNotAvailable
  | MsgFailedToRetrieveChainID
  | MsgFailedToRetrieveTransactionInfo
  | MsgFailedToQueryReceipt failure string
  | MsgFailedToQueryBlockInfo failure string
  | MsgFailedToBuildConfirmationQueue
  | MsgTransactionNotFound string
  | MsgInMemoryPartialChainNotCaughtUp u64 hexbytes
  | MsgInvalidJSONFormatOptions string
  | MsgUnknownJSONFormatOption string string
  | MsgObservedPanic failure
  | MsgReturnedBlockHashMismatch u64 hexbytes hexbytes
  | MsgInvalidChainTrackingMode string
  | MsgTransactionNotIncludedInChainHead string u64 u64
  | MsgTransactionEstimateTooLargeForBlock int int int
  | MsgMonitoredHeadLengthInvalid int
  | MsgUnknownJSONFormatOptionValue string string
  | MsgMetricsInitFail
  | MsgInvalidRPCRoutingMode string
  | MsgWebSocketNotConfigured
  | MsgRPCClientClosed
  | MsgInvalidFilterPollingMode string
  | MsgCatchupPageSizeInvalid int
  | MsgLatestBlockNotFound
  | MsgLightModeCatchupPageSizeInvalid int int
  | MsgReceiptNodeBehind string u64 u64
  | MsgReceiptBlockMismatchNodeBehind string u64 hexbytes u64 string u64
  | PanicNilDereference \<comment> \<open>Go panics: a field of a nil pointer is read\<close>
  | PanicSliceBounds \<comment> \<open>Go panics: a slice expression is out of range\<close>
  | PanicIndexOutOfRange \<comment> \<open>Go panics: an index expression is out of range\<close>
  | PanicCloseOfClosedChannel \<comment> \<open>Go panics: a closed channel is closed again\<close>
  | PanicNumberTooLarge u64 \<comment> \<open>a number from the node does not fit in \<open>int64\<close>\<close>

datatype ErrorReason =
    ReasonNone
  | ErrorReasonNotFound
  | ErrorReasonNonceTooLow
  | ErrorReasonInsufficientFunds
  | ErrorReasonTransactionUnderpriced
  | ErrorKnownTransaction
  | ErrorReasonTransactionReverted
  | ErrorReasonInvalidInputs
  | ErrorReasonNodeBehind

section \<open>Results\<close>

text \<open>A Go call that returns \<open>(value, error)\<close>.\<close>

type_synonym 'a result = "failure + 'a"

end
