(* ===== verification/RpcClient.thy ===== *)
theory RpcClient
  imports Failures
begin

text \<open>
  \<open>pkg/ethrpc/client.go\<close>: the one JSON/RPC client, which sends each call over HTTP or over the
  WebSocket. The two backends are library code: what is modelled is which of them a call goes to
  (\<open>Connection\<close>) and the client's own state. The outcome of \<open>wsBackend.Connect\<close> is an argument
  of \<open>Connect\<close>. \<open>Close\<close> has two atomic parts, because it cancels the WebSocket context before
  it takes \<open>connectMux\<close>, so that a \<open>Connect\<close> of another goroutine can run in between.
\<close>

datatype RoutingMode = RoutingModeHTTP | RoutingModeWS | RoutingModeAuto | RoutingModeLegacy

datatype Connection = HTTP | WebSocket

definition httpRoutedMethods :: "string set" where
  "httpRoutedMethods =
     {''debug_traceTransaction'', ''eth_call'', ''eth_estimateGas'', ''eth_gasPrice'',
      ''eth_getBalance'', ''eth_getTransactionCount'', ''eth_sendRawTransaction'',
      ''eth_sendTransaction''}"

definition wsRoutedMethodsLegacy :: "string set" where
  "wsRoutedMethodsLegacy =
     {''eth_blockNumber'', ''eth_getBlockByHash'', ''eth_getBlockByNumber'',
      ''eth_getBlockReceipts'', ''eth_getTransactionReceipt''}"

record client =
  mode :: RoutingMode
  wsBackend :: bool \<comment> \<open>whether a WebSocket is configured\<close>
  wsCtxDone :: bool
  closed :: bool
  wsConnected :: bool

definition parseRoutingMode :: "string \<Rightarrow> RoutingMode option" where
  "parseRoutingMode m =
     (if m = '''' then Some RoutingModeAuto
      else if m = ''http'' then Some RoutingModeHTTP
      else if m = ''ws'' then Some RoutingModeWS
      else if m = ''auto'' then Some RoutingModeAuto
      else if m = ''legacy'' then Some RoutingModeLegacy
      else None)"

definition NewClientWithBackends :: "string \<Rightarrow> bool \<Rightarrow> client result" where
  "NewClientWithBackends m ws =
     (case parseRoutingMode m of
        None \<Rightarrow> Inl (MsgInvalidRPCRoutingMode m)
      | Some md \<Rightarrow> Inr \<lparr>mode = md, wsBackend = ws, wsCtxDone = False, closed = False,
                        wsConnected = False\<rparr>)"

definition HasWebSocket :: "client \<Rightarrow> bool" where
  "HasWebSocket c = wsBackend c"

definition routeFor :: "client \<Rightarrow> string \<Rightarrow> Connection" where
  "routeFor c method =
     (if \<not> wsBackend c \<or> \<not> wsConnected c then HTTP
      else case mode c of
             RoutingModeWS \<Rightarrow> WebSocket
           | RoutingModeAuto \<Rightarrow> (if method \<notin> httpRoutedMethods then WebSocket else HTTP)
           | RoutingModeLegacy \<Rightarrow> (if method \<in> wsRoutedMethodsLegacy then WebSocket else HTTP)
           | RoutingModeHTTP \<Rightarrow> HTTP)"

definition Connect :: "failure option \<Rightarrow> client \<Rightarrow> failure option \<times> client" where
  "Connect backendResult c =
     (if \<not> wsBackend c then (None, c)
      else if wsConnected c then (None, c)
      else if closed c \<or> wsCtxDone c then (Some MsgRPCClientClosed, c)
      else case backendResult of
             Some e \<Rightarrow> (Some e, c)
           | None \<Rightarrow> (None, c\<lparr>wsConnected := True\<rparr>))"

definition Subscribe :: "'s result \<Rightarrow> client \<Rightarrow> 's result" where
  "Subscribe backendResult c =
     (if \<not> wsBackend c then Inl MsgWebSocketNotConfigured else backendResult)"

definition Close_cancel :: "client \<Rightarrow> client" where
  "Close_cancel c = c\<lparr>wsCtxDone := True\<rparr>"

definition Close_locked :: "client \<Rightarrow> client" where
  "Close_locked c =
     (if closed c then c
      else if wsBackend c then c\<lparr>wsConnected := False, wsCtxDone := True, closed := True\<rparr>
      else c\<lparr>closed := True\<rparr>)"

definition Close :: "client \<Rightarrow> client" where
  "Close c = Close_locked (Close_cancel c)"

section \<open>The client as a state machine\<close>

text \<open>The atomic steps that goroutines interleave. The parent context of the WebSocket context may
  also end at any time, with the same effect as \<open>Close_cancel\<close>.\<close>

inductive client_step :: "client \<Rightarrow> client \<Rightarrow> bool" where
  connect: "client_step c (snd (Connect r c))"
| cancel: "client_step c (Close_cancel c)"
| close: "wsCtxDone c \<Longrightarrow> client_step c (Close_locked c)"

inductive_cases client_stepE: "client_step c c'"

inductive client_reaches :: "client \<Rightarrow> client \<Rightarrow> bool" where
  client_start: "client_reaches c c"
| client_next: "client_reaches c d \<Longrightarrow> client_step d e \<Longrightarrow> client_reaches c e"

definition client_ok :: "client \<Rightarrow> bool" where
  "client_ok c \<longleftrightarrow> (wsConnected c \<longrightarrow> wsBackend c \<and> \<not> closed c) \<and> (closed c \<longrightarrow> wsCtxDone c)"

lemma NewClient_ok: "NewClientWithBackends m ws = Inr c \<Longrightarrow> client_ok c"
  by (auto simp: NewClientWithBackends_def client_ok_def split: option.splits)

lemma Connect_ok: "client_ok c \<Longrightarrow> client_ok (snd (Connect r c))"
  by (simp add: Connect_def client_ok_def split: option.split)

lemma Connect_frame [simp]:
  "mode (snd (Connect r c)) = mode c" "wsBackend (snd (Connect r c)) = wsBackend c"
  "closed (snd (Connect r c)) = closed c" "wsCtxDone (snd (Connect r c)) = wsCtxDone c"
  by (simp_all add: Connect_def split: option.split)

lemma Close_cancel_ok: "client_ok c \<Longrightarrow> client_ok (Close_cancel c)"
  by (simp add: client_ok_def Close_cancel_def)

lemma Close_locked_ok: "client_ok c \<Longrightarrow> wsCtxDone c \<Longrightarrow> client_ok (Close_locked c)"
  by (auto simp: client_ok_def Close_locked_def)

lemma client_step_ok: "client_step c c' \<Longrightarrow> client_ok c \<Longrightarrow> client_ok c'"
  by (erule client_stepE) (auto intro: Connect_ok Close_cancel_ok Close_locked_ok)

lemma client_step_frame [frame_simps]:
  "client_step c c' \<Longrightarrow> mode c' = mode c \<and> wsBackend c' = wsBackend c"
  by (erule client_stepE) (auto simp: Close_cancel_def Close_locked_def)

lemma client_reaches_ok: "client_reaches c c' \<Longrightarrow> client_ok c \<Longrightarrow> client_ok c'"
  by (induction rule: client_reaches.induct) (auto dest: client_step_ok)

lemma client_step_closed: "client_step c c' \<Longrightarrow> closed c \<Longrightarrow> closed c'"
  by (erule client_stepE) (auto simp: Close_cancel_def Close_locked_def)

lemma client_reaches_closed: "client_reaches c c' \<Longrightarrow> closed c \<Longrightarrow> closed c'"
  by (induction rule: client_reaches.induct) (auto dest: client_step_closed)

lemma Close_closed [simp]: "closed (Close c)"
  by (simp add: Close_def Close_locked_def Close_cancel_def)

lemma Close_ok: "client_ok c \<Longrightarrow> client_ok (Close c)"
  by (auto simp: Close_def Close_cancel_def client_ok_def Close_locked_def)

lemma routeFor_not_connected: "\<not> wsConnected c \<Longrightarrow> routeFor c m = HTTP"
  by (simp add: routeFor_def)

end
