(* ===== verification/EthRPC.thy ===== *)
theory EthRPC
  imports Failures
begin

text \<open>
  The JSON/RPC data of \<open>pkg/ethrpc/ethrpc.go\<close>: blocks, logs, receipts and transactions as the
  node returns them, the block information the connector caches, and the comparisons of blocks
  that chain tracking rests on. A pointer field is an option, a \<open>*HexInteger\<close> an optional int.
\<close>

section \<open>Records\<close>

record BlockHeaderJSONRPC =
  bh_Number :: u64
  bh_Hash :: hexbytes
  bh_MixHash :: hexbytes
  bh_ParentHash :: hexbytes
  bh_Nonce :: hexbytes
  bh_SHA3Uncles :: hexbytes
  bh_LogsBloom :: hexbytes
  bh_TransactionsRoot :: hexbytes
  bh_StateRoot :: hexbytes
  bh_ReceiptsRoot :: hexbytes
  bh_Miner :: "address option"
  bh_Difficulty :: "int option"
  bh_TotalDifficulty :: "int option"
  bh_ExtraData :: hexbytes
  bh_BaseFeePerGas :: "int option"
  bh_Size :: "int option"
  bh_GasLimit :: "int option"
  bh_GasUsed :: "int option"
  bh_Timestamp :: u64
  bh_Uncles :: "hexbytes list"

text \<open>The two block structures embed the header, here as their first field.\<close>

record EVMBlockWithTxHashesJSONRPC =
  ebh_Header :: BlockHeaderJSONRPC
  ebh_Transactions :: "hexbytes list"

record TxInfoJSONRPC =
  tx_BlockHash :: hexbytes
  tx_BlockNumber :: u64
  tx_ChainID :: "int option"
  tx_From :: "address option"
  tx_Gas :: "int option"
  tx_GasPrice :: "int option"
  tx_MaxFeePerGas :: "int option"
  tx_MaxPriorityFeePerGas :: "int option"
  tx_Hash :: hexbytes
  tx_Input :: hexbytes
  tx_Nonce :: "int option"
  tx_To :: "address option"
  tx_TransactionIndex :: "u64 option"
  tx_Type :: "u64 option"
  tx_Value :: "int option"
  tx_V :: "int option"
  tx_R :: "int option"
  tx_S :: "int option"

record EVMBlockWithTransactionsJSONRPC =
  ebt_Header :: BlockHeaderJSONRPC
  ebt_Transactions :: "TxInfoJSONRPC list"

record BlockInfoJSONRPC =
  bi_Number :: u64
  bi_Hash :: hexbytes
  bi_ParentHash :: hexbytes
  bi_Timestamp :: u64
  bi_GasLimit :: "int option"
  bi_BaseFeePerGas :: "int option"
  bi_LogsBloom :: hexbytes
  bi_Transactions :: "hexbytes list"

record MinimalBlockInfo =
  mb_BlockNumber :: u64
  mb_BlockHash :: hexbytes
  mb_ParentHash :: hexbytes

record LogJSONRPC =
  lg_Removed :: bool
  lg_LogIndex :: u64
  lg_TransactionIndex :: u64
  lg_BlockNumber :: u64
  lg_TransactionHash :: hexbytes
  lg_BlockHash :: hexbytes
  lg_BlockTimestamp :: "u64 option"
  lg_Address :: "address option"
  lg_Data :: hexbytes
  lg_Topics :: "hexbytes list"

record TxReceiptJSONRPC =
  rc_TransactionHash :: hexbytes
  rc_TransactionIndex :: u64
  rc_BlockHash :: hexbytes
  rc_BlockNumber :: u64
  rc_From :: "address option"
  rc_To :: "address option"
  rc_CumulativeGasUsed :: "int option"
  rc_EffectiveGasPrice :: "int option"
  rc_GasUsed :: "int option"
  rc_ContractAddress :: "address option"
  rc_Logs :: "LogJSONRPC list"
  rc_LogsBloom :: hexbytes
  rc_Type :: "u64 option"
  rc_Status :: "u64 option"
  rc_RevertReason :: hexbytes

record LogFilterJSONRPC =
  lf_FromBlock :: "int option"
  lf_ToBlock :: "int option"
  lf_Address :: "address list"
  lf_Topics :: "hexbytes list list"

section \<open>Conversions\<close>

definition header_ToBlockInfo :: "BlockHeaderJSONRPC \<Rightarrow> bool \<Rightarrow> BlockInfoJSONRPC" where
  "header_ToBlockInfo b includeLogsBloom =
     \<lparr>bi_Number = bh_Number b, bi_Hash = bh_Hash b, bi_ParentHash = bh_ParentHash b,
      bi_Timestamp = bh_Timestamp b, bi_GasLimit = bh_GasLimit b,
      bi_BaseFeePerGas = bh_BaseFeePerGas b,
      bi_LogsBloom = (if includeLogsBloom then bh_LogsBloom b else None),
      bi_Transactions = []\<rparr>"

definition hashes_ToBlockInfo ::
  "EVMBlockWithTxHashesJSONRPC option \<Rightarrow> bool \<Rightarrow> BlockInfoJSONRPC option" where
  "hashes_ToBlockInfo ob includeLogsBloom =
     (case ob of None \<Rightarrow> None
      | Some b \<Rightarrow> Some ((header_ToBlockInfo (ebh_Header b) includeLogsBloom)
                          \<lparr>bi_Transactions := ebh_Transactions b\<rparr>))"

definition transactions_ToBlockInfo ::
  "EVMBlockWithTransactionsJSONRPC option \<Rightarrow> bool \<Rightarrow> BlockInfoJSONRPC option" where
  "transactions_ToBlockInfo ob includeLogsBloom =
     (case ob of None \<Rightarrow> None
      | Some b \<Rightarrow> Some ((header_ToBlockInfo (ebt_Header b) includeLogsBloom)
                          \<lparr>bi_Transactions := map tx_Hash (ebt_Transactions b)\<rparr>))"

definition ToMinimalBlockInfo :: "BlockInfoJSONRPC \<Rightarrow> MinimalBlockInfo" where
  "ToMinimalBlockInfo bi =
     \<lparr>mb_BlockNumber = bi_Number bi, mb_BlockHash = bi_Hash bi, mb_ParentHash = bi_ParentHash bi\<rparr>"

section \<open>Comparisons\<close>

definition bi_Equal :: "BlockInfoJSONRPC \<Rightarrow> BlockInfoJSONRPC \<Rightarrow> bool" where
  "bi_Equal bi bi2 \<longleftrightarrow>
     hexEquals (bi_Hash bi) (bi_Hash bi2) \<and>
     hexEquals (bi_ParentHash bi) (bi_ParentHash bi2) \<and>
     bi_Number bi = bi_Number bi2"

definition bi_IsParentOf :: "BlockInfoJSONRPC \<Rightarrow> BlockInfoJSONRPC \<Rightarrow> bool" where
  "bi_IsParentOf bi other \<longleftrightarrow>
     hexEquals (bi_Hash bi) (bi_ParentHash other) \<and> bi_Number bi + 1 = bi_Number other"

definition SupportsEIP1559 :: "BlockInfoJSONRPC option \<Rightarrow> bool" where
  "SupportsEIP1559 bi \<longleftrightarrow> (case bi of None \<Rightarrow> False | Some b \<Rightarrow> bi_BaseFeePerGas b \<noteq> None)"

definition mb_Equal :: "MinimalBlockInfo \<Rightarrow> MinimalBlockInfo \<Rightarrow> bool" where
  "mb_Equal c other \<longleftrightarrow>
     mb_BlockNumber c = mb_BlockNumber other \<and>
     hexEquals (mb_BlockHash c) (mb_BlockHash other) \<and>
     hexEquals (mb_ParentHash c) (mb_ParentHash other)"

definition mb_IsParentOf :: "MinimalBlockInfo \<Rightarrow> MinimalBlockInfo \<Rightarrow> bool" where
  "mb_IsParentOf c other \<longleftrightarrow>
     hexEquals (mb_BlockHash c) (mb_ParentHash other) \<and> mb_BlockNumber c + 1 = mb_BlockNumber other"

section \<open>Facts\<close>

lemma bi_Equal_refl [simp, intro]: "bi_Equal b b"
  by (simp add: bi_Equal_def)

lemma bi_Equal_sym: "bi_Equal a b \<Longrightarrow> bi_Equal b a"
  by (simp add: bi_Equal_def hexEquals_def)

lemma bi_Equal_trans: "bi_Equal a b \<Longrightarrow> bi_Equal b c \<Longrightarrow> bi_Equal a c"
  by (simp add: bi_Equal_def hexEquals_def)

lemma bi_IsParentOf_number: "bi_IsParentOf a b \<Longrightarrow> bi_Number b = bi_Number a + 1"
  by (simp add: bi_IsParentOf_def)

lemma bi_IsParentOf_Equal:
  "bi_IsParentOf a b \<Longrightarrow> bi_Equal a a' \<Longrightarrow> bi_Equal b b' \<Longrightarrow> bi_IsParentOf a' b'"
  by (simp add: bi_IsParentOf_def bi_Equal_def hexEquals_def)

lemma ToMinimal_IsParentOf [simp]:
  "mb_IsParentOf (ToMinimalBlockInfo a) (ToMinimalBlockInfo b) = bi_IsParentOf a b"
  by (simp add: mb_IsParentOf_def bi_IsParentOf_def ToMinimalBlockInfo_def)

lemma ToMinimal_Equal [simp]:
  "mb_Equal (ToMinimalBlockInfo a) (ToMinimalBlockInfo b) = bi_Equal a b"
  by (auto simp: mb_Equal_def bi_Equal_def ToMinimalBlockInfo_def)

lemma hashes_ToBlockInfo_None [simp]: "hashes_ToBlockInfo None l = None"
  by (simp add: hashes_ToBlockInfo_def)

lemma hashes_ToBlockInfo_Some:
  "hashes_ToBlockInfo (Some b) l = Some bi \<Longrightarrow>
     bi_Number bi = bh_Number (ebh_Header b) \<and> bi_Hash bi = bh_Hash (ebh_Header b) \<and>
     bi_ParentHash bi = bh_ParentHash (ebh_Header b)"
  by (auto simp: hashes_ToBlockInfo_def header_ToBlockInfo_def)

lemma hashes_ToBlockInfo_is_None [simp]: "hashes_ToBlockInfo ob l = None \<longleftrightarrow> ob = None"
  by (simp add: hashes_ToBlockInfo_def split: option.splits)

section \<open>Linked lists of blocks\<close>

text \<open>Each block is the parent of the next one: the shape of a canonical chain and of a
  confirmation list.\<close>

abbreviation linked :: "BlockInfoJSONRPC list \<Rightarrow> bool" where
  "linked \<equiv> successively bi_IsParentOf"

lemma linked_nth_number:
  "linked bs \<Longrightarrow> i < length bs \<Longrightarrow> bi_Number (bs ! i) = bi_Number (hd bs) + of_nat i"
proof (induction i)
  case 0
  then show ?case by (simp add: hd_conv_nth)
next
  case (Suc i)
  then have "bi_IsParentOf (bs ! i) (bs ! Suc i)"
    using successively_nth [of bi_IsParentOf bs i] by simp
  with Suc show ?case by (auto dest!: bi_IsParentOf_number)
qed

lemma linked_last_number:
  "linked bs \<Longrightarrow> bs \<noteq> [] \<Longrightarrow> bi_Number (last bs) = bi_Number (hd bs) + of_nat (length bs - 1)"
  using linked_nth_number [of bs "length bs - 1"] by (simp add: last_conv_nth)

lemma linked_map_Minimal:
  "successively mb_IsParentOf (map ToMinimalBlockInfo bs) = linked bs"
  by (simp add: successively_map)

end
