(* ===== verification/EthErrors.thy ===== *)
theory EthErrors
  imports Failures "HOL-Library.Sublist"
begin

text \<open>
  \<open>pkg/etherrors/error_mapping.go\<close>: the mapping of a node's error text to an FFCAPI reason.
  Error texts are strings of characters; \<open>strings.ToLower\<close> is modelled on ASCII letters, which
  are the only characters of the phrases that are searched for.
\<close>

datatype RPCMethodCategory =
    FilterRPCMethods
  | SendRPCMethods
  | CallRPCMethods
  | BlockRPCMethods
  | NetVersionRPCMethods

definition toLowerChar :: "char \<Rightarrow> char" where
  "toLowerChar c =
     (let n = of_char c :: nat in if 65 \<le> n \<and> n \<le> 90 then char_of (n + 32) else c)"

definition ToLower :: "string \<Rightarrow> string" where
  "ToLower s = map toLowerChar s"

definition Contains :: "string \<Rightarrow> string \<Rightarrow> bool" where
  "Contains s phrase \<longleftrightarrow> sublist phrase s"

definition MapError :: "RPCMethodCategory \<Rightarrow> string \<Rightarrow> ErrorReason" where
  "MapError methodType err =
     (let errString = ToLower err in
      case methodType of
        FilterRPCMethods \<Rightarrow>
          (if Contains errString ''filter not found'' then ErrorReasonNotFound else ReasonNone)
      | SendRPCMethods \<Rightarrow>
          (if Contains errString ''nonce too low'' then ErrorReasonNonceTooLow
           else if Contains errString ''insufficient funds'' then ErrorReasonInsufficientFunds
           else if Contains errString ''transaction underpriced''
                then ErrorReasonTransactionUnderpriced
           else if Contains errString ''known transaction'' then ErrorKnownTransaction
           else if Contains errString ''already known'' then ErrorKnownTransaction
           else ReasonNone)
      | CallRPCMethods \<Rightarrow>
          (if Contains errString ''execution reverted'' then ErrorReasonTransactionReverted
           else ReasonNone)
      | BlockRPCMethods \<Rightarrow>
          (if Contains errString ''cannot query unfinalized data'' then ErrorReasonNotFound
           else ReasonNone)
      | NetVersionRPCMethods \<Rightarrow>
          (if Contains errString ''the method net_version does not exist/is not available''
           then ErrorReasonNotFound else ReasonNone))"

lemma toLowerChar_idem [simp]: "toLowerChar (toLowerChar c) = toLowerChar c"
proof -
  have "of_char c < (256 :: nat)" by simp
  then show ?thesis
    by (auto simp: toLowerChar_def Let_def)
qed

lemma ToLower_idem [simp]: "ToLower (ToLower s) = ToLower s"
  by (simp add: ToLower_def)

lemma Contains_ToLower: "Contains s p \<Longrightarrow> Contains (ToLower s) (ToLower p)"
  unfolding Contains_def ToLower_def by (rule map_mono_sublist)

lemma MapError_case_insensitive: "MapError m (ToLower err) = MapError m err"
  by (simp add: MapError_def)

lemma MapError_range:
  "MapError m err \<in>
     (case m of
        FilterRPCMethods \<Rightarrow> {ReasonNone, ErrorReasonNotFound}
      | SendRPCMethods \<Rightarrow> {ReasonNone, ErrorReasonNonceTooLow, ErrorReasonInsufficientFunds,
                          ErrorReasonTransactionUnderpriced, ErrorKnownTransaction}
      | CallRPCMethods \<Rightarrow> {ReasonNone, ErrorReasonTransactionReverted}
      | BlockRPCMethods \<Rightarrow> {ReasonNone, ErrorReasonNotFound}
      | NetVersionRPCMethods \<Rightarrow> {ReasonNone, ErrorReasonNotFound})"
  by (cases m) (simp_all add: MapError_def Let_def)

end
