(* ===== verification/BlockListenerState.thy ===== *)
theory BlockListenerState
  imports EthRPC EthErrors
begin

text \<open>
  The state of the block listener (\<open>pkg/ethblocklistener/blocklistener.go\<close>), its environment and
  its metrics.

  The environment \<open>env\<close> holds what is not under src/: the node behind the JSON/RPC client (one
  function per method, which may answer differently at every call: its first argument is the
  number of calls made so far, the \<open>tick\<close> of the state), the LRU cache library, the rendering of
  hashes and numbers as strings, the retry library (\<open>retryRuns\<close>: how often a call of
  \<open>retry.Do\<close> that began at a tick repeats its closure before the context ends), and which case
  of the \<open>select\<close> statement of \<open>dispatchToConsumers\<close> fires for a consumer.

  \<open>container/list\<close> is modelled with the identity of its elements, because the pollers keep a
  pointer to an element across calls that may take it out of the list. An element is an identifier
  and a value. \<open>list.Remove\<close> clears the links of an element, so its \<open>Next\<close> is nil from then on;
  \<open>list.Init\<close> does not, so the elements it drops still lead to each other: the model keeps them in
  \<open>orphaned\<close>. The remaining fields of the model that have no counterpart in the struct are
  \<open>nextElem\<close> (the supply of identifiers), \<open>tick\<close>, \<open>asyncRequests\<close> (the goroutines started
  by \<open>FetchBlockReceiptsAsync\<close> that have not finished) and \<open>dispatched\<close> (what was sent to the
  channels of consumers, oldest first).
\<close>

section \<open>The LRU cache library\<close>

record ('v, 'c) lru =
  lru_Get :: "string \<Rightarrow> 'c \<Rightarrow> 'v option \<times> 'c"
  lru_Add :: "string \<Rightarrow> 'v \<Rightarrow> 'c \<Rightarrow> 'c"
  lru_Purge :: "'c \<Rightarrow> 'c"

text \<open>Its documented behaviour: a lookup finds the last value added under the key, unless another
  addition evicted it; a lookup changes the recency of entries only; nothing survives a purge.\<close>

definition lru_lawful :: "('v, 'c) lru \<Rightarrow> bool" where
  "lru_lawful L \<longleftrightarrow>
     (\<forall>k v c. fst (lru_Get L k (lru_Add L k v c)) = Some v) \<and>
     (\<forall>k k' v c. k \<noteq> k' \<longrightarrow> fst (lru_Get L k (lru_Add L k' v c)) \<in> {None, fst (lru_Get L k c)}) \<and>
     (\<forall>k k' c. fst (lru_Get L k (snd (lru_Get L k' c))) = fst (lru_Get L k c)) \<and>
     (\<forall>k c. fst (lru_Get L k (lru_Purge L c)) = None)"

lemma lru_lawfulD:
  assumes "lru_lawful L"
  shows "fst (lru_Get L k (lru_Add L k v c)) = Some v"
    and "k \<noteq> k' \<Longrightarrow> fst (lru_Get L k (lru_Add L k' v c)) \<in> {None, fst (lru_Get L k c)}"
    and "fst (lru_Get L k (snd (lru_Get L k' c))) = fst (lru_Get L k c)"
    and "fst (lru_Get L k (lru_Purge L c)) = None"
  using assms unfolding lru_lawful_def by blast+

section \<open>Configuration and environment\<close>

datatype ChainTrackingMode = ChainTrackingModeFull | ChainTrackingModeLight

datatype FilterPollingMode = FilterPollingModeServer | FilterPollingModeClient

record BlockListenerConfig =
  cfg_MonitoredHeadLength :: int
  cfg_HederaCompatibilityMode :: bool
  cfg_IncludeLogsBloom :: bool
  cfg_UseGetBlockReceipts :: bool
  cfg_ChainTrackingMode :: ChainTrackingMode
  cfg_FilterPollingMode :: FilterPollingMode

datatype select_outcome = UpdateSent | ListenerStopping | ConsumerClosed

record ('bc, 'rc) env =
  hashString :: "hexbytes \<Rightarrow> string"
  numString :: "u64 \<Rightarrow> string"
  blockLru :: "(BlockInfoJSONRPC, 'bc) lru"
  receiptLru :: "(TxReceiptJSONRPC, 'rc) lru"
  rpc_blockNumber :: "nat \<Rightarrow> string + int"
  rpc_getBlockByNumber :: "nat \<Rightarrow> string \<Rightarrow> string + EVMBlockWithTxHashesJSONRPC option"
  rpc_getBlockByHash :: "nat \<Rightarrow> string \<Rightarrow> string + EVMBlockWithTxHashesJSONRPC option"
  rpc_getFullBlockByNumber :: "nat \<Rightarrow> string \<Rightarrow> string + EVMBlockWithTransactionsJSONRPC option"
  rpc_getFullBlockByHash :: "nat \<Rightarrow> string \<Rightarrow> string + EVMBlockWithTransactionsJSONRPC option"
  rpc_getTransactionReceipt :: "nat \<Rightarrow> string \<Rightarrow> string + TxReceiptJSONRPC option"
  rpc_getBlockReceipts :: "nat \<Rightarrow> u64 \<Rightarrow> string + TxReceiptJSONRPC option list option"
  rpc_newBlockFilter :: "nat \<Rightarrow> string + string"
  rpc_getFilterChanges :: "nat \<Rightarrow> string \<Rightarrow> string + hexbytes list"
  retryRuns :: "nat \<Rightarrow> nat"
  consumerSelect :: "nat \<Rightarrow> nat \<Rightarrow> select_outcome"

section \<open>State\<close>

record elem =
  el_id :: nat
  el_val :: BlockInfoJSONRPC

record blockReceiptRequest =
  rq_blockNumber :: u64
  rq_blockHash :: hexbytes
  rq_generation :: u64

record BlockHashEvent =
  ev_BlockHashes :: "string list"
  ev_GapPotential :: bool
  ev_HeadBlockNumber :: u64

record metricsManager =
  mm_targetBlockHeight :: "u64 option"
  mm_canonicalBlockHeight :: "u64 option"
  mm_pollFailures :: "string list"
  mm_lightModeDrift :: "string list"

record ('bc, 'rc) blockListener =
  conf :: BlockListenerConfig
  isStarted :: bool
  consumers :: "nat list"
  blockCache :: 'bc
  txReceiptCache :: "'rc option"
  monitoredHeadLength :: u64
  canonicalChain :: "elem list"
  highestBlockSet :: bool
  highestBlock :: u64
  headBlockInfo :: "BlockInfoJSONRPC option"
  txReceiptCacheGeneration :: u64
  currentChainHead :: u64
  metrics :: "metricsManager option"
  orphaned :: "elem list list"
  nextElem :: nat
  tick :: nat
  asyncRequests :: "blockReceiptRequest list"
  dispatched :: "(nat \<times> BlockHashEvent) list"

definition chainBlocks :: "('bc, 'rc) blockListener \<Rightarrow> BlockInfoJSONRPC list" where
  "chainBlocks s = map el_val (canonicalChain s)"

definition ticked :: "('bc, 'rc) blockListener \<Rightarrow> ('bc, 'rc) blockListener" where
  "ticked s = s\<lparr>tick := Suc (tick s)\<rparr>"

text \<open>\<open>NewBlockListener\<close>: the defaults of the configuration and its one check; the caches are
  created by the library (\<open>newBlockCache\<close>, \<open>newReceiptCache\<close>: nil for an error).\<close>

definition NewBlockListener ::
  "int \<Rightarrow> bool \<Rightarrow> bool \<Rightarrow> bool \<Rightarrow> ChainTrackingMode option \<Rightarrow> FilterPollingMode option \<Rightarrow>
   'bc option \<Rightarrow> bool \<Rightarrow> 'rc option \<Rightarrow> ('bc, 'rc) blockListener result" where
  "NewBlockListener headLength hedera bloom useReceipts trackingMode pollingMode
     newBlockCache receiptCacheEnabled newReceiptCache =
     (if headLength \<le> 0 then Inl (MsgMonitoredHeadLengthInvalid headLength)
      else case newBlockCache of
        None \<Rightarrow> Inl (MsgCacheInitFail ''block'')
      | Some bc \<Rightarrow>
          if receiptCacheEnabled \<and> newReceiptCache = None
          then Inl (MsgCacheInitFail ''receipt'')
          else Inr \<lparr>conf = \<lparr>cfg_MonitoredHeadLength = headLength,
                     cfg_HederaCompatibilityMode = hedera, cfg_IncludeLogsBloom = bloom,
                     cfg_UseGetBlockReceipts = useReceipts,
                     cfg_ChainTrackingMode = (case trackingMode of None \<Rightarrow> ChainTrackingModeFull
                                               | Some m \<Rightarrow> m),
                     cfg_FilterPollingMode = (case pollingMode of None \<Rightarrow> FilterPollingModeServer
                                               | Some m \<Rightarrow> m)\<rparr>,
                   isStarted = False, consumers = [], blockCache = bc,
                   txReceiptCache = (if receiptCacheEnabled then newReceiptCache else None),
                   monitoredHeadLength = word_of_int headLength,
                   canonicalChain = [], highestBlockSet = False, highestBlock = 0,
                   headBlockInfo = None, txReceiptCacheGeneration = 0, currentChainHead = 0,
                   metrics = None, orphaned = [], nextElem = 0, tick = 0, asyncRequests = [],
                   dispatched = []\<rparr>)"

definition GetMonitoredHeadLength :: "('bc, 'rc) blockListener \<Rightarrow> int" where
  "GetMonitoredHeadLength s = cfg_MonitoredHeadLength (conf s)"

section \<open>Metrics (\<open>blocklistener_metrics.go\<close>)\<close>

datatype heightMetric = TargetBlockHeight | CanonicalBlockHeight

text \<open>\<open>created\<close> is whether the registry returned a manager for the subsystem.\<close>

definition InitMetrics ::
  "bool \<Rightarrow> ('bc, 'rc) blockListener \<Rightarrow> failure option \<times> ('bc, 'rc) blockListener" where
  "InitMetrics created s =
     (if \<not> created then (Some MsgMetricsInitFail, s)
      else (None, s\<lparr>metrics := Some \<lparr>mm_targetBlockHeight = None,
              mm_canonicalBlockHeight = None, mm_pollFailures = [], mm_lightModeDrift = []\<rparr>\<rparr>))"

definition setBlockHeightMetric ::
  "heightMetric \<Rightarrow> u64 \<Rightarrow> ('bc, 'rc) blockListener \<Rightarrow> ('bc, 'rc) blockListener" where
  "setBlockHeightMetric name h s =
     (case metrics s of
        None \<Rightarrow> s
      | Some mm \<Rightarrow> s\<lparr>metrics := Some (case name of
            TargetBlockHeight \<Rightarrow> mm\<lparr>mm_targetBlockHeight := Some h\<rparr>
          | CanonicalBlockHeight \<Rightarrow> mm\<lparr>mm_canonicalBlockHeight := Some h\<rparr>)\<rparr>)"

definition incPollFailureMetric ::
  "string \<Rightarrow> ('bc, 'rc) blockListener \<Rightarrow> ('bc, 'rc) blockListener" where
  "incPollFailureMetric method s =
     (case metrics s of
        None \<Rightarrow> s
      | Some mm \<Rightarrow> s\<lparr>metrics := Some (mm\<lparr>mm_pollFailures := mm_pollFailures mm @ [method]\<rparr>)\<rparr>)"

definition incLightModeDriftMetric ::
  "string \<Rightarrow> ('bc, 'rc) blockListener \<Rightarrow> ('bc, 'rc) blockListener" where
  "incLightModeDriftMetric kind s =
     (case metrics s of
        None \<Rightarrow> s
      | Some mm \<Rightarrow>
          s\<lparr>metrics := Some (mm\<lparr>mm_lightModeDrift := mm_lightModeDrift mm @ [kind]\<rparr>)\<rparr>)"

definition IncLightModeRangeAhead :: "('bc, 'rc) blockListener \<Rightarrow> ('bc, 'rc) blockListener" where
  "IncLightModeRangeAhead s = incLightModeDriftMetric ''range_ahead'' s"

definition IncLightModeDriftViolation ::
  "('bc, 'rc) blockListener \<Rightarrow> ('bc, 'rc) blockListener" where
  "IncLightModeDriftViolation s = incLightModeDriftMetric ''drift_violation'' s"

section \<open>Frames\<close>

text \<open>What an operation that does not touch the canonical chain leaves unchanged.\<close>

definition same_chain ::
  "('bc, 'rc) blockListener \<Rightarrow> ('bc, 'rc) blockListener \<Rightarrow> bool" where
  "same_chain s s' \<longleftrightarrow>
     conf s' = conf s \<and> isStarted s' = isStarted s \<and> consumers s' = consumers s \<and>
     monitoredHeadLength s' = monitoredHeadLength s \<and> canonicalChain s' = canonicalChain s \<and>
     highestBlockSet s' = highestBlockSet s \<and> highestBlock s' = highestBlock s \<and>
     headBlockInfo s' = headBlockInfo s \<and> currentChainHead s' = currentChainHead s \<and>
     orphaned s' = orphaned s \<and> nextElem s' = nextElem s \<and> dispatched s' = dispatched s"

lemma same_chain_refl [simp, intro]: "same_chain s s"
  by (simp add: same_chain_def)

lemma same_chain_trans [trans]: "same_chain s t \<Longrightarrow> same_chain t u \<Longrightarrow> same_chain s u"
  by (simp add: same_chain_def)

lemma same_chain_ticked [simp, intro]: "same_chain s (ticked s)"
  by (simp add: same_chain_def ticked_def)

lemma setBlockHeightMetric_same [simp, intro]: "same_chain s (setBlockHeightMetric n h s)"
  by (simp add: same_chain_def setBlockHeightMetric_def split: option.split)

lemma incPollFailureMetric_same [simp, intro]: "same_chain s (incPollFailureMetric m s)"
  by (simp add: same_chain_def incPollFailureMetric_def split: option.split)

lemma incLightModeDriftMetric_same [simp, intro]: "same_chain s (incLightModeDriftMetric k s)"
  by (simp add: same_chain_def incLightModeDriftMetric_def split: option.split)

lemma same_chainD:
  assumes "same_chain s s'"
  shows "conf s' = conf s" "canonicalChain s' = canonicalChain s"
    "highestBlock s' = highestBlock s" "highestBlockSet s' = highestBlockSet s"
    "headBlockInfo s' = headBlockInfo s" "orphaned s' = orphaned s" "nextElem s' = nextElem s"
    "consumers s' = consumers s" "dispatched s' = dispatched s" "isStarted s' = isStarted s"
    "monitoredHeadLength s' = monitoredHeadLength s" "currentChainHead s' = currentChainHead s"
  using assms by (simp_all add: same_chain_def)

end
