(* ===== verification/BlockQuery.thy ===== *)
theory BlockQuery
  imports BlockListenerState
begin

text \<open>
  \<open>pkg/ethblocklistener/blocklistener_blockquery.go\<close>: queries of the node for blocks and
  receipts, with the block cache (one LRU cache, keyed by the hash string and by the number string
  of a block). An operation takes the environment and the state, and returns its result and the
  new state; every JSON/RPC call advances the tick. \<open>retryDo\<close> is \<open>retry.Do\<close> of the retry library:
  the closure returns whether to retry, and its error or value.
\<close>

section \<open>Retries\<close>

fun retryDo :: "nat \<Rightarrow> ('s \<Rightarrow> (bool \<times> 'a result) \<times> 's) \<Rightarrow> 's \<Rightarrow> 'a result \<times> 's" where
  "retryDo 0 f s = (case f s of ((retry, r), s') \<Rightarrow> (r, s'))"
| "retryDo (Suc n) f s =
     (case f s of ((retry, r), s') \<Rightarrow>
        (case r of
           Inr a \<Rightarrow> (Inr a, s')
         | Inl e \<Rightarrow> if retry then retryDo n f s' else (Inl e, s')))"

lemma retryDo_invariant:
  assumes step: "\<And>s q s'. I s \<Longrightarrow> f s = (q, s') \<Longrightarrow> I s'"
    and "I s" and "retryDo n f s = (r, s')"
  shows "I s'"
  using assms(2,3)
proof (induction n arbitrary: s)
  case 0
  then show ?case using step by (auto split: prod.splits)
next
  case (Suc n)
  obtain retry q s1 where f: "f s = ((retry, q), s1)" by (metis surj_pair)
  then have "I s1" using step Suc.prems(1) by blast
  with Suc f show ?case by (auto split: sum.splits if_splits)
qed

lemma retryDo_result:
  assumes "\<And>s retry q s'. f s = ((retry, q), s') \<Longrightarrow> P q"
    and "retryDo n f s = (r, s')"
  shows "P r"
  using assms(2)
proof (induction n arbitrary: s)
  case 0
  then show ?case using assms(1) by (auto split: prod.splits)
next
  case (Suc n)
  obtain retry q s1 where f: "f s = ((retry, q), s1)" by (metis surj_pair)
  with Suc assms(1) [OF f] show ?case by (auto split: sum.splits if_splits)
qed

lemma retryDo_success: "f s = ((retry, Inr a), s') \<Longrightarrow> retryDo n f s = (Inr a, s')"
  by (cases n) simp_all

section \<open>Block cache\<close>

definition addToBlockCache ::
  "('bc, 'rc) env \<Rightarrow> BlockInfoJSONRPC \<Rightarrow> ('bc, 'rc) blockListener \<Rightarrow> ('bc, 'rc) blockListener" where
  "addToBlockCache E blockInfo s =
     s\<lparr>blockCache :=
         lru_Add (blockLru E) (numString E (bi_Number blockInfo)) blockInfo
           (lru_Add (blockLru E) (hashString E (bi_Hash blockInfo)) blockInfo (blockCache s))\<rparr>"

definition blockCacheGet ::
  "('bc, 'rc) env \<Rightarrow> string \<Rightarrow> ('bc, 'rc) blockListener \<Rightarrow>
   BlockInfoJSONRPC option \<times> ('bc, 'rc) blockListener" where
  "blockCacheGet E k s =
     (case lru_Get (blockLru E) k (blockCache s) of (r, c) \<Rightarrow> (r, s\<lparr>blockCache := c\<rparr>))"

section \<open>Queries of the node\<close>

definition GetEVMBlockWithTxHashesByHash ::
  "('bc, 'rc) env \<Rightarrow> string \<Rightarrow> ('bc, 'rc) blockListener \<Rightarrow>
   EVMBlockWithTxHashesJSONRPC option result \<times> ('bc, 'rc) blockListener" where
  "GetEVMBlockWithTxHashesByHash E hash0xString s =
     (case rpc_getBlockByHash E (tick s) hash0xString of
        Inl e \<Rightarrow> (Inl (RPCFailure e), ticked s)
      | Inr b \<Rightarrow>
          (Inr b, case hashes_ToBlockInfo b (cfg_IncludeLogsBloom (conf s)) of
                    None \<Rightarrow> ticked s
                  | Some bi \<Rightarrow> addToBlockCache E bi (ticked s)))"

definition GetEVMBlockWithTransactionsByHash ::
  "('bc, 'rc) env \<Rightarrow> string \<Rightarrow> ('bc, 'rc) blockListener \<Rightarrow>
   EVMBlockWithTransactionsJSONRPC option result \<times> ('bc, 'rc) blockListener" where
  "GetEVMBlockWithTransactionsByHash E hash0xString s =
     (case rpc_getFullBlockByHash E (tick s) hash0xString of
        Inl e \<Rightarrow> (Inl (RPCFailure e), ticked s)
      | Inr b \<Rightarrow>
          (Inr b, case transactions_ToBlockInfo b (cfg_IncludeLogsBloom (conf s)) of
                    None \<Rightarrow> ticked s
                  | Some bi \<Rightarrow> addToBlockCache E bi (ticked s)))"

definition GetEVMBlockWithTxHashesByNumber ::
  "('bc, 'rc) env \<Rightarrow> string \<Rightarrow> ('bc, 'rc) blockListener \<Rightarrow>
   EVMBlockWithTxHashesJSONRPC option result \<times> ('bc, 'rc) blockListener" where
  "GetEVMBlockWithTxHashesByNumber E numberLookup s =
     (case rpc_getBlockByNumber E (tick s) numberLookup of
        Inl e \<Rightarrow> (Inl (RPCFailure e), ticked s)
      | Inr b \<Rightarrow>
          (Inr b, case hashes_ToBlockInfo b (cfg_IncludeLogsBloom (conf s)) of
                    None \<Rightarrow> ticked s
                  | Some bi \<Rightarrow> addToBlockCache E bi (ticked s)))"

definition GetEVMBlockWithTransactionsByNumber ::
  "('bc, 'rc) env \<Rightarrow> string \<Rightarrow> ('bc, 'rc) blockListener \<Rightarrow>
   EVMBlockWithTransactionsJSONRPC option result \<times> ('bc, 'rc) blockListener" where
  "GetEVMBlockWithTransactionsByNumber E numberLookup s =
     (case rpc_getFullBlockByNumber E (tick s) numberLookup of
        Inl e \<Rightarrow> (Inl (RPCFailure e), ticked s)
      | Inr b \<Rightarrow>
          (Inr b, case transactions_ToBlockInfo b (cfg_IncludeLogsBloom (conf s)) of
                    None \<Rightarrow> ticked s
                  | Some bi \<Rightarrow> addToBlockCache E bi (ticked s)))"

text \<open>The cached block is used only when it agrees with the hashes the caller expects; the empty
  string expects nothing.\<close>

definition cacheMatches ::
  "('bc, 'rc) env \<Rightarrow> string \<Rightarrow> string \<Rightarrow> BlockInfoJSONRPC \<Rightarrow> bool" where
  "cacheMatches E expectedParentHashStr expectedBlockHashStr blockInfo \<longleftrightarrow>
     \<not> ((expectedParentHashStr \<noteq> '''' \<and>
          hashString E (bi_ParentHash blockInfo) \<noteq> expectedParentHashStr) \<or>
        (expectedBlockHashStr \<noteq> '''' \<and>
          hashString E (bi_Hash blockInfo) \<noteq> expectedBlockHashStr))"

definition queryBlockByNumber ::
  "('bc, 'rc) env \<Rightarrow> u64 \<Rightarrow> ('bc, 'rc) blockListener \<Rightarrow>
   BlockInfoJSONRPC option result \<times> ('bc, 'rc) blockListener" where
  "queryBlockByNumber E blockNumber s =
     (case GetEVMBlockWithTxHashesByNumber E (numString E blockNumber) s of
        (Inl e, s1) \<Rightarrow> (Inl e, s1)
      | (Inr b, s1) \<Rightarrow> (Inr (hashes_ToBlockInfo b (cfg_IncludeLogsBloom (conf s1))), s1))"

definition GetBlockInfoByNumber ::
  "('bc, 'rc) env \<Rightarrow> u64 \<Rightarrow> bool \<Rightarrow> string \<Rightarrow> string \<Rightarrow> ('bc, 'rc) blockListener \<Rightarrow>
   BlockInfoJSONRPC option result \<times> ('bc, 'rc) blockListener" where
  "GetBlockInfoByNumber E blockNumber allowCache expectedParentHashStr expectedBlockHashStr s =
     (if allowCache then
        (case blockCacheGet E (numString E blockNumber) s of
           (Some blockInfo, s1) \<Rightarrow>
             if cacheMatches E expectedParentHashStr expectedBlockHashStr blockInfo
             then (Inr (Some blockInfo), s1)
             else queryBlockByNumber E blockNumber s1
         | (None, s1) \<Rightarrow> queryBlockByNumber E blockNumber s1)
      else queryBlockByNumber E blockNumber s)"

definition GetBlockInfoByHash ::
  "('bc, 'rc) env \<Rightarrow> string \<Rightarrow> ('bc, 'rc) blockListener \<Rightarrow>
   BlockInfoJSONRPC option result \<times> ('bc, 'rc) blockListener" where
  "GetBlockInfoByHash E hash0xString s =
     (case blockCacheGet E hash0xString s of
        (Some blockInfo, s1) \<Rightarrow> (Inr (Some blockInfo), s1)
      | (None, s1) \<Rightarrow>
          (case GetEVMBlockWithTxHashesByHash E hash0xString s1 of
             (Inl e, s2) \<Rightarrow> (Inl e, s2)
           | (Inr b, s2) \<Rightarrow>
               (Inr (hashes_ToBlockInfo b (cfg_IncludeLogsBloom (conf s2))), s2)))"

section \<open>Receipts\<close>

text \<open>\<open>getCachedTransactionReceipt\<close> of \<open>block_receipt_fetcher.go\<close>, which this query uses.\<close>

definition getCachedTransactionReceipt ::
  "('bc, 'rc) env \<Rightarrow> string \<Rightarrow> ('bc, 'rc) blockListener \<Rightarrow>
   TxReceiptJSONRPC option \<times> ('bc, 'rc) blockListener" where
  "getCachedTransactionReceipt E txHash s =
     (case txReceiptCache s of
        None \<Rightarrow> (None, s)
      | Some c \<Rightarrow>
          (case lru_Get (receiptLru E) txHash c of
             (r, c') \<Rightarrow> (r, s\<lparr>txReceiptCache := Some c'\<rparr>)))"

definition GetTransactionReceipt ::
  "('bc, 'rc) env \<Rightarrow> string \<Rightarrow> ('bc, 'rc) blockListener \<Rightarrow>
   TxReceiptJSONRPC option result \<times> ('bc, 'rc) blockListener" where
  "GetTransactionReceipt E txHash s =
     (case getCachedTransactionReceipt E txHash s of
        (Some receipt, s1) \<Rightarrow> (Inr (Some receipt), s1)
      | (None, s1) \<Rightarrow>
          (case rpc_getTransactionReceipt E (tick s1) txHash of
             Inl e \<Rightarrow> (Inl (RPCFailure e), ticked s1)
           | Inr r \<Rightarrow> (Inr r, ticked s1)))"

definition getReceiptAndBlock ::
  "('bc, 'rc) env \<Rightarrow> string \<Rightarrow> ('bc, 'rc) blockListener \<Rightarrow>
   (BlockInfoJSONRPC \<times> TxReceiptJSONRPC) option result \<times> ('bc, 'rc) blockListener" where
  "getReceiptAndBlock E txHash s =
     (case GetTransactionReceipt E txHash s of
        (Inl e, s1) \<Rightarrow> (Inl (MsgFailedToQueryReceipt e txHash), s1)
      | (Inr None, s1) \<Rightarrow> (Inr None, s1)
      | (Inr (Some receipt), s1) \<Rightarrow>
          (case GetBlockInfoByNumber E (rc_BlockNumber receipt) True ''''
                  (hashString E (rc_BlockHash receipt)) s1 of
             (Inl e, s2) \<Rightarrow> (Inl (MsgFailedToQueryBlockInfo e txHash), s2)
           | (Inr None, s2) \<Rightarrow> (Inr None, s2)
           | (Inr (Some bi), s2) \<Rightarrow> (Inr (Some (bi, receipt)), s2)))"

section \<open>Frames: queries leave the canonical chain alone\<close>

lemma addToBlockCache_same [simp, intro]: "same_chain s (addToBlockCache E b s)"
  by (simp add: same_chain_def addToBlockCache_def)

lemma blockCacheGet_same [frame_simps]: "blockCacheGet E k s = (r, s') \<Longrightarrow> same_chain s s'"
  by (auto simp: blockCacheGet_def same_chain_def split: prod.splits)

lemma ticked_addToBlockCache_same [simp, intro]: "same_chain s (addToBlockCache E b (ticked s))"
  by (rule same_chain_trans [of _ "ticked s"]) simp_all

lemma GetEVMBlockWithTxHashesByNumber_same [frame_simps]:
  "GetEVMBlockWithTxHashesByNumber E l s = (r, s') \<Longrightarrow> same_chain s s'"
  by (auto simp: GetEVMBlockWithTxHashesByNumber_def split: sum.splits option.splits)

lemma GetEVMBlockWithTxHashesByHash_same [frame_simps]:
  "GetEVMBlockWithTxHashesByHash E l s = (r, s') \<Longrightarrow> same_chain s s'"
  by (auto simp: GetEVMBlockWithTxHashesByHash_def split: sum.splits option.splits)

lemma queryBlockByNumber_same [frame_simps]:
  "queryBlockByNumber E n s = (r, s') \<Longrightarrow> same_chain s s'"
  by (auto simp: queryBlockByNumber_def split: prod.splits sum.splits
      dest: GetEVMBlockWithTxHashesByNumber_same)

lemma GetBlockInfoByNumber_same [frame_simps]:
  assumes "GetBlockInfoByNumber E n c p h s = (r, s')"
  shows "same_chain s s'"
proof (cases c)
  case False
  with assms show ?thesis by (simp add: GetBlockInfoByNumber_def queryBlockByNumber_same)
next
  case True
  obtain o1 s1 where get: "blockCacheGet E (numString E n) s = (o1, s1)" by fastforce
  then have "same_chain s s1" by (rule blockCacheGet_same)
  with assms True get show ?thesis
    by (auto simp: GetBlockInfoByNumber_def split: option.splits if_splits
        dest!: queryBlockByNumber_same intro: same_chain_trans)
qed

lemma GetBlockInfoByHash_same [frame_simps]:
  assumes "GetBlockInfoByHash E h s = (r, s')"
  shows "same_chain s s'"
proof -
  obtain o1 s1 where get: "blockCacheGet E h s = (o1, s1)" by fastforce
  then have "same_chain s s1" by (rule blockCacheGet_same)
  with assms get show ?thesis
    by (auto simp: GetBlockInfoByHash_def split: option.splits prod.splits sum.splits
        dest!: GetEVMBlockWithTxHashesByHash_same intro: same_chain_trans)
qed

lemma getCachedTransactionReceipt_same [frame_simps]:
  "getCachedTransactionReceipt E h s = (r, s') \<Longrightarrow> same_chain s s'"
  by (auto simp: getCachedTransactionReceipt_def same_chain_def split: option.splits prod.splits)

lemma GetTransactionReceipt_same [frame_simps]:
  assumes "GetTransactionReceipt E h s = (r, s')"
  shows "same_chain s s'"
proof -
  obtain o1 s1 where get: "getCachedTransactionReceipt E h s = (o1, s1)" by fastforce
  then have "same_chain s s1" by (rule getCachedTransactionReceipt_same)
  with assms get show ?thesis
    by (auto simp: GetTransactionReceipt_def split: option.splits sum.splits
        intro: same_chain_trans)
qed

lemma getReceiptAndBlock_same [frame_simps]:
  assumes "getReceiptAndBlock E h s = (r, s')"
  shows "same_chain s s'"
proof -
  obtain r1 s1 where get: "GetTransactionReceipt E h s = (r1, s1)" by fastforce
  then have "same_chain s s1" by (rule GetTransactionReceipt_same)
  with assms get show ?thesis
    by (auto simp: getReceiptAndBlock_def split: option.splits sum.splits prod.splits
        dest!: GetBlockInfoByNumber_same intro: same_chain_trans)
qed

section \<open>What a query returns\<close>

text \<open>Without the cache, the answer is the node's answer at this tick.\<close>

lemma GetBlockInfoByNumber_uncached:
  "GetBlockInfoByNumber E n False p h s =
     (case rpc_getBlockByNumber E (tick s) (numString E n) of
        Inl e \<Rightarrow> (Inl (RPCFailure e), ticked s)
      | Inr b \<Rightarrow>
          (let obi = hashes_ToBlockInfo b (cfg_IncludeLogsBloom (conf s)) in
           (Inr obi, case obi of None \<Rightarrow> ticked s | Some bi \<Rightarrow> addToBlockCache E bi (ticked s))))"
  by (simp add: GetBlockInfoByNumber_def queryBlockByNumber_def Let_def
      GetEVMBlockWithTxHashesByNumber_def same_chainD(1) addToBlockCache_def ticked_def
      split: sum.split option.split)

lemma GetBlockInfoByNumber_uncached_tick:
  "GetBlockInfoByNumber E n False p h s = (r, s') \<Longrightarrow> tick s' = Suc (tick s)"
  by (auto simp: GetBlockInfoByNumber_uncached Let_def ticked_def addToBlockCache_def
      split: sum.splits option.splits)

end
