(* ===== verification/ReceiptCache.thy ===== *)
theory ReceiptCache
  imports BlockQuery
begin

text \<open>
  \<open>pkg/ethblocklistener/block_receipt_fetcher.go\<close>: the receipts of the blocks of the canonical
  chain are fetched by goroutines and cached by transaction hash. A reset purges the cache and
  advances its generation; a fetch carries the generation it started under, and stores nothing
  when the generation has moved on.

  A goroutine is an entry of \<open>asyncRequests\<close> from its start (\<open>FetchBlockReceiptsAsync\<close>) until
  it runs (\<open>completeFetch\<close>). It may run at any later point, which is what the
  runs of \<open>ReceiptGenerations\<close> range over. The throttle channel only delays the start.
\<close>

section \<open>The cache\<close>

definition resetReceiptCache ::
  "('bc, 'rc) env \<Rightarrow> ('bc, 'rc) blockListener \<Rightarrow> ('bc, 'rc) blockListener" where
  "resetReceiptCache E s =
     (case txReceiptCache s of
        None \<Rightarrow> s
      | Some c \<Rightarrow> s\<lparr>txReceiptCache := Some (lru_Purge (receiptLru E) c),
                     txReceiptCacheGeneration := txReceiptCacheGeneration s + 1\<rparr>)"

definition getReceiptCacheGeneration :: "('bc, 'rc) blockListener \<Rightarrow> u64" where
  "getReceiptCacheGeneration s = txReceiptCacheGeneration s"

text \<open>A receipt with a nil transaction hash is skipped, as is a nil receipt.\<close>

fun addReceipts ::
  "('bc, 'rc) env \<Rightarrow> TxReceiptJSONRPC option list \<Rightarrow> 'rc \<Rightarrow> 'rc" where
  "addReceipts E [] c = c"
| "addReceipts E (None # rs) c = addReceipts E rs c"
| "addReceipts E (Some r # rs) c =
     addReceipts E rs
       (if rc_TransactionHash r \<noteq> None
        then lru_Add (receiptLru E) (hashString E (rc_TransactionHash r)) r c else c)"

definition storeReceiptsInCache ::
  "('bc, 'rc) env \<Rightarrow> TxReceiptJSONRPC option list \<Rightarrow> u64 \<Rightarrow>
   ('bc, 'rc) blockListener \<Rightarrow> ('bc, 'rc) blockListener" where
  "storeReceiptsInCache E receipts generation s =
     (case txReceiptCache s of
        None \<Rightarrow> s
      | Some c \<Rightarrow>
          if generation \<noteq> txReceiptCacheGeneration s then s
          else s\<lparr>txReceiptCache := Some (addReceipts E receipts c)\<rparr>)"

section \<open>Starting a fetch\<close>

definition FetchBlockReceiptsAsync ::
  "u64 \<Rightarrow> hexbytes \<Rightarrow> u64 \<Rightarrow> ('bc, 'rc) blockListener \<Rightarrow> ('bc, 'rc) blockListener" where
  "FetchBlockReceiptsAsync blockNumber blockHash generation s =
     s\<lparr>asyncRequests := asyncRequests s @
         [\<lparr>rq_blockNumber = blockNumber, rq_blockHash = blockHash,
           rq_generation = generation\<rparr>]\<rparr>"

definition fetchAndCacheBlockReceipts ::
  "BlockInfoJSONRPC \<Rightarrow> ('bc, 'rc) blockListener \<Rightarrow> ('bc, 'rc) blockListener" where
  "fetchAndCacheBlockReceipts bi s =
     (if txReceiptCache s = None then s
      else FetchBlockReceiptsAsync (bi_Number bi) (bi_Hash bi) (getReceiptCacheGeneration s) s)"

definition refetchReceiptsForCanonicalChain ::
  "('bc, 'rc) blockListener \<Rightarrow> ('bc, 'rc) blockListener" where
  "refetchReceiptsForCanonicalChain s =
     (if txReceiptCache s = None then s
      else fold fetchAndCacheBlockReceipts (chainBlocks s) s)"

section \<open>Running a fetch\<close>

text \<open>The check of the hash of every receipt: the first one that differs ends it. A nil receipt is
  dereferenced only when a hash is expected, and the panic is recovered as an error.\<close>

fun checkBlockHashes :: "u64 \<Rightarrow> hexbytes \<Rightarrow> TxReceiptJSONRPC option list \<Rightarrow> failure option" where
  "checkBlockHashes n h [] = None"
| "checkBlockHashes n h (r # rs) =
     (if h = None then checkBlockHashes n h rs
      else case r of
             None \<Rightarrow> Some (MsgObservedPanic PanicNilDereference)
           | Some rc \<Rightarrow>
               if \<not> hexEquals (rc_BlockHash rc) h
               then Some (MsgReturnedBlockHashMismatch n (rc_BlockHash rc) h)
               else checkBlockHashes n h rs)"

text \<open>The other branch asks for the receipt of each transaction of the block, until one fails.\<close>

fun eachReceipt ::
  "('bc, 'rc) env \<Rightarrow> hexbytes list \<Rightarrow> ('bc, 'rc) blockListener \<Rightarrow>
   TxReceiptJSONRPC option list result \<times> ('bc, 'rc) blockListener" where
  "eachReceipt E [] s = (Inr [], s)"
| "eachReceipt E (h # hs) s =
     (case GetTransactionReceipt E (hashString E h) s of
        (Inl e, s1) \<Rightarrow> (Inl e, s1)
      | (Inr r, s1) \<Rightarrow>
          (case eachReceipt E hs s1 of
             (Inl e, s2) \<Rightarrow> (Inl e, s2)
           | (Inr rs, s2) \<Rightarrow> (Inr (r # rs), s2)))"

definition runRequest ::
  "('bc, 'rc) env \<Rightarrow> blockReceiptRequest \<Rightarrow> ('bc, 'rc) blockListener \<Rightarrow>
   TxReceiptJSONRPC option list result \<times> ('bc, 'rc) blockListener" where
  "runRequest E brr s =
     (if cfg_UseGetBlockReceipts (conf s) then
        (case rpc_getBlockReceipts E (tick s) (rq_blockNumber brr) of
           Inl e \<Rightarrow> (Inl (RPCFailure e), ticked s)
         | Inr None \<Rightarrow> (Inl MsgBlockNotAvailable, ticked s)
         | Inr (Some receipts) \<Rightarrow>
             (case checkBlockHashes (rq_blockNumber brr) (rq_blockHash brr) receipts of
                Some e \<Rightarrow> (Inl e, ticked s)
              | None \<Rightarrow> (Inr receipts, ticked s)))
      else
        (case GetBlockInfoByHash E (hashString E (rq_blockHash brr)) s of
           (Inl e, s1) \<Rightarrow> (Inl e, s1)
         | (Inr None, s1) \<Rightarrow> (Inl MsgBlockNotAvailable, s1)
         | (Inr (Some bi), s1) \<Rightarrow> eachReceipt E (bi_Transactions bi) s1))"

text \<open>The goroutine of a request, with the callback of \<open>fetchAndCacheBlockReceipts\<close>.\<close>

definition completeFetch ::
  "('bc, 'rc) env \<Rightarrow> blockReceiptRequest \<Rightarrow> ('bc, 'rc) blockListener \<Rightarrow>
   ('bc, 'rc) blockListener" where
  "completeFetch E brr s =
     (case runRequest E brr (s\<lparr>asyncRequests := remove1 brr (asyncRequests s)\<rparr>) of
        (Inl e, s1) \<Rightarrow> s1
      | (Inr receipts, s1) \<Rightarrow> storeReceiptsInCache E receipts (rq_generation brr) s1)"

section \<open>Frames\<close>

lemma resetReceiptCache_same [simp, intro]: "same_chain s (resetReceiptCache E s)"
  by (simp add: same_chain_def resetReceiptCache_def split: option.split)

lemma fetchAndCacheBlockReceipts_same [simp, intro]:
  "same_chain s (fetchAndCacheBlockReceipts b s)"
  by (simp add: same_chain_def fetchAndCacheBlockReceipts_def FetchBlockReceiptsAsync_def)

lemma fold_fetch_same: "same_chain s (fold fetchAndCacheBlockReceipts bs s)"
  by (induction bs arbitrary: s) (auto intro: same_chain_trans)

lemma refetchReceipts_same [simp, intro]: "same_chain s (refetchReceiptsForCanonicalChain s)"
  by (simp add: refetchReceiptsForCanonicalChain_def fold_fetch_same)

lemma storeReceiptsInCache_same [simp, intro]:
  "same_chain s (storeReceiptsInCache E rs g s)"
  by (simp add: same_chain_def storeReceiptsInCache_def split: option.split)

lemma eachReceipt_same [frame_simps]:
  "eachReceipt E hs s = (r, s') \<Longrightarrow> same_chain s s'"
proof (induction hs arbitrary: s r s')
  case Nil
  then show ?case by simp
next
  case (Cons h hs)
  obtain r1 s1 where g: "GetTransactionReceipt E (hashString E h) s = (r1, s1)" by fastforce
  then have "same_chain s s1" by (rule GetTransactionReceipt_same)
  moreover have "s' = s1 \<or> (\<exists>r2. eachReceipt E hs s1 = (r2, s'))"
    using Cons.prems g by (auto split: sum.splits prod.splits)
  ultimately show ?case using Cons.IH same_chain_trans by blast
qed

lemma runRequest_same [frame_simps]:
  assumes "runRequest E brr s = (r, s')"
  shows "same_chain s s'"
proof (cases "cfg_UseGetBlockReceipts (conf s)")
  case True
  with assms show ?thesis by (auto simp: runRequest_def split: sum.splits option.splits)
next
  case False
  obtain r1 s1 where g: "GetBlockInfoByHash E (hashString E (rq_blockHash brr)) s = (r1, s1)"
    by fastforce
  then have "same_chain s s1" by (rule GetBlockInfoByHash_same)
  with assms False g show ?thesis
    by (auto simp: runRequest_def split: sum.splits option.splits
        dest!: eachReceipt_same intro: same_chain_trans)
qed

lemma completeFetch_same: "same_chain s (completeFetch E brr s)"
proof -
  let ?s = "s\<lparr>asyncRequests := remove1 brr (asyncRequests s)\<rparr>"
  obtain r s1 where r: "runRequest E brr ?s = (r, s1)" by fastforce
  then have "same_chain ?s s1" by (rule runRequest_same)
  moreover have "same_chain s ?s" by (simp add: same_chain_def)
  ultimately have "same_chain s s1" by (rule same_chain_trans [rotated])
  with r show ?thesis
    by (auto simp: completeFetch_def split: sum.splits intro: same_chain_trans)
qed

section \<open>Generations\<close>

text \<open>What a lookup of the cache finds.\<close>

definition cachedReceipt ::
  "('bc, 'rc) env \<Rightarrow> ('bc, 'rc) blockListener \<Rightarrow> string \<Rightarrow> TxReceiptJSONRPC option" where
  "cachedReceipt E s k =
     (case txReceiptCache s of None \<Rightarrow> None | Some c \<Rightarrow> fst (lru_Get (receiptLru E) k c))"

lemma getCachedTransactionReceipt_fst:
  "fst (getCachedTransactionReceipt E k s) = cachedReceipt E s k"
  by (simp add: getCachedTransactionReceipt_def cachedReceipt_def split: option.split prod.split)

lemma getCachedTransactionReceipt_keeps:
  assumes "lru_lawful (receiptLru E)"
  shows "cachedReceipt E (snd (getCachedTransactionReceipt E k' s)) k = cachedReceipt E s k"
  using lru_lawfulD(3) [OF assms]
  by (simp add: getCachedTransactionReceipt_def cachedReceipt_def split: option.split prod.split)
     (metis snd_conv)

lemma reset_empties:
  "lru_lawful (receiptLru E) \<Longrightarrow> cachedReceipt E (resetReceiptCache E s) k = None"
  by (simp add: cachedReceipt_def resetReceiptCache_def lru_lawfulD(4) split: option.split)

lemma addReceipts_finds:
  assumes L: "lru_lawful (receiptLru E)"
  shows "fst (lru_Get (receiptLru E) k (addReceipts E rs c)) = Some r \<Longrightarrow>
     fst (lru_Get (receiptLru E) k c) = Some r \<or> Some r \<in> set rs"
proof (induction rs arbitrary: c)
  case Nil
  then show ?case by simp
next
  case (Cons x rs)
  show ?case
  proof (cases x)
    case None
    with Cons show ?thesis by auto
  next
    case (Some y)
    let ?k = "hashString E (rc_TransactionHash y)"
    let ?c = "if rc_TransactionHash y \<noteq> None then lru_Add (receiptLru E) ?k y c else c"
    have "fst (lru_Get (receiptLru E) k ?c) = Some r \<or> Some r \<in> set rs"
      using Cons.IH [of ?c] Cons.prems Some by simp
    then show ?thesis
    proof
      assume h: "fst (lru_Get (receiptLru E) k ?c) = Some r"
      show ?thesis
      proof (cases "rc_TransactionHash y = None")
        case True
        with h show ?thesis by simp
      next
        case False
        with h have h': "fst (lru_Get (receiptLru E) k (lru_Add (receiptLru E) ?k y c)) = Some r"
          by simp
        show ?thesis
        proof (cases "k = ?k")
          case True
          with h' lru_lawfulD(1) [OF L] Some show ?thesis by auto
        next
          case False
          from lru_lawfulD(2) [OF L False, of y c] h' show ?thesis by auto
        qed
      qed
    qed simp
  qed
qed

lemma storeReceipts_stale:
  "g \<noteq> txReceiptCacheGeneration s \<Longrightarrow> storeReceiptsInCache E rs g s = s"
  by (simp add: storeReceiptsInCache_def split: option.split)

lemma reset_funpow_generation:
  "txReceiptCache s \<noteq> None \<Longrightarrow>
     txReceiptCache ((resetReceiptCache E ^^ n) s) \<noteq> None \<and>
     txReceiptCacheGeneration ((resetReceiptCache E ^^ n) s) =
       txReceiptCacheGeneration s + of_nat n"
  by (induction n) (auto simp: resetReceiptCache_def split: option.splits)

end
