(* ===== verification/CanonicalChain.thy ===== *)
theory CanonicalChain
  imports ReceiptCache
begin

text \<open>
  The canonical chain of \<open>pkg/ethblocklistener/blocklistener.go\<close>: how a block that was
  advertised is placed in the in-memory view of the head of the chain (\<open>reconcileCanonicalChain\<close>,
  \<open>handleNewBlock\<close>), and how the view is rebuilt from the node when the block does not fit
  (\<open>trimToLastValidBlock\<close>, \<open>rebuildCanonicalChain\<close>).

  The loop of \<open>rebuildCanonicalChain\<close> runs until the node has no further block, so it need not
  end: \<open>rebuildLoop\<close> is a partial function, \<open>None\<close> means that it does not return, and the
  operations that call it return an option too.
\<close>

section \<open>\<open>container/list\<close>\<close>

definition list_PushBack ::
  "BlockInfoJSONRPC \<Rightarrow> ('bc, 'rc) blockListener \<Rightarrow> elem \<times> ('bc, 'rc) blockListener" where
  "list_PushBack b s =
     (let e = \<lparr>el_id = nextElem s, el_val = b\<rparr> in
      (e, s\<lparr>canonicalChain := canonicalChain s @ [e], nextElem := Suc (nextElem s)\<rparr>))"

definition upToElem :: "elem \<Rightarrow> elem list \<Rightarrow> elem list" where
  "upToElem e ch = takeWhile (\<lambda>x. el_id x \<noteq> el_id e) ch @
                   take 1 (dropWhile (\<lambda>x. el_id x \<noteq> el_id e) ch)"

definition afterElem :: "elem \<Rightarrow> elem list \<Rightarrow> elem list" where
  "afterElem e ch = drop 1 (dropWhile (\<lambda>x. el_id x \<noteq> el_id e) ch)"

definition list_InsertAfter ::
  "BlockInfoJSONRPC \<Rightarrow> elem \<Rightarrow> ('bc, 'rc) blockListener \<Rightarrow> elem \<times> ('bc, 'rc) blockListener" where
  "list_InsertAfter b mark s =
     (let e = \<lparr>el_id = nextElem s, el_val = b\<rparr> in
      (e, s\<lparr>canonicalChain := upToElem mark (canonicalChain s) @ e #
                              afterElem mark (canonicalChain s),
            nextElem := Suc (nextElem s)\<rparr>))"

definition list_Init :: "('bc, 'rc) blockListener \<Rightarrow> ('bc, 'rc) blockListener" where
  "list_Init s = s\<lparr>canonicalChain := [], orphaned := canonicalChain s # orphaned s\<rparr>"

text \<open>The loops that remove every element after one.\<close>

definition removeAfter :: "elem \<Rightarrow> ('bc, 'rc) blockListener \<Rightarrow> ('bc, 'rc) blockListener" where
  "removeAfter e s = s\<lparr>canonicalChain := upToElem e (canonicalChain s)\<rparr>"

text \<open>The elements that \<open>Next\<close> leads to from an element, with the element itself: in the list, in
  a list that \<open>Init\<close> dropped, or none when the element was removed.\<close>

definition elementsFrom :: "('bc, 'rc) blockListener \<Rightarrow> elem \<Rightarrow> elem list" where
  "elementsFrom s e =
     (case filter (\<lambda>l. el_id e \<in> el_id ` set l) (canonicalChain s # orphaned s) of
        [] \<Rightarrow> [e]
      | l # _ \<Rightarrow> dropWhile (\<lambda>x. el_id x \<noteq> el_id e) l)"

section \<open>The highest block\<close>

definition checkAndSetHighestBlock ::
  "BlockInfoJSONRPC \<Rightarrow> ('bc, 'rc) blockListener \<Rightarrow> ('bc, 'rc) blockListener" where
  "checkAndSetHighestBlock bi s =
     (let block = bi_Number bi in
      if block > highestBlock s then
        setBlockHeightMetric CanonicalBlockHeight block
          (s\<lparr>highestBlock := block, highestBlockSet := True, headBlockInfo := Some bi\<rparr>)
      else if block = highestBlock s then s\<lparr>headBlockInfo := Some bi\<rparr>
      else s)"

definition setHighestBlock :: "u64 \<Rightarrow> ('bc, 'rc) blockListener \<Rightarrow> ('bc, 'rc) blockListener" where
  "setHighestBlock block s =
     setBlockHeightMetric CanonicalBlockHeight block
       (s\<lparr>highestBlock := block, highestBlockSet := True\<rparr>)"

definition GetBlockGasLimit :: "('bc, 'rc) blockListener \<Rightarrow> int option" where
  "GetBlockGasLimit s =
     (case headBlockInfo s of
        None \<Rightarrow> None
      | Some bi \<Rightarrow>
          (case bi_GasLimit bi of
             None \<Rightarrow> None
           | Some g \<Rightarrow> if g \<le> 0 then None else Some g))"

text \<open>Light mode: whether a reading of the head is accepted.\<close>

definition acceptHeadBlockNumber ::
  "u64 \<Rightarrow> ('bc, 'rc) blockListener \<Rightarrow> bool \<times> ('bc, 'rc) blockListener" where
  "acceptHeadBlockNumber head s =
     (let current = currentChainHead s in
      if head = current then (False, s)
      else if head < current \<and> current - head \<le> monitoredHeadLength s
           then (False, incLightModeDriftMetric ''head_behind'' s)
      else (True, setBlockHeightMetric CanonicalBlockHeight head
                    (s\<lparr>currentChainHead := head, highestBlock := head, highestBlockSet := True\<rparr>)))"

definition GetHeadBlockNumber :: "('bc, 'rc) blockListener \<Rightarrow> u64" where
  "GetHeadBlockNumber s = currentChainHead s"

definition SnapshotMonitoredHeadChain :: "('bc, 'rc) blockListener \<Rightarrow> BlockInfoJSONRPC list" where
  "SnapshotMonitoredHeadChain s = map el_val (canonicalChain s)"

section \<open>Rebuilding\<close>

text \<open>A query by number under \<open>retry.Do\<close>, with a closure that always asks for a retry.\<close>

definition retriedBlockQuery ::
  "('bc, 'rc) env \<Rightarrow> u64 \<Rightarrow> ('bc, 'rc) blockListener \<Rightarrow>
   BlockInfoJSONRPC option result \<times> ('bc, 'rc) blockListener" where
  "retriedBlockQuery E n s =
     retryDo (retryRuns E (tick s))
       (\<lambda>s. case GetBlockInfoByNumber E n False '''' '''' s of (r, s') \<Rightarrow> ((True, r), s')) s"

text \<open>The walk back from the last element; the list holds the elements not yet visited, last
  first.\<close>

fun trimLoop ::
  "('bc, 'rc) env \<Rightarrow> elem list \<Rightarrow> ('bc, 'rc) blockListener \<Rightarrow>
   BlockInfoJSONRPC option \<times> ('bc, 'rc) blockListener" where
  "trimLoop E [] s = (None, s)"
| "trimLoop E (lastElem # prevs) s =
     (case retriedBlockQuery E (bi_Number (el_val lastElem)) s of
        (Inl e, s1) \<Rightarrow> (None, s1)
      | (Inr None, s1) \<Rightarrow> trimLoop E prevs s1
      | (Inr (Some freshBlockInfo), s1) \<Rightarrow>
          if hexEquals (bi_Hash freshBlockInfo) (bi_Hash (el_val lastElem))
          then (Some (el_val lastElem), removeAfter lastElem s1)
          else trimLoop E prevs s1)"

definition trimToLastValidBlock ::
  "('bc, 'rc) env \<Rightarrow> ('bc, 'rc) blockListener \<Rightarrow>
   BlockInfoJSONRPC option \<times> ('bc, 'rc) blockListener" where
  "trimToLastValidBlock E s = trimLoop E (rev (canonicalChain s)) s"

text \<open>One pass of the loop of \<open>rebuildCanonicalChain\<close>: it ends with a position, or goes on with
  the hash the next block must have as its parent.\<close>

definition rebuildStep ::
  "('bc, 'rc) env \<Rightarrow> u64 \<Rightarrow> hexbytes \<Rightarrow> elem option \<Rightarrow> ('bc, 'rc) blockListener \<Rightarrow>
   (elem option \<times> ('bc, 'rc) blockListener) +
   (hexbytes \<times> elem option \<times> ('bc, 'rc) blockListener)" where
  "rebuildStep E nextBlockNumber expectedParentHash notifyPos s =
     (case retriedBlockQuery E nextBlockNumber s of
        (Inl e, s1) \<Rightarrow> Inl (None, s1)
      | (Inr None, s1) \<Rightarrow> Inl (notifyPos, s1)
      | (Inr (Some bi), s1) \<Rightarrow>
          if expectedParentHash \<noteq> None \<and> \<not> hexEquals (bi_ParentHash bi) expectedParentHash
          then Inl (notifyPos, s1)
          else (case list_PushBack bi s1 of
                  (newElem, s2) \<Rightarrow>
                    Inr (bi_Hash bi,
                         (if notifyPos = None then Some newElem else notifyPos),
                         fetchAndCacheBlockReceipts bi (checkAndSetHighestBlock bi s2))))"

partial_function (option) rebuildLoop ::
  "('bc, 'rc) env \<Rightarrow> u64 \<Rightarrow> hexbytes \<Rightarrow> elem option \<Rightarrow> ('bc, 'rc) blockListener \<Rightarrow>
   (elem option \<times> ('bc, 'rc) blockListener) option" where
  "rebuildLoop E nextBlockNumber expectedParentHash notifyPos s =
     (case rebuildStep E nextBlockNumber expectedParentHash notifyPos s of
        Inl r \<Rightarrow> Some r
      | Inr c \<Rightarrow> rebuildLoop E (nextBlockNumber + 1) (fst c) (fst (snd c)) (snd (snd c)))"

definition rebuildCanonicalChain ::
  "('bc, 'rc) env \<Rightarrow> ('bc, 'rc) blockListener \<Rightarrow>
   (elem option \<times> ('bc, 'rc) blockListener) option" where
  "rebuildCanonicalChain E s =
     (case trimToLastValidBlock E (resetReceiptCache E s) of
        (lastValidBlock, s1) \<Rightarrow>
          let s2 = refetchReceiptsForCanonicalChain s1 in
          (case lastValidBlock of
             Some b \<Rightarrow> rebuildLoop E (bi_Number b + 1) (bi_Hash b) None s2
           | None \<Rightarrow>
               (case canonicalChain s2 of
                  [] \<Rightarrow> Some (None, s2)
                | firstBlock # _ \<Rightarrow>
                    rebuildLoop E (bi_Number (el_val firstBlock)) None None (list_Init s2))))"

section \<open>Adding a block\<close>

text \<open>Trimming the history at the front to the monitored length.\<close>

definition trimToMonitoredHead :: "('bc, 'rc) blockListener \<Rightarrow> ('bc, 'rc) blockListener" where
  "trimToMonitoredHead s =
     s\<lparr>canonicalChain :=
         drop (length (canonicalChain s) - nat (cfg_MonitoredHeadLength (conf s)))
              (canonicalChain s)\<rparr>"

definition handleNewBlock ::
  "('bc, 'rc) env \<Rightarrow> BlockInfoJSONRPC \<Rightarrow> elem option \<Rightarrow> ('bc, 'rc) blockListener \<Rightarrow>
   (elem option \<times> ('bc, 'rc) blockListener) option" where
  "handleNewBlock E mbi addAfter s =
     (case addAfter of
        Some prev \<Rightarrow>
          if bi_Number (el_val prev) \<noteq> bi_Number mbi - 1 \<or>
             \<not> hexEquals (bi_Hash (el_val prev)) (bi_ParentHash mbi)
          then rebuildCanonicalChain E s
          else (case list_InsertAfter mbi prev s of
                  (newElem, s1) \<Rightarrow>
                    let forkTrim = afterElem newElem (canonicalChain s1) \<noteq> [];
                        s2 = trimToMonitoredHead (removeAfter newElem s1);
                        s3 = (if forkTrim then resetReceiptCache E s2 else s2)
                    in Some (Some newElem, fetchAndCacheBlockReceipts mbi s3))
      | None \<Rightarrow>
          (case list_PushBack mbi (list_Init (resetReceiptCache E s)) of
             (newElem, s1) \<Rightarrow>
               Some (Some newElem, fetchAndCacheBlockReceipts mbi (trimToMonitoredHead s1))))"

text \<open>The search for the position of a block, from the back of the list.\<close>

fun reconcileLoop ::
  "('bc, 'rc) env \<Rightarrow> BlockInfoJSONRPC \<Rightarrow> elem list \<Rightarrow> ('bc, 'rc) blockListener \<Rightarrow>
   (elem option \<times> ('bc, 'rc) blockListener) option" where
  "reconcileLoop E bi [] s = handleNewBlock E bi None s"
| "reconcileLoop E bi (pos # prevs) s =
     (if bi_Equal (el_val pos) bi then Some (None, s)
      else if bi_Number (el_val pos) = bi_Number bi
      then handleNewBlock E bi (case prevs of [] \<Rightarrow> None | p # _ \<Rightarrow> Some p) s
      else if bi_Number (el_val pos) < bi_Number bi
      then handleNewBlock E bi (Some pos) s
      else reconcileLoop E bi prevs s)"

definition reconcileCanonicalChain ::
  "('bc, 'rc) env \<Rightarrow> BlockInfoJSONRPC \<Rightarrow> ('bc, 'rc) blockListener \<Rightarrow>
   (elem option \<times> ('bc, 'rc) blockListener) option" where
  "reconcileCanonicalChain E bi s =
     (let s1 = checkAndSetHighestBlock bi s in
      reconcileLoop E bi (rev (canonicalChain s1)) s1)"

end
