(* ===== verification/ChainInvariant.thy ===== *)
theory ChainInvariant
  imports CanonicalChain
begin

text \<open>
  Invariants of the canonical chain: the elements of the list are distinct, each block is the parent
  of the next one, and the highest block never goes back. The blocks of a rebuild come from the
  node, so the facts about a rebuild assume what \<open>eth_getBlockByNumber\<close> documents: the answer has
  the requested number and a hash (\<open>node_answers\<close>).
\<close>

section \<open>Elements\<close>

definition ids_ok :: "('bc, 'rc) blockListener \<Rightarrow> bool" where
  "ids_ok s \<longleftrightarrow>
     distinct (map el_id (canonicalChain s)) \<and>
     (\<forall>e \<in> set (canonicalChain s). el_id e < nextElem s)"

lemma upToElem_split:
  assumes "distinct (map el_id ch)" and "ch = xs @ e # ys"
  shows "upToElem e ch = xs @ [e]" and "afterElem e ch = ys"
proof -
  have "\<forall>x \<in> set xs. el_id x \<noteq> el_id e"
    using assms by auto (metis imageI)
  then have "takeWhile (\<lambda>x. el_id x \<noteq> el_id e) ch = xs"
    and "dropWhile (\<lambda>x. el_id x \<noteq> el_id e) ch = e # ys"
    using assms(2) by simp_all
  then show "upToElem e ch = xs @ [e]" and "afterElem e ch = ys"
    by (simp_all add: upToElem_def afterElem_def)
qed

lemma upToElem_prefix: "\<exists>zs. ch = upToElem e ch @ zs"
proof -
  have "ch = takeWhile (\<lambda>x. el_id x \<noteq> el_id e) ch @ take 1 (dropWhile (\<lambda>x. el_id x \<noteq> el_id e) ch) @
             drop 1 (dropWhile (\<lambda>x. el_id x \<noteq> el_id e) ch)"
    by (metis append_take_drop_id takeWhile_dropWhile_id)
  then show ?thesis by (metis append_assoc upToElem_def)
qed

lemma upToElem_after: "ch = upToElem e ch @ afterElem e ch"
  unfolding upToElem_def afterElem_def
  by (metis append_assoc append_take_drop_id takeWhile_dropWhile_id)

lemma upToElem_last:
  assumes "distinct (map el_id ch)" and "e \<in> set ch"
  shows "upToElem e ch \<noteq> []" and "last (upToElem e ch) = e"
proof -
  from assms(2) obtain xs ys where "ch = xs @ e # ys" by (meson split_list)
  with assms(1) show "upToElem e ch \<noteq> []" and "last (upToElem e ch) = e"
    by (simp_all add: upToElem_split)
qed

section \<open>The invariant\<close>

definition has_hashes :: "('bc, 'rc) blockListener \<Rightarrow> bool" where
  "has_hashes s \<longleftrightarrow> (\<forall>e \<in> set (canonicalChain s). bi_Hash (el_val e) \<noteq> None)"

definition chain_ok :: "('bc, 'rc) blockListener \<Rightarrow> bool" where
  "chain_ok s \<longleftrightarrow> ids_ok s \<and> linked (chainBlocks s) \<and> has_hashes s"

lemma chain_okI:
  "ids_ok s \<Longrightarrow> linked (chainBlocks s) \<Longrightarrow> has_hashes s \<Longrightarrow> chain_ok s"
  by (simp add: chain_ok_def)

lemma chain_ok_same:
  "same_chain s s' \<Longrightarrow> chain_ok s \<Longrightarrow> chain_ok s'"
  by (simp add: chain_ok_def ids_ok_def has_hashes_def chainBlocks_def same_chainD)

definition node_answers :: "('bc, 'rc) env \<Rightarrow> bool" where
  "node_answers E \<longleftrightarrow>
     (\<forall>t n b. rpc_getBlockByNumber E t (numString E n) = Inr (Some b) \<longrightarrow>
        bh_Number (ebh_Header b) = n \<and> bh_Hash (ebh_Header b) \<noteq> None)"

lemma retriedBlockQuery_same [frame_simps]:
  assumes "retriedBlockQuery E n s = (r, s')"
  shows "same_chain s s'"
proof (rule retryDo_invariant [where I = "\<lambda>t. same_chain s t"])
  show "retryDo (retryRuns E (tick s))
      (\<lambda>s. case GetBlockInfoByNumber E n False '''' '''' s of (r, s') \<Rightarrow> ((True, r), s')) s = (r, s')"
    using assms by (simp add: retriedBlockQuery_def)
next
  fix t q t'
  assume "same_chain s t"
    and "(case GetBlockInfoByNumber E n False '''' '''' t of (r, s') \<Rightarrow> ((True, r), s')) = (q, t')"
  then show "same_chain s t'"
    by (auto split: prod.splits dest: GetBlockInfoByNumber_same intro: same_chain_trans)
qed simp

lemma GetBlockInfoByNumber_answer:
  assumes "node_answers E" and "GetBlockInfoByNumber E n False p h s = (Inr (Some bi), s')"
  shows "bi_Number bi = n \<and> bi_Hash bi \<noteq> None"
proof -
  from assms(2) obtain b where b: "rpc_getBlockByNumber E (tick s) (numString E n) = Inr (Some b)"
    and bi: "hashes_ToBlockInfo (Some b) (cfg_IncludeLogsBloom (conf s)) = Some bi"
    by (auto simp: GetBlockInfoByNumber_uncached Let_def split: sum.splits)
       (metis hashes_ToBlockInfo_None option.distinct(1) option.exhaust)
  from assms(1) b have "bh_Number (ebh_Header b) = n \<and> bh_Hash (ebh_Header b) \<noteq> None"
    by (simp add: node_answers_def)
  with hashes_ToBlockInfo_Some [OF bi] show ?thesis by simp
qed

lemma retriedBlockQuery_answer:
  assumes "node_answers E" and "retriedBlockQuery E n s = (Inr (Some bi), s')"
  shows "bi_Number bi = n \<and> bi_Hash bi \<noteq> None"
proof -
  let ?P = "\<lambda>q. \<forall>bi. q = Inr (Some bi) \<longrightarrow> bi_Number bi = n \<and> bi_Hash bi \<noteq> None"
  have "?P (Inr (Some bi) :: BlockInfoJSONRPC option result)"
    using assms(2) unfolding retriedBlockQuery_def
    by (rule retryDo_result [where P = ?P, rotated])
       (auto split: prod.splits dest: GetBlockInfoByNumber_answer [OF assms(1)])
  then show ?thesis by simp
qed

section \<open>Trimming to the last valid block\<close>

text \<open>The block that is found valid is the node's block of its number.\<close>

definition confirmedBy :: "('bc, 'rc) env \<Rightarrow> BlockInfoJSONRPC \<Rightarrow> bool" where
  "confirmedBy E b \<longleftrightarrow>
     (\<exists>s fresh s'. retriedBlockQuery E (bi_Number b) s = (Inr (Some fresh), s') \<and>
        hexEquals (bi_Hash fresh) (bi_Hash b))"

lemma trimLoop_result:
  "trimLoop E es s = (r, s') \<Longrightarrow>
     (r = None \<and> same_chain s s') \<or>
     (\<exists>e \<in> set es. r = Some (el_val e) \<and> same_chain (removeAfter e s) s' \<and>
        confirmedBy E (el_val e))"
proof (induction es arbitrary: s)
  case Nil
  then show ?case by simp
next
  case (Cons e es)
  obtain q s1 where q: "retriedBlockQuery E (bi_Number (el_val e)) s = (q, s1)" by fastforce
  then have same: "same_chain s s1" by (rule retriedBlockQuery_same)
  then have rem: "same_chain (removeAfter e s) (removeAfter e s1)" for e
    by (simp add: same_chain_def removeAfter_def)
  have IH: ?case if "trimLoop E es s1 = (r, s')"
    using Cons.IH [OF that] same rem by (auto intro: same_chain_trans)
  show ?case
    using Cons.prems q same rem [of e] IH
    by (auto simp: confirmedBy_def split: sum.splits option.splits if_splits)
qed

lemma trimToLastValidBlock_result:
  assumes "trimToLastValidBlock E s = (r, s')"
  obtains "r = None" "same_chain s s'"
  | e where "e \<in> set (canonicalChain s)" "r = Some (el_val e)" "same_chain (removeAfter e s) s'"
      "confirmedBy E (el_val e)"
  using assms trimLoop_result [of E "rev (canonicalChain s)" s r s']
  unfolding trimToLastValidBlock_def by auto

lemma chain_ok_prefix:
  assumes "chain_ok s" and "canonicalChain s = xs @ ys" and "canonicalChain s' = xs"
    and "nextElem s' = nextElem s"
  shows "chain_ok s'"
  using assms
  by (auto simp: chain_ok_def ids_ok_def has_hashes_def chainBlocks_def successively_append_iff)

lemma removeAfter_chain_ok: "chain_ok s \<Longrightarrow> chain_ok (removeAfter e s)"
  by (rule chain_ok_prefix [OF _ upToElem_after]) (simp_all add: removeAfter_def)

section \<open>Rebuilding\<close>

text \<open>What a rebuild, and an addition, may change: elements are added at the end of the list, and
  the highest block moves forward.\<close>

definition extends ::
  "('bc, 'rc) blockListener \<Rightarrow> elem list \<Rightarrow> ('bc, 'rc) blockListener \<Rightarrow> bool" where
  "extends s new s' \<longleftrightarrow>
     conf s' = conf s \<and> isStarted s' = isStarted s \<and> consumers s' = consumers s \<and>
     monitoredHeadLength s' = monitoredHeadLength s \<and> orphaned s' = orphaned s \<and>
     dispatched s' = dispatched s \<and> currentChainHead s' = currentChainHead s \<and>
     canonicalChain s' = canonicalChain s @ new \<and>
     nextElem s' = nextElem s + length new \<and> map el_id new = [nextElem s..<nextElem s'] \<and>
     highestBlock s \<le> highestBlock s'"

lemma extends_same: "same_chain s s' \<Longrightarrow> extends s [] s'"
  by (simp add: extends_def same_chainD)

lemma extends_trans: "extends s xs t \<Longrightarrow> extends t ys u \<Longrightarrow> extends s (xs @ ys) u"
  by (auto simp: extends_def upt_add_eq_append [symmetric])

lemma extends_same_right: "extends s xs t \<Longrightarrow> same_chain t u \<Longrightarrow> extends s xs u"
  using extends_trans [of s xs t "[]" u] by (simp add: extends_same)

lemma extends_same_left: "same_chain s t \<Longrightarrow> extends t xs u \<Longrightarrow> extends s xs u"
  using extends_trans [of s "[]" t xs u] by (simp add: extends_same)

lemma checkAndSetHighestBlock_extends: "extends s [] (checkAndSetHighestBlock bi s)"
  by (auto simp: extends_def checkAndSetHighestBlock_def setBlockHeightMetric_def Let_def
      split: option.split)

lemma list_PushBack_extends:
  "list_PushBack b s = (e, s') \<Longrightarrow>
     e = \<lparr>el_id = nextElem s, el_val = b\<rparr> \<and> extends s [e] s'"
  by (auto simp: list_PushBack_def Let_def extends_def)

lemma rebuildStep_done:
  "rebuildStep E n ph np s = Inl (r, s') \<Longrightarrow> same_chain s s' \<and> (r = None \<or> r = np)"
  by (auto simp: rebuildStep_def split: prod.splits sum.splits option.splits if_splits
      dest!: retriedBlockQuery_same)

lemma rebuildStep_next:
  assumes "rebuildStep E n ph np s = Inr (h, np', s')"
  obtains bi s0 e where "retriedBlockQuery E n s = (Inr (Some bi), s0)"
    "ph = None \<or> hexEquals (bi_ParentHash bi) ph"
    "e = \<lparr>el_id = nextElem s, el_val = bi\<rparr>" "extends s [e] s'" "h = bi_Hash bi"
    "np' = (if np = None then Some e else np)"
proof -
  from assms obtain bi s0 where q: "retriedBlockQuery E n s = (Inr (Some bi), s0)"
    and ph: "ph = None \<or> hexEquals (bi_ParentHash bi) ph"
    by (auto simp: rebuildStep_def split: prod.splits sum.splits option.splits if_splits)
  obtain e s1 where push: "list_PushBack bi s0 = (e, s1)" by fastforce
  have s': "s' = fetchAndCacheBlockReceipts bi (checkAndSetHighestBlock bi s1)"
    and np': "np' = (if np = None then Some e else np)" and h: "h = bi_Hash bi"
    using assms q ph push by (auto simp: rebuildStep_def)
  from q have same: "same_chain s s0" by (rule retriedBlockQuery_same)
  from list_PushBack_extends [OF push] have e: "e = \<lparr>el_id = nextElem s0, el_val = bi\<rparr>"
    and "extends s0 [e] s1" by auto
  then have "extends s [e] s'"
    unfolding s' using same checkAndSetHighestBlock_extends
    by (metis append_Nil2 extends_same_left extends_same_right extends_trans
        fetchAndCacheBlockReceipts_same)
  with that q ph e same np' h show thesis by (simp add: same_chainD)
qed

lemma rebuildLoop_extends:
  assumes "rebuildLoop E n ph np s = Some (r, s')"
  shows "\<exists>new. extends s new s' \<and>
     (r = None \<or> r = (case np of Some e \<Rightarrow> Some e
                       | None \<Rightarrow> (case new of [] \<Rightarrow> None | e # _ \<Rightarrow> Some e)))"
proof -
  let ?P = "\<lambda>E n ph np s rs. \<exists>new. extends s new (snd rs) \<and>
     (fst rs = None \<or> fst rs = (case np of Some e \<Rightarrow> Some e
                       | None \<Rightarrow> (case new of [] \<Rightarrow> None | e # _ \<Rightarrow> Some e)))"
  have "?P E n ph np s (r, s')"
  proof (rule rebuildLoop.raw_induct [where P = ?P, OF _ assms])
    fix f :: "('a, 'b) env \<Rightarrow> u64 \<Rightarrow> hexbytes \<Rightarrow> elem option \<Rightarrow> ('a, 'b) blockListener \<Rightarrow>
        (elem option \<times> ('a, 'b) blockListener) option"
      and E n ph np s rs
    assume IH: "\<And>E n ph np s rs. f E n ph np s = Some rs \<Longrightarrow> ?P E n ph np s rs"
      and eq: "(case rebuildStep E n ph np s of Inl r \<Rightarrow> Some r
                | Inr c \<Rightarrow> f E (n + 1) (fst c) (fst (snd c)) (snd (snd c))) = Some rs"
    show "?P E n ph np s rs"
    proof (cases "rebuildStep E n ph np s")
      case (Inl x)
      with eq have "rebuildStep E n ph np s = Inl (fst rs, snd rs)" by simp
      from rebuildStep_done [OF this] show ?thesis
        by (intro exI [of _ "[]"]) (auto simp: extends_same split: option.split)
    next
      case (Inr c)
      obtain h np' t where c: "c = (h, np', t)" by (metis surj_pair)
      with Inr have "rebuildStep E n ph np s = Inr (h, np', t)" by simp
      then obtain e where e: "extends s [e] t" "np' = (if np = None then Some e else np)"
        by (rule rebuildStep_next) blast
      from eq Inr c have "f E (n + 1) h np' t = Some rs" by simp
      from IH [OF this] obtain new where "extends t new (snd rs)"
        and r: "fst rs = None \<or> fst rs = (case np' of Some e \<Rightarrow> Some e
                       | None \<Rightarrow> (case new of [] \<Rightarrow> None | e # _ \<Rightarrow> Some e))" by blast
      with e(1) have "extends s ([e] @ new) (snd rs)" by (blast intro: extends_trans)
      with r e(2) show ?thesis
        by (intro exI [of _ "[e] @ new"]) (auto split: option.splits)
    qed
  qed
  then show ?thesis by simp
qed

text \<open>The blocks a rebuild adds are linked to the last block, and to each other.\<close>

definition rebuild_inv :: "u64 \<Rightarrow> hexbytes \<Rightarrow> ('bc, 'rc) blockListener \<Rightarrow> bool" where
  "rebuild_inv n ph s \<longleftrightarrow>
     chain_ok s \<and>
     (canonicalChain s \<noteq> [] \<longrightarrow>
        bi_Number (el_val (last (canonicalChain s))) + 1 = n \<and>
        ph = bi_Hash (el_val (last (canonicalChain s))))"

lemma extends_one_chain_ok:
  assumes "chain_ok s" and "extends s [\<lparr>el_id = i, el_val = b\<rparr>] s'" and "bi_Hash b \<noteq> None"
    and "canonicalChain s \<noteq> [] \<Longrightarrow> bi_IsParentOf (el_val (last (canonicalChain s))) b"
  shows "chain_ok s'"
proof (rule chain_okI)
  from assms(2) have ch: "canonicalChain s' = canonicalChain s @ [\<lparr>el_id = i, el_val = b\<rparr>]"
    and i: "i = nextElem s" "nextElem s' = Suc (nextElem s)"
    by (auto simp: extends_def)
  show "ids_ok s'" using assms(1) by (auto simp: chain_ok_def ids_ok_def ch i less_Suc_eq)
  show "has_hashes s'" using assms(1,3) by (auto simp: chain_ok_def has_hashes_def ch)
  show "linked (chainBlocks s')" using assms(1,4)
    by (auto simp: chain_ok_def chainBlocks_def ch successively_snoc last_map)
qed

lemma rebuildStep_inv:
  assumes "node_answers E" and "rebuild_inv n ph s" and "rebuildStep E n ph np s = Inr (h, np', s')"
  shows "rebuild_inv (n + 1) h s'"
proof -
  from assms(3) obtain bi s0 e where q: "retriedBlockQuery E n s = (Inr (Some bi), s0)"
    and ph: "ph = None \<or> hexEquals (bi_ParentHash bi) ph"
    and e: "e = \<lparr>el_id = nextElem s, el_val = bi\<rparr>" and ext: "extends s [e] s'"
    and h: "h = bi_Hash bi" by (rule rebuildStep_next) blast
  from retriedBlockQuery_answer [OF assms(1) q] have bi: "bi_Number bi = n" "bi_Hash bi \<noteq> None"
    by auto
  have "chain_ok s'"
  proof (rule extends_one_chain_ok [OF _ ext [unfolded e] bi(2)])
    show "chain_ok s" using assms(2) by (simp add: rebuild_inv_def)
    assume ne: "canonicalChain s \<noteq> []"
    then have "el_val (last (canonicalChain s)) \<in> el_val ` set (canonicalChain s)" by simp
    then have "bi_Hash (el_val (last (canonicalChain s))) \<noteq> None"
      using assms(2) ne by (auto simp: rebuild_inv_def chain_ok_def has_hashes_def)
    with assms(2) ne ph bi show "bi_IsParentOf (el_val (last (canonicalChain s))) bi"
      by (auto simp: rebuild_inv_def bi_IsParentOf_def intro: hexEquals_sym)
  qed
  with ext e bi h show ?thesis by (simp add: rebuild_inv_def extends_def)
qed

lemma rebuildLoop_chain_ok:
  assumes "node_answers E" and "rebuildLoop E n ph np s = Some (r, s')" and "rebuild_inv n ph s"
  shows "chain_ok s'"
proof -
  let ?P = "\<lambda>E n ph np s rs. node_answers E \<longrightarrow> rebuild_inv n ph s \<longrightarrow> chain_ok (snd rs)"
  have "?P E n ph np s (r, s')"
  proof (rule rebuildLoop.raw_induct [where P = ?P, OF _ assms(2)], intro impI)
    fix f :: "('a, 'b) env \<Rightarrow> u64 \<Rightarrow> hexbytes \<Rightarrow> elem option \<Rightarrow> ('a, 'b) blockListener \<Rightarrow>
        (elem option \<times> ('a, 'b) blockListener) option"
      and E n ph np s rs
    assume IH: "\<And>E n ph np s rs. f E n ph np s = Some rs \<Longrightarrow> ?P E n ph np s rs"
      and eq: "(case rebuildStep E n ph np s of Inl r \<Rightarrow> Some r
                | Inr c \<Rightarrow> f E (n + 1) (fst c) (fst (snd c)) (snd (snd c))) = Some rs"
      and node: "node_answers E" and inv: "rebuild_inv n ph s"
    show "chain_ok (snd rs)"
    proof (cases "rebuildStep E n ph np s")
      case (Inl x)
      with eq have "rebuildStep E n ph np s = Inl (fst rs, snd rs)" by simp
      from rebuildStep_done [OF this] inv show ?thesis
        by (auto simp: rebuild_inv_def intro: chain_ok_same)
    next
      case (Inr c)
      obtain h np' t where c: "c = (h, np', t)" by (metis surj_pair)
      with Inr node inv have "rebuild_inv (n + 1) h t" by (auto intro: rebuildStep_inv)
      moreover from eq Inr c have "f E (n + 1) h np' t = Some rs" by simp
      ultimately show ?thesis using IH node by blast
    qed
  qed
  with assms(1,3) show ?thesis by simp
qed


section \<open>Every operation keeps the chain well formed\<close>

lemma refetch_reset_same:
  "same_chain (resetReceiptCache E s) s1 \<Longrightarrow> same_chain s (refetchReceiptsForCanonicalChain s1)"
  by (meson refetchReceipts_same resetReceiptCache_same same_chain_trans)

lemma rebuildCanonicalChain_cases:
  obtains (none) t where "rebuildCanonicalChain E s = Some (None, t)" "same_chain s t"
      "canonicalChain s = []"
  | (valid) t e where "rebuildCanonicalChain E s =
        rebuildLoop E (bi_Number (el_val e) + 1) (bi_Hash (el_val e)) None t"
      "e \<in> set (canonicalChain s)" "same_chain (removeAfter e s) t" "confirmedBy E (el_val e)"
  | (all) t where "rebuildCanonicalChain E s =
        rebuildLoop E (bi_Number (el_val (hd (canonicalChain s)))) None None (list_Init t)"
      "canonicalChain s \<noteq> []" "same_chain s t"
proof -
  obtain v s1 where trim: "trimToLastValidBlock E (resetReceiptCache E s) = (v, s1)" by fastforce
  let ?s2 = "refetchReceiptsForCanonicalChain s1"
  from trim show thesis
  proof (rule trimToLastValidBlock_result)
    assume v: "v = None" and "same_chain (resetReceiptCache E s) s1"
    then have same: "same_chain s ?s2" by (simp add: refetch_reset_same)
    show thesis
    proof (cases "canonicalChain s")
      case Nil
      with trim v same show thesis
        by (intro none [of ?s2]) (auto simp: rebuildCanonicalChain_def Let_def same_chainD)
    next
      case (Cons f fs)
      with trim v same
      have "rebuildCanonicalChain E s =
          rebuildLoop E (bi_Number (el_val f)) None None (list_Init ?s2)"
        by (simp add: rebuildCanonicalChain_def Let_def same_chainD)
      with Cons same show thesis by (auto intro: all)
    qed
  next
    fix e
    assume e: "e \<in> set (canonicalChain (resetReceiptCache E s))" and v: "v = Some (el_val e)"
      and "same_chain (removeAfter e (resetReceiptCache E s)) s1" and conf: "confirmedBy E (el_val e)"
    moreover have "same_chain (removeAfter e s) (removeAfter e (resetReceiptCache E s))"
      using resetReceiptCache_same [of s E] by (simp add: same_chain_def removeAfter_def)
    ultimately have "same_chain (removeAfter e s) ?s2"
      by (meson refetchReceipts_same same_chain_trans)
    moreover have "e \<in> set (canonicalChain s)"
      using e by (simp add: same_chainD [OF resetReceiptCache_same])
    moreover have "rebuildCanonicalChain E s =
        rebuildLoop E (bi_Number (el_val e) + 1) (bi_Hash (el_val e)) None ?s2"
      using trim v by (simp add: rebuildCanonicalChain_def Let_def)
    ultimately show thesis using conf by (blast intro: valid)
  qed
qed

lemma chain_ok_Init: "chain_ok (list_Init s)"
  by (simp add: chain_ok_def ids_ok_def has_hashes_def chainBlocks_def list_Init_def)

lemma removeAfter_rebuild_inv:
  assumes "chain_ok s" and "e \<in> set (canonicalChain s)" and "same_chain (removeAfter e s) t"
  shows "rebuild_inv (bi_Number (el_val e) + 1) (bi_Hash (el_val e)) t"
proof -
  from assms(1) have d: "distinct (map el_id (canonicalChain s))"
    by (simp add: chain_ok_def ids_ok_def)
  have "canonicalChain t = upToElem e (canonicalChain s)"
    using same_chainD(2) [OF assms(3)] by (simp add: removeAfter_def)
  with upToElem_last [OF d assms(2)] have "last (canonicalChain t) = e" by simp
  with assms(1,3) show ?thesis
    by (auto simp: rebuild_inv_def intro: chain_ok_same removeAfter_chain_ok)
qed

lemma rebuildCanonicalChain_chain_ok:
  assumes "node_answers E" and "chain_ok s" and "rebuildCanonicalChain E s = Some (r, s')"
  shows "chain_ok s'"
proof (cases E s rule: rebuildCanonicalChain_cases)
  case (none t)
  with assms(2,3) show ?thesis by (auto intro: chain_ok_same)
next
  case (valid t e)
  with assms show ?thesis by (metis rebuildLoop_chain_ok removeAfter_rebuild_inv)
next
  case (all t)
  have "rebuild_inv n h (list_Init t)" for n h
    by (simp add: rebuild_inv_def chain_ok_Init) (simp add: list_Init_def)
  with all assms(1,3) show ?thesis by (metis rebuildLoop_chain_ok)
qed

lemma trimToMonitoredHead_chain_ok: "chain_ok s \<Longrightarrow> chain_ok (trimToMonitoredHead s)"
  by (auto simp: chain_ok_def ids_ok_def has_hashes_def chainBlocks_def trimToMonitoredHead_def
      drop_map [symmetric] successively_drop distinct_drop dest: in_set_dropD)

text \<open>A block added after an element: the list ends with it.\<close>

lemma insert_removeAfter_chain:
  assumes "ids_ok s" and "p \<in> set (canonicalChain s)" and "list_InsertAfter b p s = (e, s1)"
  shows "canonicalChain (removeAfter e s1) = upToElem p (canonicalChain s) @ [e]"
    and "e = \<lparr>el_id = nextElem s, el_val = b\<rparr>" and "nextElem s1 = Suc (nextElem s)"
    and "afterElem e (canonicalChain s1) = afterElem p (canonicalChain s)"
proof -
  let ?pre = "upToElem p (canonicalChain s)" and ?post = "afterElem p (canonicalChain s)"
  from assms(3) show e: "e = \<lparr>el_id = nextElem s, el_val = b\<rparr>"
    and n: "nextElem s1 = Suc (nextElem s)"
    by (auto simp: list_InsertAfter_def Let_def)
  from assms(3) e have ch: "canonicalChain s1 = ?pre @ e # ?post"
    by (auto simp: list_InsertAfter_def Let_def)
  have old: "map el_id (canonicalChain s) = map el_id ?pre @ map el_id ?post"
    using upToElem_after [of "canonicalChain s" p] by (metis map_append)
  have "\<forall>x \<in> set (canonicalChain s). el_id x \<noteq> el_id e"
    using assms(1) e by (auto simp: ids_ok_def)
  then have "el_id e \<notin> set (map el_id (canonicalChain s))" by auto
  with assms(1) old have "distinct (map el_id (canonicalChain s1))"
    by (simp add: ch ids_ok_def)
  from upToElem_split [OF this ch]
  show "canonicalChain (removeAfter e s1) = ?pre @ [e]"
    and "afterElem e (canonicalChain s1) = ?post"
    by (simp_all add: removeAfter_def)
qed

lemma handleNewBlock_extend_chain_ok:
  assumes "chain_ok s" and "p \<in> set (canonicalChain s)" and "bi_Hash b \<noteq> None"
    and "bi_IsParentOf (el_val p) b" and "list_InsertAfter b p s = (e, s1)"
  shows "chain_ok (removeAfter e s1)"
proof -
  from assms(1) have d: "distinct (map el_id (canonicalChain s))" and ids: "ids_ok s"
    by (simp_all add: chain_ok_def ids_ok_def)
  note ins = insert_removeAfter_chain [OF ids assms(2,5)]
  have "extends (removeAfter p s) [e] (removeAfter e s1)"
    using ins assms(5)
    by (auto simp: extends_def removeAfter_def list_InsertAfter_def Let_def)
  then show ?thesis
    unfolding ins(2)
    by (rule extends_one_chain_ok [OF removeAfter_chain_ok [OF assms(1)] _ assms(3)])
       (simp add: removeAfter_def upToElem_last [OF d assms(2)] assms(4))
qed

lemma handleNewBlock_chain_ok:
  assumes node: "node_answers E" and ok: "chain_ok s" and h: "bi_Hash b \<noteq> None"
    and a: "case a of None \<Rightarrow> True | Some p \<Rightarrow> p \<in> set (canonicalChain s)"
    and run: "handleNewBlock E b a s = Some (r, s')"
  shows "chain_ok s'"
proof (cases a)
  case None
  obtain e s1 where push: "list_PushBack b (list_Init (resetReceiptCache E s)) = (e, s1)"
    by fastforce
  from list_PushBack_extends [OF push] have "chain_ok s1"
    by (auto intro!: extends_one_chain_ok [OF chain_ok_Init _ h]) (simp add: list_Init_def)
  with None run push show ?thesis
    by (auto simp: handleNewBlock_def intro: chain_ok_same trimToMonitoredHead_chain_ok)
next
  case (Some p)
  show ?thesis
  proof (cases "bi_Number (el_val p) \<noteq> bi_Number b - 1 \<or>
                \<not> hexEquals (bi_Hash (el_val p)) (bi_ParentHash b)")
    case True
    with Some run have "rebuildCanonicalChain E s = Some (r, s')"
      by (simp add: handleNewBlock_def)
    with node ok show ?thesis by (rule rebuildCanonicalChain_chain_ok)
  next
    case False
    then have par: "bi_IsParentOf (el_val p) b" by (simp add: bi_IsParentOf_def)
    obtain e s1 where ins: "list_InsertAfter b p s = (e, s1)" by fastforce
    with ok a Some h par have "chain_ok (removeAfter e s1)"
      by (auto intro: handleNewBlock_extend_chain_ok)
    then have "chain_ok (trimToMonitoredHead (removeAfter e s1))"
      by (rule trimToMonitoredHead_chain_ok)
    with Some False run ins show ?thesis
      by (auto simp: handleNewBlock_def Let_def split: if_splits intro: chain_ok_same)
  qed
qed

lemma reconcileLoop_chain_ok:
  assumes "node_answers E" and "chain_ok s" and "bi_Hash b \<noteq> None"
    and "set es \<subseteq> set (canonicalChain s)" and "reconcileLoop E b es s = Some (r, s')"
  shows "chain_ok s'"
  using assms(4,5)
proof (induction es)
  case Nil
  with assms show ?case by (auto dest: handleNewBlock_chain_ok [of _ _ _ None])
next
  case (Cons pos prevs)
  from Cons assms(1-3) show ?case
    by (cases prevs)
       (auto split: if_splits intro: handleNewBlock_chain_ok [of E s b None]
          handleNewBlock_chain_ok [of E s b "Some pos"]
          handleNewBlock_chain_ok [of E s b "Some (hd prevs)"])
qed

lemma checkAndSetHighestBlock_fields:
  "canonicalChain (checkAndSetHighestBlock b s) = canonicalChain s"
  "nextElem (checkAndSetHighestBlock b s) = nextElem s"
  "conf (checkAndSetHighestBlock b s) = conf s"
  "consumers (checkAndSetHighestBlock b s) = consumers s"
  "orphaned (checkAndSetHighestBlock b s) = orphaned s"
  "highestBlock (checkAndSetHighestBlock b s) = max (highestBlock s) (bi_Number b)"
  by (auto simp: checkAndSetHighestBlock_def setBlockHeightMetric_def Let_def max_def
      split: option.split)

lemma checkAndSetHighestBlock_chain_ok: "chain_ok s \<Longrightarrow> chain_ok (checkAndSetHighestBlock b s)"
  by (simp add: chain_ok_def ids_ok_def has_hashes_def chainBlocks_def
      checkAndSetHighestBlock_fields)

lemma reconcile_keeps_chain_ok:
  assumes "node_answers E" and "chain_ok s" and "bi_Hash b \<noteq> None"
    and "reconcileCanonicalChain E b s = Some (r, s')"
  shows "chain_ok s'"
proof -
  let ?s = "checkAndSetHighestBlock b s"
  from assms(4) have "reconcileLoop E b (rev (canonicalChain ?s)) ?s = Some (r, s')"
    by (simp add: reconcileCanonicalChain_def Let_def)
  from reconcileLoop_chain_ok [OF assms(1) checkAndSetHighestBlock_chain_ok [OF assms(2)] assms(3) _ this]
  show ?thesis by simp
qed

section \<open>What is returned: the position to notify from\<close>

text \<open>After an addition the list ends with the elements that did not exist before, and the returned
  position is the first of them; the configuration does not change and the highest block does not
  go back.\<close>

definition appended ::
  "nat \<Rightarrow> elem option \<Rightarrow> ('bc, 'rc) blockListener \<Rightarrow> ('bc, 'rc) blockListener \<Rightarrow> bool" where
  "appended n r s s' \<longleftrightarrow>
     conf s' = conf s \<and> consumers s' = consumers s \<and> dispatched s' = dispatched s \<and>
     highestBlock s \<le> highestBlock s' \<and> nextElem s \<le> nextElem s' \<and>
     (\<exists>old new. canonicalChain s' = old @ new \<and> (\<forall>e \<in> set old. el_id e < n) \<and>
        map el_id new = [n..<nextElem s'] \<and>
        (case r of None \<Rightarrow> True | Some e \<Rightarrow> new \<noteq> [] \<and> e = hd new))"

lemma appended_same: "ids_ok s \<Longrightarrow> same_chain s s' \<Longrightarrow> appended (nextElem s) None s s'"
  by (auto simp: appended_def same_chainD ids_ok_def intro!: exI [of _ "canonicalChain s"])

lemma appended_extends:
  assumes "\<forall>e \<in> set (canonicalChain s). el_id e < nextElem s" and "extends s new s'"
    and "r = None \<or> (\<exists>ns. new = e # ns \<and> r = Some e)"
  shows "appended (nextElem s) r s s'"
  using assms unfolding appended_def extends_def
  by (intro conjI exI [of _ "canonicalChain s"] exI [of _ new]) auto

lemma appended_left:
  "appended n r t s' \<Longrightarrow> conf t = conf s \<Longrightarrow> consumers t = consumers s \<Longrightarrow>
   dispatched t = dispatched s \<Longrightarrow> highestBlock t = highestBlock s \<Longrightarrow> nextElem t = nextElem s \<Longrightarrow>
   appended n r s s'"
  by (simp add: appended_def)

lemma appended_right: "appended n r s t \<Longrightarrow> same_chain t u \<Longrightarrow> appended n r s u"
  by (simp add: appended_def same_chainD)

lemma rebuildLoop_appended:
  assumes "rebuildLoop E n ph None t = Some (r, s')"
    and "\<forall>e \<in> set (canonicalChain t). el_id e < nextElem t"
  shows "appended (nextElem t) r t s'"
proof -
  from rebuildLoop_extends [OF assms(1)] obtain new where ext: "extends t new s'"
    and r: "r = None \<or> r = (case new of [] \<Rightarrow> None | e # _ \<Rightarrow> Some e)" by auto
  show ?thesis
    by (rule appended_extends [OF assms(2) ext, where e = "hd new"])
       (use r in \<open>auto split: list.splits\<close>)
qed

lemma rebuildCanonicalChain_appended:
  assumes ids: "ids_ok s" and "rebuildCanonicalChain E s = Some (r, s')"
  shows "appended (nextElem s) r s s'"
proof (cases E s rule: rebuildCanonicalChain_cases)
  case (none t)
  then show ?thesis using appended_same [OF ids] assms(2) by simp
next
  case (valid t e)
  then have t: "canonicalChain t = upToElem e (canonicalChain s)" "nextElem t = nextElem s"
    "conf t = conf s" "consumers t = consumers s" "dispatched t = dispatched s"
    "highestBlock t = highestBlock s"
    by (simp_all add: same_chain_def removeAfter_def)
  have "\<forall>x \<in> set (canonicalChain t). el_id x < nextElem t"
    using ids upToElem_prefix [of "canonicalChain s" e]
    unfolding ids_ok_def t by (metis Un_iff set_append)
  from rebuildLoop_appended [OF assms(2) [unfolded valid(1)] this] show ?thesis
    unfolding t(2) by (rule appended_left) (simp_all add: t)
next
  case (all t)
  have "appended (nextElem (list_Init t)) r (list_Init t) s'"
    by (rule rebuildLoop_appended [OF assms(2) [unfolded all(1)]]) (simp add: list_Init_def)
  then have "appended (nextElem (list_Init t)) r s s'"
    by (rule appended_left) (use all(3) in \<open>simp_all add: list_Init_def same_chainD\<close>)
  with all(3) show ?thesis by (simp add: list_Init_def same_chainD)
qed

lemma trimToMonitoredHead_appended:
  assumes "canonicalChain s1 = pre @ [e]" and "\<forall>x \<in> set pre. el_id x < nextElem s"
    and "el_id e = nextElem s" and "nextElem s1 = Suc (nextElem s)"
    and "conf s1 = conf s" "consumers s1 = consumers s" "dispatched s1 = dispatched s"
    and "highestBlock s1 = highestBlock s" and "cfg_MonitoredHeadLength (conf s) > 0"
  shows "appended (nextElem s) (Some e) s (trimToMonitoredHead s1) \<and>
    length (canonicalChain (trimToMonitoredHead s1)) \<le> nat (cfg_MonitoredHeadLength (conf s)) \<and>
    last (canonicalChain (trimToMonitoredHead s1)) = e"
proof -
  let ?k = "length (canonicalChain s1) - nat (cfg_MonitoredHeadLength (conf s1))"
  have k: "?k \<le> length pre" using assms(1,5,9) by simp
  then have ch: "canonicalChain (trimToMonitoredHead s1) = drop ?k pre @ [e]"
    using assms(1) by (simp add: trimToMonitoredHead_def)
  have rest: "conf (trimToMonitoredHead s1) = conf s" "consumers (trimToMonitoredHead s1) = consumers s"
    "dispatched (trimToMonitoredHead s1) = dispatched s"
    "highestBlock (trimToMonitoredHead s1) = highestBlock s"
    "nextElem (trimToMonitoredHead s1) = Suc (nextElem s)"
    using assms by (simp_all add: trimToMonitoredHead_def)
  have "length (drop ?k pre) < nat (cfg_MonitoredHeadLength (conf s))"
    using assms(1,5,9) by simp
  moreover have "appended (nextElem s) (Some e) s (trimToMonitoredHead s1)"
    unfolding appended_def
    by (intro conjI exI [of _ "drop ?k pre"] exI [of _ "[e]"])
       (use assms(2,3) in \<open>auto simp: rest ch dest: in_set_dropD\<close>)
  ultimately show ?thesis using ch by simp
qed


lemma handleNewBlock_appended:
  assumes ids: "ids_ok s" and M: "cfg_MonitoredHeadLength (conf s) > 0"
    and a: "case a of None \<Rightarrow> True | Some p \<Rightarrow> p \<in> set (canonicalChain s)"
    and run: "handleNewBlock E b a s = Some (r, s')"
  shows "appended (nextElem s) r s s'"
proof (cases a)
  case None
  let ?s = "list_Init (resetReceiptCache E s)"
  obtain e s1 where push: "list_PushBack b ?s = (e, s1)" by fastforce
  have s: "nextElem ?s = nextElem s" "conf ?s = conf s" "consumers ?s = consumers s"
    "dispatched ?s = dispatched s" "highestBlock ?s = highestBlock s" "canonicalChain ?s = []"
    using same_chainD [OF resetReceiptCache_same [of s E]] by (simp_all add: list_Init_def)
  have "appended (nextElem s) (Some e) s (trimToMonitoredHead s1)"
    by (rule trimToMonitoredHead_appended [where pre = "[]", THEN conjunct1])
       (use push s M in \<open>auto simp: list_PushBack_def Let_def\<close>)
  with None run push show ?thesis
    by (auto simp: handleNewBlock_def intro: appended_right)
next
  case (Some p)
  show ?thesis
  proof (cases "bi_Number (el_val p) \<noteq> bi_Number b - 1 \<or>
                \<not> hexEquals (bi_Hash (el_val p)) (bi_ParentHash b)")
    case True
    with Some run have "rebuildCanonicalChain E s = Some (r, s')"
      by (simp add: handleNewBlock_def)
    with ids show ?thesis by (rule rebuildCanonicalChain_appended)
  next
    case False
    obtain e s1 where ins: "list_InsertAfter b p s = (e, s1)" by fastforce
    have p: "p \<in> set (canonicalChain s)" using a Some by simp
    note c = insert_removeAfter_chain [OF ids p ins]
    have pre: "\<forall>x \<in> set (upToElem p (canonicalChain s)). el_id x < nextElem s"
      using ids upToElem_prefix [of "canonicalChain s" p]
      unfolding ids_ok_def by (metis Un_iff set_append)
    have "appended (nextElem s) (Some e) s (trimToMonitoredHead (removeAfter e s1))"
      by (rule trimToMonitoredHead_appended [THEN conjunct1, OF c(1) pre])
         (use c(2,3) ins M in \<open>auto simp: list_InsertAfter_def removeAfter_def Let_def\<close>)
    with Some False run ins show ?thesis
      by (auto simp: handleNewBlock_def Let_def split: if_splits intro: appended_right
          appended_right [OF appended_right])
  qed
qed

lemma reconcileLoop_appended:
  assumes "ids_ok s" and "cfg_MonitoredHeadLength (conf s) > 0"
    and "set es \<subseteq> set (canonicalChain s)" and "reconcileLoop E b es s = Some (r, s')"
  shows "appended (nextElem s) r s s'"
  using assms(3,4)
proof (induction es)
  case Nil
  with assms show ?case by (auto dest: handleNewBlock_appended [where a = None, rotated 3])
next
  case (Cons pos prevs)
  from Cons assms(1-2) show ?case
    by (cases prevs)
       (auto split: if_splits intro: handleNewBlock_appended [where a = None]
          handleNewBlock_appended [where a = "Some pos"] appended_same
          handleNewBlock_appended [where a = "Some (hd prevs)"])
qed

lemma reconcile_appended:
  assumes "ids_ok s" and "cfg_MonitoredHeadLength (conf s) > 0"
    and "reconcileCanonicalChain E b s = Some (r, s')"
  shows "appended (nextElem s) r s s'"
    and "bi_Number b \<le> highestBlock s'"
proof -
  let ?s = "checkAndSetHighestBlock b s"
  from assms(3) have run: "reconcileLoop E b (rev (canonicalChain ?s)) ?s = Some (r, s')"
    by (simp add: reconcileCanonicalChain_def Let_def)
  have "ids_ok ?s" using assms(1) by (simp add: ids_ok_def checkAndSetHighestBlock_fields)
  from reconcileLoop_appended [OF this _ _ run] assms(2)
  have a: "appended (nextElem s) r ?s s'" by (simp add: checkAndSetHighestBlock_fields)
  then show "bi_Number b \<le> highestBlock s'"
    by (simp add: appended_def checkAndSetHighestBlock_fields)
  from a extends_same show "appended (nextElem s) r s s'"
    using checkAndSetHighestBlock_extends [of s b]
    by (auto simp: appended_def extends_def)
qed

text \<open>The elements \<open>Next\<close> leads to from the returned position.\<close>

lemma appended_new_ids:
  assumes "appended n (Some e) s s'"
  shows "map el_id (filter (\<lambda>x. n \<le> el_id x) (canonicalChain s')) = [n..<nextElem s']"
    and "filter (\<lambda>x. n \<le> el_id x) (canonicalChain s') \<noteq> []"
proof -
  from assms obtain old new where ch: "canonicalChain s' = old @ new" and ne: "new \<noteq> []"
    and old: "\<forall>x \<in> set old. el_id x < n" and new: "map el_id new = [n..<nextElem s']"
    by (auto simp: appended_def)
  from new have "\<forall>x \<in> set new. n \<le> el_id x"
    by (metis atLeastLessThan_iff image_eqI list.set_map set_upt)
  with old have "filter (\<lambda>x. n \<le> el_id x) (canonicalChain s') = new"
    by (auto simp: ch filter_empty_conv intro!: filter_True)
  with ne new show "map el_id (filter (\<lambda>x. n \<le> el_id x) (canonicalChain s')) = [n..<nextElem s']"
    and "filter (\<lambda>x. n \<le> el_id x) (canonicalChain s') \<noteq> []" by simp_all
qed

lemma appended_elementsFrom:
  assumes "appended n (Some e) s s'"
  shows "elementsFrom s' e = filter (\<lambda>x. n \<le> el_id x) (canonicalChain s')"
proof -
  from assms obtain old new where ch: "canonicalChain s' = old @ e # new"
    and old: "\<forall>x \<in> set old. el_id x < n" and new: "map el_id (e # new) = [n..<nextElem s']"
    by (auto simp: appended_def) (metis list.collapse list.simps(9))
  from new have ge: "\<forall>x \<in> set (e # new). n \<le> el_id x"
    by (metis atLeastLessThan_iff image_eqI list.set_map set_upt)
  then have "el_id e \<ge> n" by simp
  with old have ne: "\<forall>x \<in> set old. el_id x \<noteq> el_id e" by auto
  from ch have "el_id e \<in> el_id ` set (canonicalChain s')" by simp
  then have "elementsFrom s' e = dropWhile (\<lambda>x. el_id x \<noteq> el_id e) (canonicalChain s')"
    by (simp add: elementsFrom_def)
  also have "\<dots> = e # new" using ne ch by (simp add: dropWhile_append2)
  also have "\<dots> = filter (\<lambda>x. n \<le> el_id x) (canonicalChain s')"
    using ge old by (auto simp: ch filter_empty_conv intro!: filter_True [symmetric])
  finally show ?thesis .
qed

end
