(* ===== verification/ChainConvergence.thy ===== *)
theory ChainConvergence
  imports ChainInvariant
begin

text \<open>
  Convergence of the canonical chain on the chain of the node. \<open>stable_node\<close> says that for the
  time of one call the node serves one linked chain that ends at block \<open>H\<close>; \<open>binds\<close> is what the
  hash of a block is for: a block the listener holds with the hash of a block of the node is that
  block. Under them the loop of a rebuild ends, and adding the head of the node leaves the node's
  own blocks, up to its head, in the canonical chain.
\<close>

definition nodeBlock ::
  "(u64 \<Rightarrow> EVMBlockWithTxHashesJSONRPC) \<Rightarrow> bool \<Rightarrow> u64 \<Rightarrow> BlockInfoJSONRPC" where
  "nodeBlock blk bloom n =
     (header_ToBlockInfo (ebh_Header (blk n)) bloom)\<lparr>bi_Transactions := ebh_Transactions (blk n)\<rparr>"

definition stable_node ::
  "('bc, 'rc) env \<Rightarrow> (u64 \<Rightarrow> EVMBlockWithTxHashesJSONRPC) \<Rightarrow> u64 \<Rightarrow> bool" where
  "stable_node E blk H \<longleftrightarrow>
     (\<forall>t n. rpc_getBlockByNumber E t (numString E n) = Inr (if n \<le> H then Some (blk n) else None)) \<and>
     (\<forall>n. bh_Number (ebh_Header (blk n)) = n \<and> bh_Hash (ebh_Header (blk n)) \<noteq> None) \<and>
     (\<forall>n. n < H \<longrightarrow> hexEquals (bh_Hash (ebh_Header (blk n))) (bh_ParentHash (ebh_Header (blk (n + 1)))))"

definition binds ::
  "(u64 \<Rightarrow> EVMBlockWithTxHashesJSONRPC) \<Rightarrow> bool \<Rightarrow> BlockInfoJSONRPC \<Rightarrow> bool" where
  "binds blk bloom b \<longleftrightarrow>
     (\<forall>n. hexEquals (bi_Hash b) (bi_Hash (nodeBlock blk bloom n)) \<longrightarrow>
        bi_Equal b (nodeBlock blk bloom n))"

text \<open>The blocks of the node from \<open>a\<close> to \<open>H\<close>.\<close>

definition segment ::
  "(u64 \<Rightarrow> EVMBlockWithTxHashesJSONRPC) \<Rightarrow> bool \<Rightarrow> u64 \<Rightarrow> u64 \<Rightarrow> BlockInfoJSONRPC list" where
  "segment blk bloom a H = map (\<lambda>i. nodeBlock blk bloom (of_nat i)) [unat a..<Suc (unat H)]"

lemma nodeBlock_fields [simp]:
  "bi_Number (nodeBlock blk bloom n) = bh_Number (ebh_Header (blk n))"
  "bi_Hash (nodeBlock blk bloom n) = bh_Hash (ebh_Header (blk n))"
  "bi_ParentHash (nodeBlock blk bloom n) = bh_ParentHash (ebh_Header (blk n))"
  by (simp_all add: nodeBlock_def header_ToBlockInfo_def)

lemma stable_nodeD:
  assumes "stable_node E blk H"
  shows "bh_Number (ebh_Header (blk n)) = n" and "bh_Hash (ebh_Header (blk n)) \<noteq> None"
    and "n < H \<Longrightarrow> hexEquals (bh_Hash (ebh_Header (blk n))) (bh_ParentHash (ebh_Header (blk (n + 1))))"
  using assms by (simp_all add: stable_node_def)

lemma stable_node_query:
  assumes "stable_node E blk H"
  obtains s' where "same_chain s s'"
    "retriedBlockQuery E n s =
       (Inr (if n \<le> H then Some (nodeBlock blk (cfg_IncludeLogsBloom (conf s)) n) else None), s')"
proof -
  let ?r = "if n \<le> H then Some (nodeBlock blk (cfg_IncludeLogsBloom (conf s)) n) else None"
  obtain r s' where q: "retriedBlockQuery E n s = (r, s')" by fastforce
  have "\<exists>s'. GetBlockInfoByNumber E n False '''' '''' s = (Inr ?r, s')"
    using assms
    by (simp add: GetBlockInfoByNumber_uncached stable_node_def hashes_ToBlockInfo_def
        nodeBlock_def Let_def)
  then obtain s1 where "GetBlockInfoByNumber E n False '''' '''' s = (Inr ?r, s1)" ..
  then have "retriedBlockQuery E n s = (Inr ?r, s1)"
    unfolding retriedBlockQuery_def by (intro retryDo_success [where retry = True]) simp
  with that retriedBlockQuery_same show thesis by blast
qed

lemma segment_single [simp]: "segment blk bloom H H = [nodeBlock blk bloom H]"
  by (simp add: segment_def)

lemma segment_empty: "H < a \<Longrightarrow> segment blk bloom a H = []"
  by (simp add: segment_def u64_less_unat)

lemma segment_Cons:
  "a \<le> H \<Longrightarrow> H + 1 \<noteq> 0 \<Longrightarrow>
     segment blk bloom a H = nodeBlock blk bloom a # segment blk bloom (a + 1) H"
  by (simp add: segment_def upt_rec [of "unat a"] u64_le_unat unat_u64_next del: upt_Suc)

lemma segment_append:
  assumes "a \<le> m" and "m \<le> H" and "H + 1 \<noteq> 0"
  shows "segment blk bloom a m @ segment blk bloom (m + 1) H = segment blk bloom a H"
proof -
  have "[unat a..<Suc (unat H)] = [unat a..<Suc (unat m)] @ [Suc (unat m)..<Suc (unat H)]"
    using assms(1,2) by (intro upt_append) (simp_all add: u64_le_unat)
  then show ?thesis using assms(2,3) by (simp add: segment_def unat_u64_next del: upt_Suc)
qed

lemma segment_snoc:
  assumes "a \<le> m" and "m < H"
  shows "segment blk bloom a (m + 1) = segment blk bloom a m @ [nodeBlock blk bloom (m + 1)]"
proof -
  have u: "unat (m + 1) = Suc (unat m)" using unat_u64_succ [OF assms(2)] by simp
  have w: "word_of_nat (Suc (unat m)) = m + 1" by (simp add: add.commute)
  show ?thesis using assms(1) by (simp add: segment_def u w u64_le_unat del: of_nat_Suc)
qed

section \<open>The loop of a rebuild ends at the head of the node\<close>

lemma rebuildLoop_converges:
  assumes node: "stable_node E blk H" and H: "H + 1 \<noteq> 0"
  shows "n \<le> H + 1 \<Longrightarrow>
     ph = None \<or> (n \<le> H \<longrightarrow> hexEquals (bh_ParentHash (ebh_Header (blk n))) ph) \<Longrightarrow>
     \<exists>r s'. rebuildLoop E n ph np s = Some (r, s') \<and> conf s' = conf s \<and>
       chainBlocks s' = chainBlocks s @ segment blk (cfg_IncludeLogsBloom (conf s)) n H"
proof (induction "unat (H + 1 - n)" arbitrary: n ph np s)
  case 0
  then have n: "n = H + 1"
    by (metis eq_iff_diff_eq_0 unat_eq_zero)
  with H have "\<not> n \<le> H" by (simp add: u64_le_unat unat_u64_Suc)
  with stable_node_query [OF node, of s n] obtain s1 where
    "same_chain s s1" "retriedBlockQuery E n s = (Inr None, s1)" by auto
  with \<open>\<not> n \<le> H\<close> show ?case
    by (simp add: rebuildLoop.simps rebuildStep_def segment_empty chainBlocks_def same_chainD)
next
  case (Suc k)
  then have "n \<noteq> H + 1" by auto
  with Suc.prems(1) have n: "n \<le> H"
    using inc_le linorder_not_less by (metis order_le_less)
  let ?bi = "nodeBlock blk (cfg_IncludeLogsBloom (conf s)) n"
  from n stable_node_query [OF node, of s n] obtain s1 where
    same: "same_chain s s1" and q: "retriedBlockQuery E n s = (Inr (Some ?bi), s1)" by auto
  obtain e s2 where push: "list_PushBack ?bi s1 = (e, s2)" by fastforce
  let ?s3 = "fetchAndCacheBlockReceipts ?bi (checkAndSetHighestBlock ?bi s2)"
  let ?np = "if np = None then Some e else np"
  from list_PushBack_extends [OF push] have e: "el_val e = ?bi" "extends s1 [e] s2" by auto
  have s3: "chainBlocks ?s3 = chainBlocks s @ [?bi]" "conf ?s3 = conf s"
    using e same by (simp_all add: chainBlocks_def extends_def same_chainD
        checkAndSetHighestBlock_fields same_chainD [OF fetchAndCacheBlockReceipts_same])
  have "rebuildStep E n ph np s = Inr (bi_Hash ?bi, ?np, ?s3)"
    using q push Suc.prems(2) n by (auto simp: rebuildStep_def)
  then have step: "rebuildLoop E n ph np s = rebuildLoop E (n + 1) (bi_Hash ?bi) ?np ?s3"
    by (subst rebuildLoop.simps) simp
  have k: "k = unat (H + 1 - (n + 1))"
    using Suc.hyps(2) unat_u64_pred [of "H + 1 - n"] \<open>n \<noteq> H + 1\<close> by (simp add: diff_diff_eq)
  have le: "n + 1 \<le> H + 1" using n H
    by (simp add: u64_le_unat unat_u64_next unat_u64_Suc)
  have par: "n + 1 \<le> H \<longrightarrow> hexEquals (bh_ParentHash (ebh_Header (blk (n + 1)))) (bi_Hash ?bi)"
  proof
    assume "n + 1 \<le> H"
    with n H have "n < H" by (simp add: u64_le_unat u64_less_unat unat_u64_next)
    from stable_nodeD(3) [OF node this]
    show "hexEquals (bh_ParentHash (ebh_Header (blk (n + 1)))) (bi_Hash ?bi)"
      by (simp add: hexEquals_def)
  qed
  from Suc.hyps(1) [OF k le disjI2 [OF par], of ?np ?s3]
  obtain r s' where "rebuildLoop E (n + 1) (bi_Hash ?bi) ?np ?s3 = Some (r, s')"
    "conf s' = conf ?s3"
    "chainBlocks s' = chainBlocks ?s3 @ segment blk (cfg_IncludeLogsBloom (conf ?s3)) (n + 1) H"
    by blast
  with step s3 segment_Cons [OF n H] show ?case by simp
qed


section \<open>A linked list that ends with a block of the node\<close>

lemma linked_prefix_segment:
  assumes node: "stable_node E blk H"
  shows "linked (bs @ [b]) \<Longrightarrow> bi_Equal b (nodeBlock blk bloom m) \<Longrightarrow> m \<le> H \<Longrightarrow>
     \<forall>x \<in> set bs. binds blk bloom x \<and> bi_Number x < H \<Longrightarrow>
     \<exists>a \<le> m. list_all2 bi_Equal (bs @ [b]) (segment blk bloom a m)"
proof (induction bs arbitrary: b m rule: rev_induct)
  case Nil
  then show ?case by (intro exI [of _ m]) simp
next
  case (snoc p bs)
  let ?n = "bi_Number p"
  from snoc.prems(1) have par: "bi_IsParentOf p b" and lp: "linked (bs @ [p])"
    by (auto simp: successively_append_iff)
  from snoc.prems(4) have nH: "?n < H" and bind: "binds blk bloom p"
    and rest: "\<forall>x \<in> set bs. binds blk bloom x \<and> bi_Number x < H" by auto
  from par snoc.prems(2) have m: "m = ?n + 1"
    using stable_nodeD(1) [OF node] by (simp add: bi_IsParentOf_def bi_Equal_def)
  have "hexEquals (bi_Hash p) (bi_ParentHash (nodeBlock blk bloom m))"
    using par snoc.prems(2) by (auto simp: bi_IsParentOf_def bi_Equal_def hexEquals_def)
  with stable_nodeD(3) [OF node nH]
  have "hexEquals (bi_Hash p) (bi_Hash (nodeBlock blk bloom ?n))"
    by (simp add: m hexEquals_def)
  with bind have "bi_Equal p (nodeBlock blk bloom ?n)" by (simp add: binds_def)
  from snoc.IH [OF lp this order_less_imp_le [OF nH] rest] obtain a where a: "a \<le> ?n"
    and "list_all2 bi_Equal (bs @ [p]) (segment blk bloom a ?n)" by blast
  with snoc.prems(2) have "list_all2 bi_Equal ((bs @ [p]) @ [b]) (segment blk bloom a m)"
    unfolding m segment_snoc [OF a nH] by (intro list_all2_appendI) simp_all
  moreover have "a \<le> m" using a nH unfolding m
    by (simp add: u64_le_unat unat_u64_succ)
  ultimately show ?case by (intro exI [of _ a]) simp
qed

lemma linked_numbers_less:
  assumes "linked (bs @ [b])" and "\<forall>x \<in> set (bs @ [b]). bi_Number x \<le> H" and "H + 1 \<noteq> 0"
  shows "\<forall>x \<in> set bs. bi_Number x < bi_Number b"
  using assms(1,2)
proof (induction bs arbitrary: b rule: rev_induct)
  case Nil
  then show ?case by simp
next
  case (snoc p bs)
  from snoc.prems(1) have par: "bi_IsParentOf p b" and lp: "linked (bs @ [p])"
    by (auto simp: successively_append_iff)
  from snoc.prems(2) have "bi_Number p \<le> H" by simp
  then have "unat (bi_Number p + 1) = Suc (unat (bi_Number p))" using assms(3) by (rule unat_u64_next)
  with bi_IsParentOf_number [OF par] have less: "bi_Number p < bi_Number b" by (simp add: u64_less_unat)
  from snoc.IH [OF lp] snoc.prems(2) have "\<forall>x \<in> set bs. bi_Number x < bi_Number p" by simp
  with less show ?case by (auto intro: less_trans)
qed

section \<open>The rebuild, and the addition of the head of the node\<close>

text \<open>The state of a listener that has not run ahead of the node.\<close>

definition behind ::
  "(u64 \<Rightarrow> EVMBlockWithTxHashesJSONRPC) \<Rightarrow> u64 \<Rightarrow> ('bc, 'rc) blockListener \<Rightarrow> bool" where
  "behind blk H s \<longleftrightarrow>
     chain_ok s \<and>
     (\<forall>b \<in> set (chainBlocks s). bi_Number b \<le> H \<and> binds blk (cfg_IncludeLogsBloom (conf s)) b)"

definition holds_node_chain ::
  "(u64 \<Rightarrow> EVMBlockWithTxHashesJSONRPC) \<Rightarrow> u64 \<Rightarrow> ('bc, 'rc) blockListener \<Rightarrow> bool" where
  "holds_node_chain blk H s \<longleftrightarrow>
     (\<exists>a \<le> H. list_all2 bi_Equal (chainBlocks s)
                 (segment blk (cfg_IncludeLogsBloom (conf s)) a H))"

lemma ends_with_node_block:
  assumes node: "stable_node E blk H" and H: "H + 1 \<noteq> 0" and "linked (bs @ [b])"
    and "\<forall>x \<in> set (bs @ [b]). bi_Number x \<le> H" and "\<forall>x \<in> set bs. binds blk bloom x"
    and "bi_Equal b (nodeBlock blk bloom m)" and "m \<le> H"
  shows "\<exists>a \<le> m. list_all2 bi_Equal (bs @ [b]) (segment blk bloom a m)"
proof (rule linked_prefix_segment [OF node assms(3,6,7)])
  have "bi_Number b \<le> H" using assms(4) by simp
  with linked_numbers_less [OF assms(3,4) H] assms(5)
  show "\<forall>x \<in> set bs. binds blk bloom x \<and> bi_Number x < H" by fastforce
qed

lemma confirmedBy_stable:
  assumes "stable_node E blk H" and "confirmedBy E b" and "binds blk bloom b"
  shows "bi_Equal b (nodeBlock blk bloom (bi_Number b))"
proof -
  from assms(2) obtain t fresh t' where
    q: "retriedBlockQuery E (bi_Number b) t = (Inr (Some fresh), t')"
    and h: "hexEquals (bi_Hash fresh) (bi_Hash b)" by (auto simp: confirmedBy_def)
  obtain t1 where "retriedBlockQuery E (bi_Number b) t =
      (Inr (if bi_Number b \<le> H then Some (nodeBlock blk (cfg_IncludeLogsBloom (conf t)) (bi_Number b))
            else None), t1)"
    by (rule stable_node_query [OF assms(1)])
  with q have "fresh = nodeBlock blk (cfg_IncludeLogsBloom (conf t)) (bi_Number b)"
    by (simp split: if_split_asm)
  with h have "hexEquals (bi_Hash b) (bi_Hash (nodeBlock blk bloom (bi_Number b)))"
    by (auto intro: hexEquals_sym)
  with assms(3) show ?thesis by (simp add: binds_def)
qed

lemma rebuildCanonicalChain_converges:
  assumes node: "stable_node E blk H" and H: "H + 1 \<noteq> 0" and s: "behind blk H s"
    and ne: "canonicalChain s \<noteq> []"
  shows "\<exists>r s'. rebuildCanonicalChain E s = Some (r, s') \<and> holds_node_chain blk H s'"
proof (cases E s rule: rebuildCanonicalChain_cases)
  case (none t)
  with ne show ?thesis by simp
next
  case (all t)
  let ?n = "bi_Number (el_val (hd (canonicalChain s)))"
  have n: "?n \<le> H" using s ne by (simp add: behind_def chainBlocks_def)
  then have "?n \<le> H + 1" using H by (simp add: u64_le_unat unat_u64_Suc)
  from rebuildLoop_converges [OF node H this, of None None "list_Init t"] all(1)
  obtain r s' where "rebuildCanonicalChain E s = Some (r, s')" "conf s' = conf t"
    "chainBlocks s' = segment blk (cfg_IncludeLogsBloom (conf t)) ?n H"
    by (auto simp: list_Init_def chainBlocks_def)
  with n show ?thesis
    by (auto simp: holds_node_chain_def list_all2_same intro!: exI [of _ ?n])
next
  case (valid t e)
  let ?bloom = "cfg_IncludeLogsBloom (conf s)" and ?n = "bi_Number (el_val e)"
  have ok: "chain_ok s" and d: "distinct (map el_id (canonicalChain s))"
    using s by (simp_all add: behind_def chain_ok_def ids_ok_def)
  from upToElem_last [OF d valid(2)] obtain pre where pre: "upToElem e (canonicalChain s) = pre @ [e]"
    by (metis append_butlast_last_id)
  then have sub: "set (pre @ [e]) \<subseteq> set (canonicalChain s)"
    using upToElem_prefix [of "canonicalChain s" e] by (metis Un_upper1 set_append)
  have t: "chainBlocks t = map el_val pre @ [el_val e]" "conf t = conf s"
    using valid(3) by (simp_all add: chainBlocks_def same_chain_def removeAfter_def pre)
  have "chain_ok t" using ok valid(3) by (blast intro: removeAfter_chain_ok chain_ok_same)
  then have lt: "linked (map el_val pre @ [el_val e])" using t by (simp add: chain_ok_def)
  have num: "\<forall>x \<in> set (map el_val pre @ [el_val e]). bi_Number x \<le> H"
    and bind: "\<forall>x \<in> set (map el_val pre @ [el_val e]). binds blk ?bloom x"
    using s sub by (auto simp: behind_def chainBlocks_def)
  then have n: "?n \<le> H" by simp
  from bind have eq: "bi_Equal (el_val e) (nodeBlock blk ?bloom ?n)"
    by (intro confirmedBy_stable [OF node valid(4)]) simp
  from ends_with_node_block [OF node H lt num _ eq n] bind
  obtain a where a: "a \<le> ?n" "list_all2 bi_Equal (chainBlocks t) (segment blk ?bloom a ?n)"
    using t by auto
  have "hexEquals (bh_ParentHash (ebh_Header (blk (?n + 1)))) (bi_Hash (el_val e))"
    if "?n + 1 \<le> H"
  proof -
    have "?n < H" using that n H by (simp add: u64_le_unat u64_less_unat unat_u64_next)
    from stable_nodeD(3) [OF node this] eq show ?thesis
      by (auto simp: bi_Equal_def hexEquals_def)
  qed
  moreover have "?n + 1 \<le> H + 1" using n H by (simp add: u64_le_unat unat_u64_next unat_u64_Suc)
  ultimately obtain r s' where run: "rebuildCanonicalChain E s = Some (r, s')" "conf s' = conf s"
    and ch: "chainBlocks s' = chainBlocks t @ segment blk ?bloom (?n + 1) H"
    using rebuildLoop_converges [OF node H, of "?n + 1" "bi_Hash (el_val e)" None t] valid(1) t(2)
    by auto
  have "list_all2 bi_Equal (chainBlocks s') (segment blk ?bloom a H)"
    unfolding ch segment_append [OF a(1) n H, symmetric]
    by (intro list_all2_appendI a(2)) (simp add: list_all2_same)
  moreover have "a \<le> H" using a(1) n by (rule order_trans)
  ultimately show ?thesis using run by (auto simp: holds_node_chain_def)
qed


lemma segment_drop:
  assumes "n \<le> H" and "k \<le> unat H - unat n"
  shows "\<exists>a \<le> H. drop k (segment blk bloom n H) = segment blk bloom a H"
proof -
  let ?a = "word_of_nat (unat n + k) :: u64"
  have le: "unat n + k \<le> unat H" using assms by (simp add: u64_le_unat)
  then have "unat n + k < 2 ^ 64" using unat_u64_less [of H] by simp
  then have a: "unat ?a = unat n + k"
    by (simp add: unat_of_nat take_bit_nat_eq_self del: of_nat_add)
  with le have "?a \<le> H" by (simp add: u64_le_unat)
  moreover have "drop k (segment blk bloom n H) = segment blk bloom ?a H"
    by (simp add: segment_def a drop_map drop_upt del: upt_Suc of_nat_add)
  ultimately show ?thesis by blast
qed

lemma holds_node_chain_same:
  "holds_node_chain blk H s \<Longrightarrow> same_chain s s' \<Longrightarrow> holds_node_chain blk H s'"
  by (simp add: holds_node_chain_def chainBlocks_def same_chainD)

text \<open>The head of the node is added: it fits after an element, or the chain is rebuilt.\<close>

lemma handleNewBlock_converges:
  assumes node: "stable_node E blk H" and H: "H + 1 \<noteq> 0" and s: "behind blk H s"
    and M: "cfg_MonitoredHeadLength (conf s) > 0"
    and b: "bi_Equal b (nodeBlock blk (cfg_IncludeLogsBloom (conf s)) H)"
    and h: "bi_Hash b \<noteq> None"
    and a: "case a of None \<Rightarrow> True | Some p \<Rightarrow> p \<in> set (canonicalChain s)"
  shows "\<exists>r s'. handleNewBlock E b a s = Some (r, s') \<and> holds_node_chain blk H s'"
proof (cases a)
  case None
  obtain e s1 where push: "list_PushBack b (list_Init (resetReceiptCache E s)) = (e, s1)" by fastforce
  have "chainBlocks (fetchAndCacheBlockReceipts b (trimToMonitoredHead s1)) = [b]"
    "conf (fetchAndCacheBlockReceipts b (trimToMonitoredHead s1)) = conf s"
    using push M same_chainD(1) [OF resetReceiptCache_same [of s E]]
    by (auto simp: chainBlocks_def same_chainD [OF fetchAndCacheBlockReceipts_same]
        trimToMonitoredHead_def list_PushBack_def list_Init_def Let_def)
  with b None push show ?thesis
    by (auto simp: handleNewBlock_def holds_node_chain_def intro!: exI [of _ H])
next
  case (Some p)
  show ?thesis
  proof (cases "bi_Number (el_val p) \<noteq> bi_Number b - 1 \<or>
                \<not> hexEquals (bi_Hash (el_val p)) (bi_ParentHash b)")
    case True
    from Some a have "canonicalChain s \<noteq> []" by auto
    from rebuildCanonicalChain_converges [OF node H s this] Some True show ?thesis
      by (simp add: handleNewBlock_def)
  next
    case False
    let ?bloom = "cfg_IncludeLogsBloom (conf s)"
    obtain e s1 where ins: "list_InsertAfter b p s = (e, s1)" by fastforce
    let ?t = "removeAfter e s1"
    have ok: "chain_ok s" using s by (simp add: behind_def)
    then have ids: "ids_ok s" by (simp add: chain_ok_def)
    have p: "p \<in> set (canonicalChain s)" using a Some by simp
    note c = insert_removeAfter_chain [OF ids p ins]
    let ?pre = "map el_val (upToElem p (canonicalChain s))"
    have ch: "chainBlocks ?t = ?pre @ [b]" using c(1,2) by (simp add: chainBlocks_def)
    have par: "bi_IsParentOf (el_val p) b" using False by (simp add: bi_IsParentOf_def)
    from handleNewBlock_extend_chain_ok [OF ok p h par ins] ch
    have lt: "linked (?pre @ [b])" by (simp add: chain_ok_def)
    have sub: "set (upToElem p (canonicalChain s)) \<subseteq> set (canonicalChain s)"
      using upToElem_prefix [of "canonicalChain s" p] by (metis Un_upper1 set_append)
    have "bi_Number b = H" using b stable_nodeD(1) [OF node] by (simp add: bi_Equal_def)
    with s sub have num: "\<forall>x \<in> set (?pre @ [b]). bi_Number x \<le> H"
      and bind: "\<forall>x \<in> set ?pre. binds blk ?bloom x"
      by (auto simp: behind_def chainBlocks_def)
    from ends_with_node_block [OF node H lt num bind b order_refl]
    obtain n where n: "n \<le> H" "list_all2 bi_Equal (?pre @ [b]) (segment blk ?bloom n H)" by blast
    let ?k = "length (canonicalChain ?t) - nat (cfg_MonitoredHeadLength (conf s))"
    have "?k \<le> length ?pre" using c(1) M by simp
    also have "length ?pre = unat H - unat n"
      using list_all2_lengthD [OF n(2)] n(1) by (simp add: segment_def u64_le_unat)
    finally obtain m where m: "m \<le> H" "drop ?k (segment blk ?bloom n H) = segment blk ?bloom m H"
      using segment_drop [OF n(1)] by blast
    let ?u = "trimToMonitoredHead ?t"
    have u0: "conf s1 = conf s" using ins by (auto simp: list_InsertAfter_def Let_def)
    then have u: "conf ?t = conf s" "conf ?u = conf s" "chainBlocks ?u = drop ?k (chainBlocks ?t)"
      by (simp_all add: trimToMonitoredHead_def removeAfter_def chainBlocks_def drop_map)
    then have "list_all2 bi_Equal (chainBlocks ?u) (segment blk ?bloom m H)"
      unfolding m(2) [symmetric] u(3) ch by (intro list_all2_dropI n(2))
    with m(1) u(2) have "holds_node_chain blk H ?u" by (auto simp: holds_node_chain_def)
    with Some False ins show ?thesis
      by (auto simp: handleNewBlock_def Let_def intro: holds_node_chain_same)
  qed
qed


lemma reconcileLoop_converges:
  assumes node: "stable_node E blk H" and H: "H + 1 \<noteq> 0" and s: "behind blk H s"
    and M: "cfg_MonitoredHeadLength (conf s) > 0"
    and b: "bi_Equal b (nodeBlock blk (cfg_IncludeLogsBloom (conf s)) H)" and h: "bi_Hash b \<noteq> None"
  shows "\<exists>r s'. reconcileLoop E b (rev (canonicalChain s)) s = Some (r, s') \<and>
           holds_node_chain blk H s'"
proof (cases "rev (canonicalChain s)")
  case Nil
  with handleNewBlock_converges [OF node H s M b h, of None] show ?thesis by simp
next
  case (Cons pos prevs)
  then have ch: "canonicalChain s = rev prevs @ [pos]" by simp
  let ?bloom = "cfg_IncludeLogsBloom (conf s)"
  have nb: "bi_Number b = H" using b stable_nodeD(1) [OF node] by (simp add: bi_Equal_def)
  have num: "\<forall>x \<in> set (map el_val (rev prevs) @ [el_val pos]). bi_Number x \<le> H"
    and bind: "\<forall>x \<in> set (map el_val (rev prevs)). binds blk ?bloom x"
    and lt: "linked (map el_val (rev prevs) @ [el_val pos])"
    using s by (auto simp: behind_def chainBlocks_def chain_ok_def ch)
  show ?thesis
  proof (cases "bi_Equal (el_val pos) b")
    case True
    then have "bi_Equal (el_val pos) (nodeBlock blk ?bloom H)" using b by (rule bi_Equal_trans)
    from ends_with_node_block [OF node H lt num bind this order_refl]
    have "holds_node_chain blk H s" by (auto simp: holds_node_chain_def chainBlocks_def ch)
    with True Cons show ?thesis by auto
  next
    case False
    have "bi_Number (el_val pos) \<le> H" using num by simp
    then have "bi_Number (el_val pos) = bi_Number b \<or> bi_Number (el_val pos) < bi_Number b"
      using nb by auto
    with False Cons handleNewBlock_converges [OF node H s M b h, of "Some pos"]
      handleNewBlock_converges [OF node H s M b h, of "case prevs of [] \<Rightarrow> None | p # _ \<Rightarrow> Some p"]
    show ?thesis by (auto simp: ch split: list.splits)
  qed
qed

lemma reconcile_converges:
  assumes node: "stable_node E blk H" and H: "H + 1 \<noteq> 0" and s: "behind blk H s"
    and M: "cfg_MonitoredHeadLength (conf s) > 0"
    and b: "bi_Equal b (nodeBlock blk (cfg_IncludeLogsBloom (conf s)) H)" and h: "bi_Hash b \<noteq> None"
  shows "\<exists>r s'. reconcileCanonicalChain E b s = Some (r, s') \<and> holds_node_chain blk H s'"
proof -
  let ?s = "checkAndSetHighestBlock b s"
  have "behind blk H ?s"
    using s by (simp add: behind_def chainBlocks_def checkAndSetHighestBlock_fields
        checkAndSetHighestBlock_chain_ok)
  from reconcileLoop_converges [OF node H this _ _ h] M b show ?thesis
    by (simp add: reconcileCanonicalChain_def Let_def checkAndSetHighestBlock_fields)
qed

end
