(* ===== verification/Confirmations.thy ===== *)
theory Confirmations
  imports ChainConvergence
begin

text \<open>
  \<open>pkg/ethblocklistener/confirmation_reconciler.go\<close>: the confirmations of a transaction. The
  early list starts with the block of the transaction and goes on with the confirmations the caller
  still holds; the late list ends with the newest blocks of interest. \<open>newSplice\<close> removes their
  overlap, \<open>fillGaps\<close> (the inner loop) queries the blocks between them from the late end backwards,
  and \<open>linkLists\<close> (the outer loop) drops blocks of the early list until the two lists link.

  Both loops end, because the late list grows downwards and the early list shrinks; \<open>fillGaps\<close>
  and \<open>linkLists\<close> are total functions. A slice expression that is out of range, and the method
  call on the nil block in \<open>fillOneGap\<close>, are the two panics. (Go bounds \<open>[:n]\<close> by the capacity of
  the slice, the model by its length.)
\<close>

section \<open>Data\<close>

record ConfirmationUpdateResult =
  cu_Confirmations :: "MinimalBlockInfo list"
  cu_Rebuilt :: bool
  cu_NewFork :: bool
  cu_Confirmed :: bool
  cu_TargetConfirmationCount :: u64
  cu_CurrentConfirmationCount :: u64
  cu_TxnBlockTimestamp :: "u64 option"

definition emptyConfirmationUpdateResult :: ConfirmationUpdateResult where
  "emptyConfirmationUpdateResult =
     \<lparr>cu_Confirmations = [], cu_Rebuilt = False, cu_NewFork = False, cu_Confirmed = False,
      cu_TargetConfirmationCount = 0, cu_CurrentConfirmationCount = 0,
      cu_TxnBlockTimestamp = None\<rparr>"

definition toBlockInfoList :: "MinimalBlockInfo list \<Rightarrow> BlockInfoJSONRPC list" where
  "toBlockInfoList ffcapiBlocks =
     map (\<lambda>b. \<lparr>bi_Number = mb_BlockNumber b, bi_Hash = mb_BlockHash b,
                bi_ParentHash = mb_ParentHash b, bi_Timestamp = 0, bi_GasLimit = None,
                bi_BaseFeePerGas = None, bi_LogsBloom = None, bi_Transactions = []\<rparr>) ffcapiBlocks"

definition toMinimalBlockInfoList :: "BlockInfoJSONRPC list \<Rightarrow> MinimalBlockInfo list" where
  "toMinimalBlockInfoList blocks = map ToMinimalBlockInfo blocks"

section \<open>The early list\<close>

text \<open>The confirmations that still link to the one before, and whether any was dropped.\<close>

fun linkedPrefix ::
  "BlockInfoJSONRPC \<Rightarrow> BlockInfoJSONRPC list \<Rightarrow> BlockInfoJSONRPC list \<times> bool" where
  "linkedPrefix prev [] = ([], False)"
| "linkedPrefix prev (b # bs) =
     (if \<not> bi_IsParentOf prev b then ([], True)
      else (case linkedPrefix b bs of (l, rebuilt) \<Rightarrow> (b # l, rebuilt)))"

definition createPreSpliceEarlyList ::
  "BlockInfoJSONRPC list \<Rightarrow> BlockInfoJSONRPC \<Rightarrow> ConfirmationUpdateResult \<Rightarrow>
   BlockInfoJSONRPC list \<times> ConfirmationUpdateResult" where
  "createPreSpliceEarlyList existingConfirmations txBlockInfo reconcileResult =
     (case existingConfirmations of
        [] \<Rightarrow> ([txBlockInfo], reconcileResult)
      | b # bs \<Rightarrow>
          if \<not> bi_Equal b txBlockInfo
          then ([txBlockInfo], reconcileResult\<lparr>cu_NewFork := True\<rparr>)
          else (case linkedPrefix txBlockInfo bs of
                  (l, rebuilt) \<Rightarrow>
                    (txBlockInfo # l,
                     if rebuilt then reconcileResult\<lparr>cu_Rebuilt := True\<rparr> else reconcileResult)))"

text \<open>The walk from the front of the canonical chain to the block after the last confirmation; the
  variable of the loop keeps the last block visited.\<close>

fun findNextInMemory ::
  "u64 \<Rightarrow> BlockInfoJSONRPC option \<Rightarrow> BlockInfoJSONRPC list \<Rightarrow> BlockInfoJSONRPC option" where
  "findNextInMemory lastNumber info [] = info"
| "findNextInMemory lastNumber info (b # bs) =
     (if bi_Number b \<ge> lastNumber + 1 then Some b
      else findNextInMemory lastNumber (Some b) bs)"

definition handleTargetCountMetWithEarlyList ::
  "BlockInfoJSONRPC list \<Rightarrow> u64 \<Rightarrow> ('bc, 'rc) blockListener \<Rightarrow>
   ConfirmationUpdateResult option result" where
  "handleTargetCountMetWithEarlyList existingConfirmations targetConfirmationCount s =
     (let lastExistingConfirmation = last existingConfirmations in
      case findNextInMemory (bi_Number lastExistingConfirmation) None (chainBlocks s) of
        None \<Rightarrow> Inr None
      | Some next \<Rightarrow>
          if bi_IsParentOf lastExistingConfirmation next then
            (if unat (targetConfirmationCount + 1) > length existingConfirmations
             then Inl PanicSliceBounds
             else Inr (Some (emptyConfirmationUpdateResult
                    \<lparr>cu_Confirmed := True,
                     cu_Confirmations := toMinimalBlockInfoList
                       (take (unat (targetConfirmationCount + 1)) existingConfirmations)\<rparr>)))
          else Inr None)"

section \<open>The late list\<close>

definition validateChainCaughtUp ::
  "BlockInfoJSONRPC \<Rightarrow> u64 \<Rightarrow> ('bc, 'rc) blockListener \<Rightarrow> unit result" where
  "validateChainCaughtUp txBlockInfo txBlockNumber s =
     (if canonicalChain s = [] \<or> bi_Number (el_val (last (canonicalChain s))) < txBlockNumber
      then Inl (MsgInMemoryPartialChainNotCaughtUp txBlockNumber (bi_Hash txBlockInfo))
      else Inr ())"

fun inMemoryConfirmations ::
  "u64 \<Rightarrow> u64 \<Rightarrow> BlockInfoJSONRPC list \<Rightarrow> BlockInfoJSONRPC list" where
  "inMemoryConfirmations txBlockNumber targetBlockNumber [] = []"
| "inMemoryConfirmations txBlockNumber targetBlockNumber (b # bs) =
     (if bi_Number b > targetBlockNumber then []
      else if bi_Number b \<le> txBlockNumber
      then inMemoryConfirmations txBlockNumber targetBlockNumber bs
      else b # inMemoryConfirmations txBlockNumber targetBlockNumber bs)"

definition buildConfirmationQueueUsingInMemoryPartialChain ::
  "BlockInfoJSONRPC \<Rightarrow> u64 \<Rightarrow> ('bc, 'rc) blockListener \<Rightarrow> BlockInfoJSONRPC list result" where
  "buildConfirmationQueueUsingInMemoryPartialChain txBlockInfo targetConfirmationCount s =
     (let txBlockNumber = bi_Number txBlockInfo;
          targetBlockNumber = bi_Number txBlockInfo + targetConfirmationCount in
      case validateChainCaughtUp txBlockInfo txBlockNumber s of
        Inl e \<Rightarrow> Inl e
      | Inr _ \<Rightarrow> Inr (inMemoryConfirmations txBlockNumber targetBlockNumber (chainBlocks s)))"

definition createLateList ::
  "('bc, 'rc) env \<Rightarrow> BlockInfoJSONRPC \<Rightarrow> u64 \<Rightarrow> ('bc, 'rc) blockListener \<Rightarrow>
   BlockInfoJSONRPC list result \<times> ('bc, 'rc) blockListener" where
  "createLateList E txBlockInfo targetConfirmationCount s =
     (case buildConfirmationQueueUsingInMemoryPartialChain txBlockInfo targetConfirmationCount s of
        Inl e \<Rightarrow> (Inl e, s)
      | Inr [] \<Rightarrow>
          (case GetBlockInfoByNumber E (bi_Number txBlockInfo + targetConfirmationCount)
                  False '''' '''' s of
             (Inl e, s1) \<Rightarrow> (Inl e, s1)
           | (Inr None, s1) \<Rightarrow> (Inl MsgBlockNotAvailable, s1)
           | (Inr (Some targetBlockInfo), s1) \<Rightarrow> (Inr [targetBlockInfo], s1))
      | Inr lateList \<Rightarrow> (Inr lateList, s))"

section \<open>The splice\<close>

record splice =
  earlyList :: "BlockInfoJSONRPC list"
  lateList :: "BlockInfoJSONRPC list"

definition newSplice ::
  "BlockInfoJSONRPC list \<Rightarrow> BlockInfoJSONRPC list \<Rightarrow> (splice \<times> bool) result" where
  "newSplice early late =
     (let txBlockNumber = bi_Number (hd early);
          firstLateBlockNumber = bi_Number (hd late) in
      if of_nat (length early) + txBlockNumber > firstLateBlockNumber then
        (let k = unat (firstLateBlockNumber - txBlockNumber) in
         if k > length early then Inl PanicSliceBounds
         else Inr (\<lparr>earlyList = take k early, lateList = late\<rparr>,
                   list_ex (\<lambda>(a, b). \<not> bi_Equal a b) (zip (drop k early) late)))
      else Inr (\<lparr>earlyList = early, lateList = late\<rparr>, False))"

definition hasGap :: "splice \<Rightarrow> bool" where
  "hasGap sp \<longleftrightarrow>
     earlyList sp \<noteq> [] \<and> lateList sp \<noteq> [] \<and>
     bi_Number (last (earlyList sp)) + 1 < bi_Number (hd (lateList sp))"

definition fillOneGap ::
  "('bc, 'rc) env \<Rightarrow> splice \<Rightarrow> ('bc, 'rc) blockListener \<Rightarrow>
   splice result \<times> ('bc, 'rc) blockListener" where
  "fillOneGap E sp s =
     (case GetBlockInfoByNumber E (bi_Number (hd (lateList sp)) - 1) False '''' '''' s of
        (Inl e, s1) \<Rightarrow> (Inl e, s1)
      | (Inr None, s1) \<Rightarrow> (Inl PanicNilDereference, s1)
      | (Inr (Some fetchedBlock), s1) \<Rightarrow>
          if \<not> bi_IsParentOf fetchedBlock (hd (lateList sp))
          then (Inl MsgFailedToBuildConfirmationQueue, s1)
          else (Inr (sp\<lparr>lateList := fetchedBlock # lateList sp\<rparr>), s1))"

definition removeBrokenLink :: "splice \<Rightarrow> splice" where
  "removeBrokenLink sp = sp\<lparr>earlyList := butlast (earlyList sp)\<rparr>"

definition toSingleLinkedList :: "splice \<Rightarrow> BlockInfoJSONRPC list option" where
  "toSingleLinkedList sp =
     (if bi_IsParentOf (last (earlyList sp)) (hd (lateList sp))
      then Some (earlyList sp @ lateList sp) else None)"

text \<open>The inner loop: the number of the first block of the late list goes down.\<close>

function fillGaps ::
  "('bc, 'rc) env \<Rightarrow> splice \<Rightarrow> ('bc, 'rc) blockListener \<Rightarrow>
   splice result \<times> ('bc, 'rc) blockListener" where
  "fillGaps E sp s =
     (if hasGap sp then
        (case fillOneGap E sp s of
           (Inl e, s1) \<Rightarrow> (Inl e, s1)
         | (Inr sp1, s1) \<Rightarrow> fillGaps E sp1 s1)
      else (Inr sp, s))"
  by pat_completeness auto

lemma fillOneGap_result:
  assumes "fillOneGap E sp s = (Inr sp1, s1)"
  obtains b where "GetBlockInfoByNumber E (bi_Number (hd (lateList sp)) - 1) False '''' '''' s =
      (Inr (Some b), s1)" "bi_IsParentOf b (hd (lateList sp))"
    "sp1 = sp\<lparr>lateList := b # lateList sp\<rparr>"
  using assms by (auto simp: fillOneGap_def split: prod.splits sum.splits option.splits if_splits)

lemma hasGap_parent_less:
  assumes "hasGap sp" and "bi_IsParentOf b (hd (lateList sp))"
  shows "unat (bi_Number b) < unat (bi_Number (hd (lateList sp)))"
proof -
  let ?n = "bi_Number (hd (lateList sp))"
  have "?n \<noteq> 0" using assms(1) by (auto simp: hasGap_def)
  moreover have "bi_Number b = ?n - 1" using bi_IsParentOf_number [OF assms(2)] by simp
  ultimately show ?thesis by (simp add: unat_u64_pred unat_gt_0)
qed

termination fillGaps
  by (relation "measure (\<lambda>(E, sp, s). unat (bi_Number (hd (lateList sp))))")
     (auto dest!: sym [of "(Inr _, _)"] elim!: fillOneGap_result simp: hasGap_parent_less)

declare fillGaps.simps [simp del]

text \<open>What every pass keeps, the loop keeps; and it ends without a gap.\<close>

lemma fillGaps_invariant:
  assumes step: "\<And>sp s sp1 s1. I sp s \<Longrightarrow> hasGap sp \<Longrightarrow> fillOneGap E sp s = (Inr sp1, s1) \<Longrightarrow> I sp1 s1"
    and "I sp s" and "fillGaps E sp s = (Inr sp', s')"
  shows "I sp' s' \<and> \<not> hasGap sp'"
  using assms
proof (induction E sp s rule: fillGaps.induct)
  case (1 E sp s)
  note run = "1.prems"(3) [unfolded fillGaps.simps [of E sp s]]
  show ?case
  proof (cases "hasGap sp")
    case False
    with run "1.prems"(2) show ?thesis by simp
  next
    case True
    with run obtain sp1 s1 where fill: "fillOneGap E sp s = (Inr sp1, s1)"
      and rest: "fillGaps E sp1 s1 = (Inr sp', s')"
      by (auto split: prod.splits sum.splits)
    from "1.IH" [OF True fill [symmetric] refl "1.prems"(1) "1.prems"(1) [OF "1.prems"(2) True fill] rest]
    show ?thesis .
  qed
qed

lemma fillGaps_early: "fillGaps E sp s = (Inr sp', s') \<Longrightarrow> earlyList sp' = earlyList sp"
  by (rule fillGaps_invariant [where I = "\<lambda>t s. earlyList t = earlyList sp", THEN conjunct1])
     (auto elim!: fillOneGap_result)

text \<open>The outer loop: the early list gets shorter.\<close>

function linkLists ::
  "('bc, 'rc) env \<Rightarrow> splice \<Rightarrow> bool \<Rightarrow> ('bc, 'rc) blockListener \<Rightarrow>
   (BlockInfoJSONRPC list \<times> bool) result \<times> ('bc, 'rc) blockListener" where
  "linkLists E sp newFork s =
     (if earlyList sp = [] then (Inl MsgFailedToBuildConfirmationQueue, s)
      else
        (case fillGaps E sp s of
           (Inl e, s1) \<Rightarrow> (Inl e, s1)
         | (Inr sp1, s1) \<Rightarrow>
             (case toSingleLinkedList sp1 of
                Some confirmations \<Rightarrow> (Inr (confirmations, newFork), s1)
              | None \<Rightarrow> linkLists E (removeBrokenLink sp1) True s1)))"
  by pat_completeness auto

termination linkLists
  by (relation "measure (\<lambda>(E, sp, f, s). length (earlyList sp))")
     (auto simp: removeBrokenLink_def dest!: sym [THEN fillGaps_early])

declare linkLists.simps [simp del]

section \<open>The confirmations of a transaction\<close>

definition confirmedFlag :: "u64 \<Rightarrow> ConfirmationUpdateResult \<Rightarrow> ConfirmationUpdateResult" where
  "confirmedFlag targetConfirmationCount r =
     r\<lparr>cu_Confirmed := of_nat (length (cu_Confirmations r)) > targetConfirmationCount\<rparr>"

definition buildConfirmationList ::
  "('bc, 'rc) env \<Rightarrow> BlockInfoJSONRPC list \<Rightarrow> BlockInfoJSONRPC \<Rightarrow> u64 \<Rightarrow>
   ('bc, 'rc) blockListener \<Rightarrow> ConfirmationUpdateResult result \<times> ('bc, 'rc) blockListener" where
  "buildConfirmationList E existingConfirmations txBlockInfo targetConfirmationCount s =
     (case createPreSpliceEarlyList existingConfirmations txBlockInfo
             emptyConfirmationUpdateResult of
        (early, reconcileResult) \<Rightarrow>
          (case (if bi_Number (last early) \<ge> bi_Number txBlockInfo + targetConfirmationCount
                 then handleTargetCountMetWithEarlyList early targetConfirmationCount s
                 else Inr None) of
             Inl e \<Rightarrow> (Inl e, s)
           | Inr (Some r) \<Rightarrow> (Inr r, s)
           | Inr None \<Rightarrow>
               (case createLateList E txBlockInfo targetConfirmationCount s of
                  (Inl e, s1) \<Rightarrow> (Inl e, s1)
                | (Inr late, s1) \<Rightarrow>
                    (case newSplice early late of
                       Inl e \<Rightarrow> (Inl e, s1)
                     | Inr (sp, detectedFork) \<Rightarrow>
                         (case linkLists E sp (cu_NewFork reconcileResult \<or> detectedFork) s1 of
                            (Inl e, s2) \<Rightarrow> (Inl e, s2)
                          | (Inr (confirmations, newFork), s2) \<Rightarrow>
                              (Inr (confirmedFlag targetConfirmationCount
                                 (reconcileResult
                                    \<lparr>cu_NewFork := newFork,
                                     cu_Confirmations := toMinimalBlockInfoList confirmations\<rparr>)),
                               s2))))))"

definition lightModeResult ::
  "string \<Rightarrow> u64 \<Rightarrow> TxReceiptJSONRPC \<Rightarrow> ('bc, 'rc) blockListener \<Rightarrow>
   ConfirmationUpdateResult result" where
  "lightModeResult txHash targetConfirmationCount txReceipt s =
     (let chainHead = GetHeadBlockNumber s in
      if chainHead < rc_BlockNumber txReceipt
      then Inl (MsgTransactionNotIncludedInChainHead txHash chainHead (rc_BlockNumber txReceipt))
      else
        (let distance = chainHead - rc_BlockNumber txReceipt;
             currentConfirmationCount =
               (if distance > targetConfirmationCount then targetConfirmationCount else distance) in
         Inr (emptyConfirmationUpdateResult
           \<lparr>cu_Confirmed := (currentConfirmationCount = targetConfirmationCount),
            cu_CurrentConfirmationCount := currentConfirmationCount,
            cu_TargetConfirmationCount := targetConfirmationCount\<rparr>)))"

definition ReconcileConfirmationsForTransaction ::
  "('bc, 'rc) env \<Rightarrow> string \<Rightarrow> MinimalBlockInfo list \<Rightarrow> u64 \<Rightarrow> ('bc, 'rc) blockListener \<Rightarrow>
   (ConfirmationUpdateResult \<times> TxReceiptJSONRPC option) result \<times> ('bc, 'rc) blockListener" where
  "ReconcileConfirmationsForTransaction E txHash existingConfirmations targetConfirmationCount s =
     (if targetConfirmationCount = 0 then
        (case GetTransactionReceipt E txHash s of
           (Inl e, s1) \<Rightarrow> (Inl e, s1)
         | (Inr None, s1) \<Rightarrow> (Inr (emptyConfirmationUpdateResult, None), s1)
         | (Inr (Some r), s1) \<Rightarrow>
             (Inr (emptyConfirmationUpdateResult\<lparr>cu_Confirmed := True\<rparr>, Some r), s1))
      else if cfg_ChainTrackingMode (conf s) = ChainTrackingModeLight then
        (case GetTransactionReceipt E txHash s of
           (Inl e, s1) \<Rightarrow> (Inl e, s1)
         | (Inr None, s1) \<Rightarrow>
             (Inr (emptyConfirmationUpdateResult
                     \<lparr>cu_TargetConfirmationCount := targetConfirmationCount\<rparr>, None), s1)
         | (Inr (Some r), s1) \<Rightarrow>
             (case lightModeResult txHash targetConfirmationCount r s1 of
                Inl e \<Rightarrow> (Inl e, s1)
              | Inr u \<Rightarrow> (Inr (u, Some r), s1)))
      else
        (case getReceiptAndBlock E txHash s of
           (Inl e, s1) \<Rightarrow> (Inl e, s1)
         | (Inr None, s1) \<Rightarrow> (Inl (MsgTransactionNotFound txHash), s1)
         | (Inr (Some (txBlockInfo, txReceipt)), s1) \<Rightarrow>
             (case buildConfirmationList E (toBlockInfoList existingConfirmations) txBlockInfo
                     targetConfirmationCount s1 of
                (Inl e, s2) \<Rightarrow> (Inl e, s2)
              | (Inr r, s2) \<Rightarrow>
                  (Inr (r\<lparr>cu_TargetConfirmationCount := targetConfirmationCount,
                           cu_CurrentConfirmationCount :=
                             of_nat (length (cu_Confirmations r)) - 1,
                           cu_TxnBlockTimestamp := Some (bi_Timestamp txBlockInfo)\<rparr>,
                        Some txReceipt), s2))))"

end
