(* ===== verification/ConfirmationProofs.thy ===== *)
theory ConfirmationProofs
  imports Confirmations
begin

text \<open>
  Correctness of the confirmation list: its shape (it links, it starts with the block of the
  transaction, it never exceeds the target and is confirmed exactly when it reaches it) and its
  soundness (its blocks are the blocks of the node). The block numbers are assumed not to wrap:
  the number of the transaction's block, the target and the length of the existing list add up to
  less than \<open>2 ^ 64\<close>.
\<close>

section \<open>Numbers of a linked list\<close>

lemma linked_unat:
  assumes "linked bs" and "unat (bi_Number (hd bs)) + length bs \<le> 2 ^ 64" and "i < length bs"
  shows "unat (bi_Number (bs ! i)) = unat (bi_Number (hd bs)) + i"
proof -
  have "bi_Number (bs ! i) = word_of_nat (unat (bi_Number (hd bs)) + i)"
    using linked_nth_number [OF assms(1,3)] by simp
  moreover have "unat (bi_Number (hd bs)) + i < 2 ^ 64" using assms(2,3) by simp
  ultimately show ?thesis by (simp add: unat_of_nat take_bit_nat_eq_self del: of_nat_add)
qed

lemma linked_unat_bounded:
  assumes "linked bs" and "\<forall>b \<in> set bs. bi_Number b \<le> T" and "T + 1 \<noteq> 0" and "i < length bs"
  shows "unat (bi_Number (bs ! i)) = unat (bi_Number (hd bs)) + i"
  using assms(4)
proof (induction i)
  case 0
  then show ?case by (simp add: hd_conv_nth)
next
  case (Suc i)
  then have "bi_Number (bs ! Suc i) = bi_Number (bs ! i) + 1"
    using successively_nth [OF assms(1), of i] by (auto dest: bi_IsParentOf_number)
  moreover have "bi_Number (bs ! i) \<le> T" using assms(2) Suc.prems by simp
  ultimately have "unat (bi_Number (bs ! Suc i)) = Suc (unat (bi_Number (bs ! i)))"
    using unat_u64_next [OF _ assms(3)] by metis
  with Suc show ?case by simp
qed

section \<open>The early list\<close>

lemma linkedPrefix_linked: "linked (prev # fst (linkedPrefix prev bs))"
  by (induction prev bs rule: linkedPrefix.induct) (auto split: prod.split)

lemma linkedPrefix_subset:
  "set (fst (linkedPrefix prev bs)) \<subseteq> set bs \<and> length (fst (linkedPrefix prev bs)) \<le> length bs"
  by (induction prev bs rule: linkedPrefix.induct) (auto split: prod.split)

definition early_ok :: "BlockInfoJSONRPC list \<Rightarrow> BlockInfoJSONRPC \<Rightarrow> BlockInfoJSONRPC list \<Rightarrow> bool" where
  "early_ok existing tx early \<longleftrightarrow>
     early \<noteq> [] \<and> hd early = tx \<and> linked early \<and> set early \<subseteq> insert tx (set existing) \<and>
     length early \<le> length existing + 1"

lemma createPreSpliceEarlyList_ok:
  assumes "createPreSpliceEarlyList existing tx r0 = (early, r)"
  shows "early_ok existing tx early \<and> cu_Confirmations r = cu_Confirmations r0"
proof (cases existing)
  case Nil
  with assms show ?thesis by (auto simp: createPreSpliceEarlyList_def early_ok_def)
next
  case (Cons b bs)
  obtain l f where l: "linkedPrefix tx bs = (l, f)" by fastforce
  with linkedPrefix_linked [of tx bs] linkedPrefix_subset [of tx bs] assms Cons show ?thesis
    by (auto simp: createPreSpliceEarlyList_def early_ok_def split: if_splits)
qed

lemma early_ok_unat:
  assumes "early_ok existing tx early" and "unat (bi_Number tx) + length existing + 1 < 2 ^ 64"
    and "i < length early"
  shows "unat (bi_Number (early ! i)) = unat (bi_Number tx) + i"
  using assms linked_unat [of early i] by (simp add: early_ok_def)

lemma early_ok_last:
  assumes "early_ok existing tx early" and "unat (bi_Number tx) + length existing + 1 < 2 ^ 64"
  shows "unat (bi_Number (last early)) + 1 = unat (bi_Number tx) + length early"
  using assms early_ok_unat [OF assms, of "length early - 1"]
  by (auto simp: early_ok_def last_conv_nth Suc_leI)

lemma early_ok_take:
  assumes "early_ok existing tx early" and "0 < k"
  shows "early_ok existing tx (take k early)"
proof -
  have "hd (take k early) = hd early" using assms(2) by (cases early) (auto simp: take_Cons')
  then show ?thesis
    using assms by (auto simp: early_ok_def successively_take dest: in_set_takeD)
qed

section \<open>The late list\<close>

lemma inMemoryConfirmations_filter:
  "inMemoryConfirmations t g bs = filter (\<lambda>b. t < bi_Number b) (takeWhile (\<lambda>b. bi_Number b \<le> g) bs)"
  by (induction t g bs rule: inMemoryConfirmations.induct) (auto simp: not_le)

lemma linked_increasing:
  assumes "linked (b # bs)" and "\<forall>x \<in> set (b # bs). bi_Number x + 1 \<noteq> 0"
  shows "\<forall>x \<in> set bs. bi_Number b < bi_Number x"
  using assms
proof (induction bs arbitrary: b)
  case (Cons c cs)
  then have c: "bi_Number c = bi_Number b + 1" and lk: "linked (c # cs)"
    by (auto dest: bi_IsParentOf_number)
  from c Cons.prems have bc: "bi_Number b < bi_Number c"
    by (simp add: u64_less_unat unat_u64_Suc)
  have "\<forall>x \<in> set cs. bi_Number c < bi_Number x" using Cons.prems by (intro Cons.IH [OF lk]) simp
  with bc show ?case by (auto intro: less_trans)
qed simp

lemma linked_filter_dropWhile:
  assumes "linked bs" and "\<forall>b \<in> set bs. bi_Number b + 1 \<noteq> 0"
  shows "filter (\<lambda>b. t < bi_Number b) bs = dropWhile (\<lambda>b. \<not> t < bi_Number b) bs"
  using assms
proof (induction bs)
  case (Cons b bs)
  have "filter (\<lambda>x. t < bi_Number x) bs = bs" if "t < bi_Number b"
    using linked_increasing [OF Cons.prems] that by (auto simp: filter_id_conv)
  with Cons show ?case by (cases bs) auto
qed simp

lemma linked_filter_takeWhile:
  assumes "linked bs" and "\<forall>b \<in> set bs. bi_Number b + 1 \<noteq> 0"
  shows "filter (\<lambda>b. bi_Number b \<le> t) bs = takeWhile (\<lambda>b. bi_Number b \<le> t) bs"
  using assms
proof (induction bs)
  case (Cons b bs)
  have "filter (\<lambda>x. bi_Number x \<le> t) bs = []" if "\<not> bi_Number b \<le> t"
    using linked_increasing [OF Cons.prems] that by (auto simp: filter_empty_conv)
  with Cons show ?case by (cases bs) auto
qed simp

lemma successively_dropWhile: "successively P xs \<Longrightarrow> successively P (dropWhile Q xs)"
  by (metis dropWhile_eq_drop successively_drop)

lemma successively_takeWhile: "successively P xs \<Longrightarrow> successively P (takeWhile Q xs)"
  by (metis takeWhile_eq_take successively_take)

definition late_ok :: "u64 \<Rightarrow> u64 \<Rightarrow> BlockInfoJSONRPC list \<Rightarrow> bool" where
  "late_ok lo hi late \<longleftrightarrow>
     late \<noteq> [] \<and> linked late \<and> (\<forall>b \<in> set late. lo < bi_Number b \<and> bi_Number b \<le> hi)"

lemma inMemoryConfirmations_ok:
  assumes "linked bs" and "\<forall>b \<in> set bs. bi_Number b + 1 \<noteq> 0"
  shows "linked (inMemoryConfirmations t g bs)"
    and "set (inMemoryConfirmations t g bs) = {b \<in> set bs. t < bi_Number b \<and> bi_Number b \<le> g}"
proof -
  let ?tw = "takeWhile (\<lambda>b. bi_Number b \<le> g) bs"
  have "linked ?tw" "\<forall>b \<in> set ?tw. bi_Number b + 1 \<noteq> 0"
    using assms by (auto simp: successively_takeWhile dest: set_takeWhileD)
  then show "linked (inMemoryConfirmations t g bs)"
    by (simp add: inMemoryConfirmations_filter linked_filter_dropWhile successively_dropWhile)
  show "set (inMemoryConfirmations t g bs) = {b \<in> set bs. t < bi_Number b \<and> bi_Number b \<le> g}"
    using linked_filter_takeWhile [OF assms, of g, symmetric]
    by (auto simp: inMemoryConfirmations_filter)
qed

text \<open>The blocks a query without the cache can return.\<close>

definition fetchable :: "('bc, 'rc) env \<Rightarrow> BlockInfoJSONRPC \<Rightarrow> bool" where
  "fetchable E b \<longleftrightarrow> (\<exists>n s s'. GetBlockInfoByNumber E n False '''' '''' s = (Inr (Some b), s'))"

lemma createLateList_ok:
  assumes node: "node_answers E" and ch: "chain_ok s" "\<forall>b \<in> set (chainBlocks s). bi_Number b + 1 \<noteq> 0"
    and g: "unat (bi_Number tx) + unat target < 2 ^ 64" "target \<noteq> 0"
    and run: "createLateList E tx target s = (Inr late, s')"
  shows "late_ok (bi_Number tx) (bi_Number tx + target) late \<and>
    (\<forall>b \<in> set late. b \<in> set (chainBlocks s) \<or> fetchable E b)"
proof -
  let ?im = "inMemoryConfirmations (bi_Number tx) (bi_Number tx + target) (chainBlocks s)"
  have lt: "bi_Number tx < bi_Number tx + target"
    using g by (simp add: u64_less_unat unat_word_ariths unat_gt_0)
  have build: "buildConfirmationQueueUsingInMemoryPartialChain tx target s \<in> range Inl \<union> {Inr ?im}"
    by (auto simp: buildConfirmationQueueUsingInMemoryPartialChain_def Let_def split: sum.split)
  have cases: "(?im \<noteq> [] \<and> late = ?im) \<or>
    (\<exists>b t. GetBlockInfoByNumber E (bi_Number tx + target) False '''' '''' s = (Inr (Some b), t) \<and>
       late = [b])"
  proof (cases ?im)
    case Nil
    with run build show ?thesis
      by (auto simp: createLateList_def split: sum.split_asm prod.split_asm option.split_asm)
  next
    case (Cons c cs)
    with run build show ?thesis by (auto simp: createLateList_def)
  qed
  from cases show ?thesis
  proof
    assume "?im \<noteq> [] \<and> late = ?im"
    moreover have "linked (chainBlocks s)" using ch(1) by (simp add: chain_ok_def)
    note im = inMemoryConfirmations_ok [OF this ch(2), of "bi_Number tx" "bi_Number tx + target"]
    ultimately show ?thesis using im by (simp add: late_ok_def)
  next
    assume "\<exists>b t. GetBlockInfoByNumber E (bi_Number tx + target) False '''' '''' s =
        (Inr (Some b), t) \<and> late = [b]"
    then obtain b t where q: "GetBlockInfoByNumber E (bi_Number tx + target) False '''' '''' s =
        (Inr (Some b), t)" and late: "late = [b]" by blast
    from GetBlockInfoByNumber_answer [OF node q] lt q late show ?thesis
      by (auto simp: late_ok_def fetchable_def)
  qed
qed


section \<open>The splice\<close>

definition trusted :: "('bc, 'rc) env \<Rightarrow> BlockInfoJSONRPC list \<Rightarrow> BlockInfoJSONRPC \<Rightarrow> bool" where
  "trusted E chain b \<longleftrightarrow> b \<in> set chain \<or> fetchable E b"

definition splice_ok ::
  "(BlockInfoJSONRPC \<Rightarrow> bool) \<Rightarrow> BlockInfoJSONRPC list \<Rightarrow> BlockInfoJSONRPC \<Rightarrow> u64 \<Rightarrow> splice \<Rightarrow> bool"
  where
  "splice_ok P existing tx hi sp \<longleftrightarrow>
     (earlyList sp = [] \<or> early_ok existing tx (earlyList sp)) \<and>
     late_ok (bi_Number tx) hi (lateList sp) \<and> (\<forall>b \<in> set (lateList sp). P b) \<and>
     (earlyList sp \<noteq> [] \<longrightarrow> bi_Number (last (earlyList sp)) < bi_Number (hd (lateList sp)))"

lemma newSplice_ok:
  assumes early: "early_ok existing tx early" and late: "late_ok (bi_Number tx) hi late"
    and P: "\<forall>b \<in> set late. P b" and nw: "unat (bi_Number tx) + length existing + 1 < 2 ^ 64"
  shows "\<exists>sp f. newSplice early late = Inr (sp, f) \<and> splice_ok P existing tx hi sp \<and>
    earlyList sp \<noteq> [] \<and> lateList sp = late"
proof -
  let ?t = "bi_Number tx" and ?l = "bi_Number (hd late)"
  from early have hd: "hd early = tx" and len: "length early \<le> length existing + 1"
    by (simp_all add: early_ok_def)
  have lt: "unat ?t < unat ?l" using late by (simp add: late_ok_def u64_less_unat)
  have sum: "unat (of_nat (length early) + ?t :: u64) = length early + unat ?t"
    using nw len by (simp add: unat_word_ariths unat_of_nat take_bit_nat_eq_self mod_less)
  show ?thesis
  proof (cases "of_nat (length early) + ?t > ?l")
    case False
    with hd have sp: "newSplice early late = Inr (\<lparr>earlyList = early, lateList = late\<rparr>, False)"
      by (simp add: newSplice_def Let_def)
    from False sum early_ok_last [OF early nw]
    have "bi_Number (last early) < ?l" by (simp add: u64_less_unat)
    with early late P show ?thesis by (auto simp: splice_ok_def sp early_ok_def)
  next
    case True
    let ?k = "unat (?l - ?t)"
    have k: "?k = unat ?l - unat ?t" using lt by (simp add: unat_sub u64_le_unat)
    with True sum lt have k': "?k \<le> length early" "0 < ?k" by (simp_all add: u64_less_unat)
    with True hd obtain f where
      sp: "newSplice early late = Inr (\<lparr>earlyList = take ?k early, lateList = late\<rparr>, f)"
      by (simp add: newSplice_def Let_def)
    have ok: "early_ok existing tx (take ?k early)" using early k'(2) by (rule early_ok_take)
    from early_ok_last [OF ok nw] k k' lt have "bi_Number (last (take ?k early)) < ?l"
      by (simp add: u64_less_unat)
    with ok late P show ?thesis by (auto simp: splice_ok_def sp early_ok_def)
  qed
qed

lemma fillOneGap_splice_ok:
  assumes ok: "splice_ok P existing tx hi sp" and gap: "hasGap sp"
    and P: "\<And>b. fetchable E b \<Longrightarrow> P b" and fill: "fillOneGap E sp s = (Inr sp1, s1)"
    and nw: "unat (bi_Number tx) + length existing + 1 < 2 ^ 64"
  shows "splice_ok P existing tx hi sp1"
proof -
  let ?l = "bi_Number (hd (lateList sp))" and ?e = "bi_Number (last (earlyList sp))"
  from fill obtain b where q: "GetBlockInfoByNumber E (?l - 1) False '''' '''' s = (Inr (Some b), s1)"
    and par: "bi_IsParentOf b (hd (lateList sp))" and sp1: "sp1 = sp\<lparr>lateList := b # lateList sp\<rparr>"
    by (rule fillOneGap_result)
  from q P have Pb: "P b" by (auto simp: fetchable_def)
  from gap have ne: "earlyList sp \<noteq> []" "lateList sp \<noteq> []" and g: "?e + 1 < ?l"
    by (simp_all add: hasGap_def)
  with ok have early: "early_ok existing tx (earlyList sp)" and el: "?e < ?l"
    and late: "late_ok (bi_Number tx) hi (lateList sp)" by (simp_all add: splice_ok_def)
  from el have e1: "unat (?e + 1) = unat ?e + 1" by (rule unat_u64_succ)
  have b: "unat (bi_Number b) = unat ?l - 1"
    using bi_IsParentOf_number [OF par] g by (subst unat_u64_pred [symmetric]) auto
  have "unat (bi_Number tx) \<le> unat ?e"
    using early_ok_last [OF early nw] ne by (cases "earlyList sp") auto
  with g e1 b have "unat (bi_Number tx) < unat (bi_Number b)" "unat ?e < unat (bi_Number b)"
    by (simp_all add: u64_less_unat)
  moreover have "unat (bi_Number b) \<le> unat hi"
    using late ne b by (auto simp: late_ok_def u64_le_unat dest!: bspec [of _ _ "hd (lateList sp)"])
  moreover have "linked (b # lateList sp)"
    using par late ne by (cases "lateList sp") (auto simp: late_ok_def)
  ultimately show ?thesis
    using ok Pb early ne by (simp add: splice_ok_def late_ok_def sp1 u64_less_unat u64_le_unat)
qed

lemma fillGaps_splice_ok:
  assumes "splice_ok P existing tx hi sp" and "\<And>b. fetchable E b \<Longrightarrow> P b"
    and "unat (bi_Number tx) + length existing + 1 < 2 ^ 64"
    and "fillGaps E sp s = (Inr sp', s')"
  shows "splice_ok P existing tx hi sp'"
proof (rule fillGaps_invariant [where I = "\<lambda>sp s. splice_ok P existing tx hi sp",
      OF _ assms(1,4), THEN conjunct1])
  fix sp s sp1 s1
  assume "splice_ok P existing tx hi sp" and "hasGap sp" and "fillOneGap E sp s = (Inr sp1, s1)"
  then show "splice_ok P existing tx hi sp1"
    using assms(2,3) fillOneGap_splice_ok [of P existing tx hi sp E s sp1 s1] by blast
qed

lemma removeBrokenLink_splice_ok:
  assumes ok: "splice_ok P existing tx hi sp"
    and nw: "unat (bi_Number tx) + length existing + 1 < 2 ^ 64"
  shows "splice_ok P existing tx hi (removeBrokenLink sp)"
proof (cases "butlast (earlyList sp) = []")
  case True
  with ok show ?thesis by (simp add: splice_ok_def removeBrokenLink_def)
next
  case False
  then have early: "early_ok existing tx (earlyList sp)" using ok by (auto simp: splice_ok_def)
  let ?e = "earlyList sp"
  have k: "0 < length ?e - 1" using False by (cases ?e rule: rev_cases) auto
  have bl: "butlast ?e = take (length ?e - 1) ?e" by (rule butlast_conv_take)
  have ok': "early_ok existing tx (butlast ?e)" unfolding bl using early k by (rule early_ok_take)
  have "unat (bi_Number (last (butlast ?e))) + 1 \<le> unat (bi_Number (last ?e))"
    using early_ok_last [OF ok' nw] early_ok_last [OF early nw] k by simp
  with ok ok' early k show ?thesis
    by (auto simp: splice_ok_def removeBrokenLink_def u64_less_unat)
qed

section \<open>The linked list\<close>

definition confirmation_list ::
  "(BlockInfoJSONRPC \<Rightarrow> bool) \<Rightarrow> BlockInfoJSONRPC list \<Rightarrow> BlockInfoJSONRPC \<Rightarrow>
   BlockInfoJSONRPC list \<Rightarrow> bool" where
  "confirmation_list P existing tx cs \<longleftrightarrow>
     cs \<noteq> [] \<and> hd cs = tx \<and> linked cs \<and> P (last cs) \<and>
     (\<forall>x \<in> set cs. x = tx \<or> x \<in> set existing \<or> P x) \<and>
     (\<forall>i < length cs. unat (bi_Number (cs ! i)) = unat (bi_Number tx) + i)"

lemma toSingleLinkedList_list:
  assumes ok: "splice_ok P existing tx hi sp" and ne: "earlyList sp \<noteq> []"
    and hi: "hi + 1 \<noteq> 0" and cs: "toSingleLinkedList sp = Some cs"
    and nw: "unat (bi_Number tx) + length existing + 1 < 2 ^ 64"
  shows "confirmation_list P existing tx cs \<and> bi_Number (last cs) \<le> hi"
proof -
  let ?e = "earlyList sp" and ?l = "lateList sp"
  from cs have par: "bi_IsParentOf (last ?e) (hd ?l)" and cs: "cs = ?e @ ?l"
    by (auto simp: toSingleLinkedList_def split: if_splits)
  from ok ne have early: "early_ok existing tx ?e" and late: "late_ok (bi_Number tx) hi ?l"
    and P: "\<forall>b \<in> set ?l. P b" and el: "bi_Number (last ?e) < bi_Number (hd ?l)"
    by (simp_all add: splice_ok_def)
  from early late par have lk: "linked cs"
    by (auto simp: cs successively_append_iff early_ok_def late_ok_def)
  have hdl: "bi_Number (hd ?l) \<le> hi" using late by (simp add: late_ok_def)
  have "bi_Number b \<le> hi" if "b \<in> set ?e" for b
  proof -
    from that obtain i where i: "i < length ?e" "b = ?e ! i" by (metis in_set_conv_nth)
    with early_ok_unat [OF early nw i(1)] early_ok_last [OF early nw] el hdl show ?thesis
      by (simp add: u64_le_unat u64_less_unat)
  qed
  then have all: "\<forall>b \<in> set cs. bi_Number b \<le> hi" using late by (auto simp: cs late_ok_def)
  have hd: "hd cs = tx" using ne early by (simp add: cs early_ok_def)
  have lst: "last cs \<in> set ?l" using late by (simp add: cs late_ok_def)
  from linked_unat_bounded [OF lk all hi] hd lk lst P early ne
  have "confirmation_list P existing tx cs"
    by (auto simp: confirmation_list_def cs early_ok_def)
  moreover have "last cs \<in> set cs" using ne cs by (intro last_in_set) simp
  ultimately show ?thesis using all by blast
qed

lemma linkLists_list:
  assumes "splice_ok P existing tx hi sp" and P: "\<And>b. fetchable E b \<Longrightarrow> P b"
    and hi: "hi + 1 \<noteq> 0" and nw: "unat (bi_Number tx) + length existing + 1 < 2 ^ 64"
    and "linkLists E sp f s = (Inr (cs, f'), s')"
  shows "confirmation_list P existing tx cs \<and> bi_Number (last cs) \<le> hi"
  using assms
proof (induction E sp f s rule: linkLists.induct)
  case (1 E sp f s)
  note run = "1.prems"(5) [unfolded linkLists.simps [of E sp f s]]
  from run have ne: "earlyList sp \<noteq> []" by (auto split: if_splits)
  with run obtain sp1 s1 where fill: "fillGaps E sp s = (Inr sp1, s1)"
    by (auto split: prod.splits sum.splits)
  have ok1: "splice_ok P existing tx hi sp1"
    by (rule fillGaps_splice_ok [OF "1.prems"(1,2,4) fill])
  have ne1: "earlyList sp1 \<noteq> []" using fillGaps_early [OF fill] ne by simp
  show ?case
  proof (cases "toSingleLinkedList sp1")
    case (Some l)
    with run ne fill have "l = cs" by simp
    with toSingleLinkedList_list [OF ok1 ne1 hi Some nw] show ?thesis by simp
  next
    case None
    with run ne fill have "linkLists E (removeBrokenLink sp1) True s1 = (Inr (cs, f'), s')" by simp
    from "1.IH" [OF ne fill [symmetric] refl None removeBrokenLink_splice_ok [OF ok1 nw]
        "1.prems"(2) hi nw this]
    show ?thesis .
  qed
qed


section \<open>What is returned\<close>

text \<open>The returned list, with the block it was checked against when the early list was enough.\<close>

definition build_ok ::
  "(BlockInfoJSONRPC \<Rightarrow> bool) \<Rightarrow> BlockInfoJSONRPC list \<Rightarrow> BlockInfoJSONRPC \<Rightarrow> u64 \<Rightarrow>
   ConfirmationUpdateResult \<Rightarrow> bool" where
  "build_ok P existing tx target r \<longleftrightarrow>
     (\<exists>cs rest. cu_Confirmations r = map ToMinimalBlockInfo cs \<and> cs \<noteq> [] \<and>
        confirmation_list P existing tx (cs @ rest) \<and>
        length cs \<le> unat target + 1 \<and> (cu_Confirmed r \<longleftrightarrow> length cs = unat target + 1))"

lemma build_ok_confirmed:
  "build_ok P existing tx target r \<Longrightarrow>
     cu_Confirmed r \<longleftrightarrow> length (cu_Confirmations r) = unat target + 1"
  by (auto simp: build_ok_def)

lemma findNextInMemory_in:
  "findNextInMemory n info bs = Some b \<Longrightarrow> b \<in> set bs \<or> info = Some b"
  by (induction n info bs rule: findNextInMemory.induct) (auto split: if_splits)

lemma early_target_met:
  assumes early: "early_ok existing tx early"
    and nw: "unat (bi_Number tx) + unat target + length existing + 2 < 2 ^ 64"
    and met: "bi_Number (last early) \<ge> bi_Number tx + target"
  shows "unat (target + 1) = unat target + 1" and "unat target + 1 \<le> length early"
proof -
  show "unat (target + 1) = unat target + 1" using nw by (simp add: unat_word_ariths)
  have "unat (bi_Number tx + target) = unat (bi_Number tx) + unat target" using nw
    by (simp add: unat_word_ariths)
  with met early_ok_last [OF early] nw show "unat target + 1 \<le> length early"
    by (simp add: u64_le_unat)
qed

lemma handleTargetCountMet_ok:
  assumes early: "early_ok existing tx early" and P: "\<forall>b \<in> set (chainBlocks s). P b"
    and nw: "unat (bi_Number tx) + unat target + length existing + 2 < 2 ^ 64"
    and met: "bi_Number (last early) \<ge> bi_Number tx + target"
    and run: "handleTargetCountMetWithEarlyList early target s = Inr (Some r)"
  shows "build_ok P existing tx target r"
proof -
  have nw': "unat (bi_Number tx) + length existing + 1 < 2 ^ 64" using nw by simp
  from run obtain b where b: "findNextInMemory (bi_Number (last early)) None (chainBlocks s) = Some b"
    and par: "bi_IsParentOf (last early) b"
    and r: "cu_Confirmed r" "cu_Confirmations r =
      map ToMinimalBlockInfo (take (unat (target + 1)) early)"
    by (auto simp: handleTargetCountMetWithEarlyList_def Let_def toMinimalBlockInfoList_def
        split: option.splits if_splits)
  let ?n = "unat target + 1"
  note t1 = early_target_met(1) [OF early nw met] and len = early_target_met(2) [OF early nw met]
  have lk: "linked (early @ [b])" and hd: "hd (early @ [b]) = tx" and ne: "early \<noteq> []"
    using early par by (auto simp: successively_append_iff early_ok_def)
  have Pb: "P b" using findNextInMemory_in [OF b] P by simp
  have split: "early @ [b] = take ?n early @ (drop ?n early @ [b])" by simp
  have "unat (bi_Number ((early @ [b]) ! i)) = unat (bi_Number tx) + i"
    if "i < length (early @ [b])" for i
    using linked_unat [OF lk _ that] hd nw early by (simp add: early_ok_def)
  with lk hd ne Pb early have "confirmation_list P existing tx (early @ [b])"
    by (auto simp: confirmation_list_def early_ok_def)
  then have "confirmation_list P existing tx (take ?n early @ (drop ?n early @ [b]))"
    by (simp only: split [symmetric])
  moreover have "take ?n early \<noteq> []" "length (take ?n early) = ?n" using ne len by auto
  ultimately show ?thesis using r unfolding build_ok_def t1 by (metis order_refl)
qed

lemma buildConfirmationList_ok:
  assumes node: "node_answers E" and ch: "chain_ok s" "\<forall>b \<in> set (chainBlocks s). bi_Number b + 1 \<noteq> 0"
    and nw: "unat (bi_Number tx) + unat target + length existing + 2 < 2 ^ 64" and t: "target \<noteq> 0"
    and run: "buildConfirmationList E existing tx target s = (Inr r, s')"
  shows "build_ok (trusted E (chainBlocks s)) existing tx target r"
proof -
  let ?P = "trusted E (chainBlocks s)"
  have nw': "unat (bi_Number tx) + length existing + 1 < 2 ^ 64"
    and tt: "unat (bi_Number tx + target) = unat (bi_Number tx) + unat target"
    using nw by (simp_all add: unat_word_ariths)
  obtain early r0 where early: "createPreSpliceEarlyList existing tx emptyConfirmationUpdateResult =
      (early, r0)" by fastforce
  from createPreSpliceEarlyList_ok [OF this] have eok: "early_ok existing tx early" by simp
  let ?h = "if bi_Number (last early) \<ge> bi_Number tx + target
            then handleTargetCountMetWithEarlyList early target s else Inr None"
  show ?thesis
  proof (cases "\<exists>r1. ?h = Inr (Some r1)")
    case True
    then obtain r1 where h: "?h = Inr (Some r1)" ..
    then have met: "bi_Number (last early) \<ge> bi_Number tx + target"
      and h': "handleTargetCountMetWithEarlyList early target s = Inr (Some r1)"
      by (simp_all split: if_splits)
    from run early h have "r1 = r" by (simp add: buildConfirmationList_def)
    with handleTargetCountMet_ok [OF eok _ nw met h', of ?P] show ?thesis
      by (simp add: trusted_def)
  next
    case False
    with run early have "?h = Inr None"
      by (cases ?h) (auto simp: buildConfirmationList_def split: option.splits)
    with run early obtain late s1 sp f f' cs where
      late: "createLateList E tx target s = (Inr late, s1)"
      and sp: "newSplice early late = Inr (sp, f)"
      and lnk: "linkLists E sp (cu_NewFork r0 \<or> f) s1 = (Inr (cs, f'), s')"
      and r: "r = confirmedFlag target (r0\<lparr>cu_NewFork := f',
                    cu_Confirmations := toMinimalBlockInfoList cs\<rparr>)"
      unfolding buildConfirmationList_def
      by (simp split: prod.split_asm sum.split_asm)
    have "unat (bi_Number tx) + unat target < 2 ^ 64" using nw by simp
    from createLateList_ok [OF node ch this t late]
    have lok: "late_ok (bi_Number tx) (bi_Number tx + target) late"
      and P: "\<forall>b \<in> set late. ?P b" by (auto simp: trusted_def)
    from newSplice_ok [OF eok lok P nw'] sp
    have spok: "splice_ok ?P existing tx (bi_Number tx + target) sp" by auto
    have hi: "bi_Number tx + target + 1 \<noteq> 0"
      using tt nw by (intro u64_Suc_nonzero) simp
    have cl: "confirmation_list ?P existing tx cs" and last: "bi_Number (last cs) \<le> bi_Number tx + target"
      using linkLists_list [OF spok _ hi nw' lnk] by (auto simp: trusted_def)
    then have ne: "cs \<noteq> []" and "unat (bi_Number (last cs)) + 1 = unat (bi_Number tx) + length cs"
      by (auto simp: confirmation_list_def last_conv_nth Suc_leI)
    with last tt have len: "length cs \<le> unat target + 1" by (simp add: u64_le_unat)
    then have "unat (of_nat (length cs) :: u64) = length cs" using nw
      by (simp add: unat_of_nat take_bit_nat_eq_self)
    with len have "cu_Confirmed r \<longleftrightarrow> length cs = unat target + 1"
      by (auto simp: r confirmedFlag_def toMinimalBlockInfoList_def u64_less_unat)
    moreover have "cu_Confirmations r = map ToMinimalBlockInfo cs"
      by (simp add: r confirmedFlag_def toMinimalBlockInfoList_def)
    ultimately show ?thesis using cl ne len unfolding build_ok_def
      by (metis append_Nil2)
  qed
qed


section \<open>Soundness: the confirmations are blocks of the node\<close>

lemma nth_segment:
  assumes "i < length (segment blk bloom a m)"
  shows "segment blk bloom a m ! i = nodeBlock blk bloom (a + of_nat i)"
  using assms by (simp add: segment_def del: upt_Suc)

definition node_blocks_bind :: "(u64 \<Rightarrow> EVMBlockWithTxHashesJSONRPC) \<Rightarrow> bool \<Rightarrow> bool" where
  "node_blocks_bind blk bloom \<longleftrightarrow> (\<forall>n. binds blk bloom (nodeBlock blk bloom n))"

lemma binds_Equal: "binds blk bloom a \<Longrightarrow> bi_Equal b a \<Longrightarrow> binds blk bloom b"
  unfolding binds_def by (metis bi_Equal_def bi_Equal_trans hexEquals_sym hexEquals_trans)

definition of_node ::
  "(u64 \<Rightarrow> EVMBlockWithTxHashesJSONRPC) \<Rightarrow> bool \<Rightarrow> u64 \<Rightarrow> BlockInfoJSONRPC \<Rightarrow> bool" where
  "of_node blk bloom H b \<longleftrightarrow> bi_Number b \<le> H \<and> bi_Equal b (nodeBlock blk bloom (bi_Number b))"

lemma confirmation_list_node:
  assumes node: "stable_node E blk H" and H: "H + 1 \<noteq> 0" and bind: "node_blocks_bind blk bloom"
    and cl: "confirmation_list P existing tx cs" and P: "\<And>b. P b \<Longrightarrow> of_node blk bloom H b"
    and known: "\<forall>b \<in> insert tx (set existing). binds blk bloom b"
  shows "\<forall>i < length cs. bi_Equal (cs ! i) (nodeBlock blk bloom (bi_Number tx + of_nat i))"
proof -
  from cl obtain pre b where cs: "cs = pre @ [b]"
    by (metis confirmation_list_def append_butlast_last_id)
  from cl have lk: "linked (pre @ [b])" and hd: "hd cs = tx" and Pb: "P b"
    and num: "\<forall>i < length cs. unat (bi_Number (cs ! i)) = unat (bi_Number tx) + i"
    by (simp_all add: confirmation_list_def cs)
  from P [OF Pb] have bH: "bi_Number b \<le> H" and be: "bi_Equal b (nodeBlock blk bloom (bi_Number b))"
    by (simp_all add: of_node_def)
  have bl: "unat (bi_Number b) = unat (bi_Number tx) + length pre"
    using num [rule_format, of "length pre"] by (simp add: cs)
  have "\<forall>x \<in> set (pre @ [b]). bi_Number x \<le> H"
  proof
    fix x assume "x \<in> set (pre @ [b])"
    then obtain i where "i < length cs" "x = cs ! i" by (metis cs in_set_conv_nth)
    with num bl bH show "bi_Number x \<le> H" by (simp add: cs u64_le_unat)
  qed
  moreover have "\<forall>x \<in> set pre. binds blk bloom x"
  proof
    fix x assume "x \<in> set pre"
    with cl have "x \<in> insert tx (set existing) \<or> P x" by (auto simp: confirmation_list_def cs)
    with known P [of x] bind show "binds blk bloom x"
      unfolding of_node_def node_blocks_bind_def by (metis binds_Equal)
  qed
  ultimately obtain a where a: "a \<le> bi_Number b"
    and all: "list_all2 bi_Equal (pre @ [b]) (segment blk bloom a (bi_Number b))"
    using ends_with_node_block [OF node H lk _ _ be bH] by blast
  have nth: "bi_Equal (cs ! i) (nodeBlock blk bloom (a + of_nat i))" if "i < length cs" for i
  proof -
    have "i < length (segment blk bloom a (bi_Number b))"
      using that list_all2_lengthD [OF all] by (simp add: cs)
    with list_all2_nthD2 [OF all this] show ?thesis by (simp add: cs nth_segment)
  qed
  have "bi_Equal tx (nodeBlock blk bloom a)"
    using nth [of 0] hd by (simp add: cs hd_conv_nth)
  then have "bi_Number tx = a" using stable_nodeD(1) [OF node] by (simp add: bi_Equal_def)
  with nth show ?thesis by blast
qed

lemma fetchable_of_node:
  assumes "stable_node E blk H" and "fetchable E b"
  shows "of_node blk bloom H b"
proof -
  from assms(2) obtain n t t' where "GetBlockInfoByNumber E n False '''' '''' t = (Inr (Some b), t')"
    by (auto simp: fetchable_def)
  with assms(1) have "n \<le> H \<and> b = nodeBlock blk (cfg_IncludeLogsBloom (conf t)) n"
    by (auto simp: GetBlockInfoByNumber_uncached stable_node_def hashes_ToBlockInfo_def
        nodeBlock_def Let_def split: if_splits)
  with stable_nodeD(1) [OF assms(1)] show ?thesis
    by (auto simp: of_node_def bi_Equal_def nodeBlock_fields)
qed

lemma trusted_of_node:
  assumes node: "stable_node E blk H" and hold: "holds_node_chain blk H s" and H: "H + 1 \<noteq> 0"
    and "trusted E (chainBlocks s) b"
  shows "of_node blk (cfg_IncludeLogsBloom (conf s)) H b"
  using assms(4) unfolding trusted_def
proof
  assume "fetchable E b"
  with node show ?thesis by (rule fetchable_of_node)
next
  let ?bloom = "cfg_IncludeLogsBloom (conf s)"
  assume "b \<in> set (chainBlocks s)"
  moreover from hold obtain a where a: "a \<le> H"
    and all: "list_all2 bi_Equal (chainBlocks s) (segment blk ?bloom a H)"
    by (auto simp: holds_node_chain_def)
  ultimately obtain x where "x \<in> set (segment blk ?bloom a H)" and eq: "bi_Equal b x"
    by (metis list_all2_conv_all_nth in_set_conv_nth)
  then obtain i where "i \<in> {unat a..<Suc (unat H)}" and x: "x = nodeBlock blk ?bloom (of_nat i)"
    unfolding segment_def by (auto simp del: upt_Suc)
  then have i: "i \<le> unat H" by simp
  have "i < 2 ^ 64" using i unat_u64_less [of H] by simp
  then have "unat (of_nat i :: u64) = i" by (simp add: unat_of_nat take_bit_nat_eq_self)
  with i have "(of_nat i :: u64) \<le> H" by (simp add: u64_le_unat)
  with x eq stable_nodeD(1) [OF node] show ?thesis by (auto simp: of_node_def bi_Equal_def)
qed


section \<open>Completeness: on a stable node the list is built\<close>

lemma fillOneGap_stable:
  assumes node: "stable_node E blk H" and gap: "hasGap sp"
    and late: "\<forall>b \<in> set (lateList sp). of_node blk bloom H b"
  shows "\<exists>sp1 s1. fillOneGap E sp s = (Inr sp1, s1)"
proof -
  let ?n = "bi_Number (hd (lateList sp))" and ?bloom = "cfg_IncludeLogsBloom (conf s)"
  from gap have n0: "?n \<noteq> 0" and ne: "lateList sp \<noteq> []" by (auto simp: hasGap_def)
  with late have nH: "?n \<le> H" and eq: "bi_Equal (hd (lateList sp)) (nodeBlock blk bloom ?n)"
    by (simp_all add: of_node_def)
  have "unat (?n - 1) = unat ?n - 1" using n0 by (rule unat_u64_pred)
  with n0 nH have less: "?n - 1 < H" "?n - 1 \<le> H"
    by (auto simp: u64_less_unat u64_le_unat unat_gt_0 [symmetric] dest: unat_gt_0 [THEN iffD2])
  have "bi_IsParentOf (nodeBlock blk ?bloom (?n - 1)) (hd (lateList sp))"
    using stable_nodeD(3) [OF node less(1)] stable_nodeD(1) [OF node] eq
    by (auto simp: bi_IsParentOf_def bi_Equal_def hexEquals_def)
  moreover obtain s1 where "GetBlockInfoByNumber E (?n - 1) False '''' '''' s =
      (Inr (Some (nodeBlock blk ?bloom (?n - 1))), s1)"
    using node less(2)
    by (simp add: GetBlockInfoByNumber_uncached stable_node_def hashes_ToBlockInfo_def
        nodeBlock_def Let_def)
  ultimately show ?thesis by (simp add: fillOneGap_def)
qed

lemma fillOneGap_fetch:
  assumes "fillOneGap E sp s = (Inr sp1, s1)"
  shows "\<exists>b. fetchable E b \<and> lateList sp1 = b # lateList sp"
  using assms
proof (rule fillOneGap_result)
  fix b
  assume "GetBlockInfoByNumber E (bi_Number (hd (lateList sp)) - 1) False '''' '''' s =
      (Inr (Some b), s1)" and "sp1 = sp\<lparr>lateList := b # lateList sp\<rparr>"
  then show ?thesis unfolding fetchable_def by (intro exI [of _ b]) auto
qed

lemma fillGaps_stable:
  assumes "stable_node E blk H" and "\<forall>b \<in> set (lateList sp). of_node blk bloom H b"
  shows "\<exists>sp' s'. fillGaps E sp s = (Inr sp', s')"
  using assms
proof (induction E sp s rule: fillGaps.induct)
  case (1 E sp s)
  show ?case
  proof (cases "hasGap sp")
    case False
    then show ?thesis by (simp add: fillGaps.simps [of E sp])
  next
    case True
    from fillOneGap_stable [OF "1.prems"(1) True "1.prems"(2)] obtain sp1 s1 where
      fill: "fillOneGap E sp s = (Inr sp1, s1)" by blast
    from fillOneGap_fetch [OF fill] obtain b where
      "fetchable E b" "lateList sp1 = b # lateList sp" by blast
    with "1.prems" have "\<forall>b \<in> set (lateList sp1). of_node blk bloom H b"
      by (auto intro: fetchable_of_node)
    from "1.IH" [OF True fill [symmetric] refl "1.prems"(1) this] True fill show ?thesis
      by (simp add: fillGaps.simps [of E sp])
  qed
qed

lemma fillGaps_last:
  assumes "fillGaps E sp s = (Inr sp', s')" and "lateList sp \<noteq> []"
  shows "last (lateList sp') = last (lateList sp)"
proof -
  have "lateList sp' \<noteq> [] \<and> last (lateList sp') = last (lateList sp)"
    by (rule fillGaps_invariant [where I = "\<lambda>t s. lateList t \<noteq> [] \<and> last (lateList t) = last (lateList sp)",
          THEN conjunct1, OF _ _ assms(1)])
       (use assms(2) in \<open>auto elim!: fillOneGap_result\<close>)
  then show ?thesis ..
qed

text \<open>With the lists adjacent and one block left in the early list, the block of the transaction
  links to the late list.\<close>

lemma single_early_links:
  assumes node: "stable_node E blk H" and H: "H + 1 \<noteq> 0"
    and ok: "splice_ok (of_node blk bloom H) existing tx hi sp" and tx: "of_node blk bloom H tx"
    and gap: "\<not> hasGap sp" and one: "length (earlyList sp) = 1"
  shows "toSingleLinkedList sp \<noteq> None"
proof -
  let ?b = "hd (lateList sp)"
  from ok one have e: "earlyList sp = [tx]"
    by (cases "earlyList sp") (auto simp: splice_ok_def early_ok_def)
  from ok e have late: "lateList sp \<noteq> []" and less: "bi_Number tx < bi_Number ?b"
    and b: "of_node blk bloom H ?b" by (auto simp: splice_ok_def late_ok_def)
  from less have "unat (bi_Number tx + 1) = unat (bi_Number tx) + 1" by (rule unat_u64_succ)
  with gap e late less have "unat (bi_Number ?b) = unat (bi_Number tx + 1)"
    by (auto simp: hasGap_def u64_less_unat not_less)
  then have n: "bi_Number ?b = bi_Number tx + 1" by (simp only: word_unat_eq_iff)
  have "bi_Number tx < H" using less b by (auto simp: of_node_def)
  from stable_nodeD(3) [OF node this] tx b n have "bi_IsParentOf tx ?b"
    by (auto simp: bi_IsParentOf_def of_node_def bi_Equal_def hexEquals_def)
  with e show ?thesis by (simp add: toSingleLinkedList_def)
qed

lemma linkLists_stable:
  assumes node: "stable_node E blk H" and H: "H + 1 \<noteq> 0" and tx: "of_node blk bloom H tx"
    and nw: "unat (bi_Number tx) + length existing + 1 < 2 ^ 64"
    and "splice_ok (of_node blk bloom H) existing tx hi sp" and "earlyList sp \<noteq> []"
  shows "\<exists>cs f' s'. linkLists E sp f s = (Inr (cs, f'), s') \<and> last cs = last (lateList sp)"
  using assms
proof (induction E sp f s rule: linkLists.induct)
  case (1 E sp f s)
  note prems = "1.prems"
  let ?P = "of_node blk bloom H"
  have late: "\<forall>b \<in> set (lateList sp). ?P b" "lateList sp \<noteq> []"
    using prems(5) by (simp_all add: splice_ok_def late_ok_def)
  from fillGaps_stable [OF prems(1) late(1)] obtain sp1 s1 where
    fill: "fillGaps E sp s = (Inr sp1, s1)" by blast
  have e1: "earlyList sp1 = earlyList sp" using fill by (rule fillGaps_early)
  have l1: "last (lateList sp1) = last (lateList sp)" by (rule fillGaps_last [OF fill late(2)])
  have ok1: "splice_ok ?P existing tx hi sp1"
    by (rule fillGaps_splice_ok [OF prems(5) fetchable_of_node [OF prems(1)] prems(4) fill])
  have gap1: "\<not> hasGap sp1"
    using fillGaps_invariant [where I = "\<lambda>_ _. True", OF _ _ fill] by simp
  show ?case
  proof (cases "toSingleLinkedList sp1")
    case (Some cs)
    then have "last cs = last (lateList sp1)"
      using ok1 by (auto simp: toSingleLinkedList_def splice_ok_def late_ok_def split: if_splits)
    with Some fill prems(6) l1 show ?thesis by (simp add: linkLists.simps [of E sp])
  next
    case None
    with single_early_links [OF prems(1,2) ok1 prems(3) gap1] e1 prems(6)
    have "length (earlyList sp1) > 1"
      by (metis One_nat_def length_0_conv less_one linorder_neqE_nat)
    then have "earlyList (removeBrokenLink sp1) \<noteq> []"
      by (cases "earlyList sp1" rule: rev_cases) (auto simp: removeBrokenLink_def)
    moreover have "lateList (removeBrokenLink sp1) = lateList sp1"
      by (simp add: removeBrokenLink_def)
    ultimately show ?thesis
      using "1.IH" [OF prems(6) fill [symmetric] refl None prems(1-4)
          removeBrokenLink_splice_ok [OF ok1 prems(4)]] None fill prems(6) l1
      by (simp add: linkLists.simps [of E sp])
  qed
qed


section \<open>The late list on a stable node\<close>

lemma stable_node_answers:
  assumes "stable_node E blk H"
  shows "node_answers E"
  using assms by (auto simp: node_answers_def stable_node_def split: if_splits)

lemma holds_node_chain_has:
  assumes node: "stable_node E blk H" and hold: "holds_node_chain blk H s"
    and lo: "bi_Number (hd (chainBlocks s)) \<le> n" and n: "n \<le> H"
  shows "\<exists>b \<in> set (chainBlocks s). bi_Number b = n"
proof -
  let ?bloom = "cfg_IncludeLogsBloom (conf s)"
  from hold obtain a where a: "a \<le> H"
    and all: "list_all2 bi_Equal (chainBlocks s) (segment blk ?bloom a H)"
    by (auto simp: holds_node_chain_def)
  have len: "length (chainBlocks s) = Suc (unat H) - unat a"
    using list_all2_lengthD [OF all] by (simp add: segment_def del: upt_Suc)
  have nth: "bi_Number (chainBlocks s ! i) = a + of_nat i" if "i < length (chainBlocks s)" for i
  proof -
    from that have "i < length (segment blk ?bloom a H)" using list_all2_lengthD [OF all] by simp
    with list_all2_nthD [OF all that] stable_nodeD(1) [OF node] show ?thesis
      by (simp add: bi_Equal_def nth_segment)
  qed
  have ne: "0 < length (chainBlocks s)" using a len by (simp add: u64_le_unat)
  with nth [OF ne] lo have an: "a \<le> n" by (simp add: hd_conv_nth)
  let ?i = "unat n - unat a"
  have i: "?i < length (chainBlocks s)" using an n len by (simp add: u64_le_unat)
  have "a + of_nat ?i = n" using an
    by (simp add: u64_le_unat of_nat_diff)
  with nth [OF i] i show ?thesis by (metis nth_mem)
qed

lemma createLateList_stable:
  assumes node: "stable_node E blk H" and H: "H + 1 \<noteq> 0" and ch: "chain_ok s"
    and hold: "holds_node_chain blk H s"
    and tx: "bi_Number tx < H" and t: "target \<noteq> 0"
    and g: "unat (bi_Number tx) + unat target < 2 ^ 64"
  shows "\<exists>late s'. createLateList E tx target s = (Inr late, s') \<and>
    (\<exists>b \<in> set late. bi_Number b = min (bi_Number tx + target) H)"
proof -
  let ?t = "bi_Number tx" and ?g = "bi_Number tx + target" and ?cs = "chainBlocks s"
  let ?im = "inMemoryConfirmations ?t ?g ?cs" and ?m = "min (bi_Number tx + target) H"
  have lt: "?t < ?g" using g t by (simp add: u64_less_unat unat_word_ariths unat_gt_0)
  have le: "\<forall>b \<in> set ?cs. bi_Number b \<le> H"
    using trusted_of_node [OF node hold H] by (auto simp: trusted_def of_node_def)
  then have nz: "\<forall>b \<in> set ?cs. bi_Number b + 1 \<noteq> 0" using H by (auto dest: u64_next_nonzero)
  have lk: "linked ?cs" using ch by (simp add: chain_ok_def)
  note im = inMemoryConfirmations_ok [OF lk nz, of ?t ?g]
  from hold have ne: "?cs \<noteq> []" by (auto simp: holds_node_chain_def segment_def u64_le_unat)
  obtain b0 where b0: "b0 \<in> set ?cs" "bi_Number b0 = H"
    using holds_node_chain_has [OF node hold _ order_refl] le ne by auto
  have inc: "\<forall>x \<in> set ?cs. bi_Number (hd ?cs) \<le> bi_Number x"
    using linked_increasing [of "hd ?cs" "tl ?cs"] lk nz ne by (cases ?cs) (auto intro: less_imp_le)
  have "\<not> bi_Number (last ?cs) < ?t"
    using linked_numbers_less [of "butlast ?cs" "last ?cs" H] lk le ne H b0 tx
    by (cases "?cs" rule: rev_cases) auto
  then have build: "buildConfirmationQueueUsingInMemoryPartialChain tx target s = Inr ?im"
    using ne by (simp add: buildConfirmationQueueUsingInMemoryPartialChain_def Let_def
        validateChainCaughtUp_def chainBlocks_def last_map)
  show ?thesis
  proof (cases "?im = []")
    case True
    then have "\<not> H \<le> ?g" using im(2) b0 tx by auto
    then have gH: "?g \<le> H" and m: "?m = ?g" by auto
    have "\<exists>s1. GetBlockInfoByNumber E ?g False '''' '''' s =
        (Inr (Some (nodeBlock blk (cfg_IncludeLogsBloom (conf s)) ?g)), s1)"
      using node gH by (simp add: GetBlockInfoByNumber_uncached stable_node_def
          hashes_ToBlockInfo_def nodeBlock_def Let_def)
    with build True m stable_nodeD(1) [OF node] show ?thesis
      by (auto simp: createLateList_def)
  next
    case False
    then have "hd ?im \<in> set ?im" by simp
    then obtain x where x: "x \<in> set ?cs" "bi_Number x \<le> ?g" unfolding im(2) by blast
    with inc le have "bi_Number (hd ?cs) \<le> ?m" by (auto intro: order_trans)
    from holds_node_chain_has [OF node hold this] obtain b where b: "b \<in> set ?cs" "bi_Number b = ?m"
      by auto
    then have "b \<in> set ?im" using im(2) lt tx by auto
    moreover have "createLateList E tx target s = (Inr ?im, s)"
      using build False by (auto simp: createLateList_def split: list.split)
    ultimately show ?thesis using b(2) by blast
  qed
qed


lemma buildConfirmationList_stable:
  assumes node: "stable_node E blk H" and H: "H + 1 \<noteq> 0" and ch: "chain_ok s"
    and hold: "holds_node_chain blk H s"
    and tx: "of_node blk (cfg_IncludeLogsBloom (conf s)) H tx" "bi_Number tx < H" and t: "target \<noteq> 0"
    and nw: "unat (bi_Number tx) + unat target + length existing + 2 < 2 ^ 64"
  shows "\<exists>r s'. buildConfirmationList E existing tx target s = (Inr r, s') \<and>
    (cu_Confirmed r \<longleftrightarrow> unat (bi_Number tx) + unat target \<le> unat H)"
proof -
  let ?bloom = "cfg_IncludeLogsBloom (conf s)" and ?cs = "chainBlocks s" and ?g = "bi_Number tx + target"
  let ?P = "of_node blk ?bloom H"
  have tr: "\<And>b. trusted E ?cs b \<Longrightarrow> ?P b" using trusted_of_node [OF node hold H] .
  then have le: "\<forall>b \<in> set ?cs. ?P b" by (simp add: trusted_def)
  then have nz: "\<forall>b \<in> set ?cs. bi_Number b + 1 \<noteq> 0" using H by (auto simp: of_node_def dest: u64_next_nonzero)
  have ans: "node_answers E" using stable_node_answers [OF node] .
  have nw': "unat (bi_Number tx) + length existing + 1 < 2 ^ 64"
    and g: "unat (bi_Number tx) + unat target < 2 ^ 64"
    and tt: "unat ?g = unat (bi_Number tx) + unat target"
    using nw by (simp_all add: unat_word_ariths)
  obtain early r0 where early: "createPreSpliceEarlyList existing tx emptyConfirmationUpdateResult =
      (early, r0)" by fastforce
  from createPreSpliceEarlyList_ok [OF this] have eok: "early_ok existing tx early" by simp
  let ?h = "if bi_Number (last early) \<ge> ?g
            then handleTargetCountMetWithEarlyList early target s else Inr None"
  have "?h \<noteq> Inl e" for e
    using early_target_met [OF eok nw]
    by (auto simp: handleTargetCountMetWithEarlyList_def Let_def split: option.splits)
  then consider (met) r1 where "?h = Inr (Some r1)" | (late) "?h = Inr None"
    by (metis option.exhaust sum.exhaust)
  then show ?thesis
  proof cases
    case met
    then have last: "bi_Number (last early) \<ge> ?g"
      and h: "handleTargetCountMetWithEarlyList early target s = Inr (Some r1)"
      by (simp_all split: if_splits)
    from h obtain b where b: "findNextInMemory (bi_Number (last early)) None ?cs = Some b"
      and par: "bi_IsParentOf (last early) b" and c: "cu_Confirmed r1"
      by (auto simp: handleTargetCountMetWithEarlyList_def Let_def split: option.splits if_splits)
    have "unat (bi_Number (last early)) + 1 < 2 ^ 64"
      using early_ok_last [OF eok nw'] eok nw by (simp add: early_ok_def)
    then have "unat (bi_Number (last early) + 1) = Suc (unat (bi_Number (last early)))"
      by (intro unat_u64_Suc u64_Suc_nonzero)
    moreover have "b \<in> set ?cs" using findNextInMemory_in [OF b] by simp
    with le have "bi_Number b \<le> H" by (simp add: of_node_def)
    ultimately have "unat (bi_Number tx) + unat target \<le> unat H"
      using last tt bi_IsParentOf_number [OF par] by (simp add: u64_le_unat)
    with c early met show ?thesis by (simp add: buildConfirmationList_def)
  next
    case late
    from createLateList_stable [OF node H ch hold tx(2) t g] obtain late s1 b where
      lt: "createLateList E tx target s = (Inr late, s1)"
      and b: "b \<in> set late" "bi_Number b = min ?g H" by blast
    from createLateList_ok [OF ans ch nz g t lt]
    have lok: "late_ok (bi_Number tx) ?g late" and Pl: "\<forall>b \<in> set late. ?P b"
      using tr by (auto simp: trusted_def)
    from newSplice_ok [OF eok lok Pl nw'] obtain sp f where
      sp: "newSplice early late = Inr (sp, f)" and spok: "splice_ok ?P existing tx ?g sp"
      and ne: "earlyList sp \<noteq> []" and spl: "lateList sp = late" by blast
    from linkLists_stable [OF node H tx(1) nw' spok ne] obtain cs f' s2 where
      lnk: "linkLists E sp (cu_NewFork r0 \<or> f) s1 = (Inr (cs, f'), s2)"
      and lc: "last cs = last late" using spl by metis
    let ?r = "confirmedFlag target (r0\<lparr>cu_NewFork := f', cu_Confirmations := toMinimalBlockInfoList cs\<rparr>)"
    have run: "buildConfirmationList E existing tx target s = (Inr ?r, s2)"
      using early late lt sp lnk by (simp add: buildConfirmationList_def)
    have hi: "?g + 1 \<noteq> 0" using tt nw by (intro u64_Suc_nonzero) simp
    from linkLists_list [OF spok fetchable_of_node [OF node] hi nw' lnk]
    have cl: "confirmation_list ?P existing tx cs" by simp
    then have lu: "unat (bi_Number (last cs)) + 1 = unat (bi_Number tx) + length cs"
      by (auto simp: confirmation_list_def last_conv_nth Suc_leI)
    have lastn: "bi_Number (last late) = min ?g H"
    proof (rule antisym)
      have late_ne: "late \<noteq> []" and late_in: "last late \<in> set late"
        using lok by (auto simp: late_ok_def)
      then show "bi_Number (last late) \<le> min ?g H"
        using lok Pl by (auto simp: late_ok_def of_node_def)
      have "\<forall>x \<in> set (butlast late). bi_Number x < bi_Number (last late)"
        using linked_numbers_less [of "butlast late" "last late" H] lok Pl H
        by (auto simp: late_ok_def of_node_def dest: in_set_butlastD)
      moreover have "b \<in> set (butlast late) \<or> b = last late"
        using b(1) late_ne by (metis append_butlast_last_id rotate1.simps(2) set_ConsD set_rotate1)
      ultimately show "min ?g H \<le> bi_Number (last late)" using b(2) by (auto intro: less_imp_le)
    qed
    have "length (cu_Confirmations ?r) = length cs"
      by (simp add: confirmedFlag_def toMinimalBlockInfoList_def)
    with build_ok_confirmed [OF buildConfirmationList_ok [OF ans ch nz nw t run]]
    have conf: "cu_Confirmed ?r \<longleftrightarrow> length cs = unat target + 1" by simp
    from lu lc lastn tt conf have "cu_Confirmed ?r \<longleftrightarrow> unat (bi_Number tx) + unat target \<le> unat H"
      by (auto simp: min_def u64_le_unat split: if_splits)
    with run show ?thesis by blast
  qed
qed

end
