(* ===== verification/ReceiptGenerations.thy ===== *)
theory ReceiptGenerations
  imports ReceiptCache
begin

text \<open>
  The interleavings of resets, fetches and lookups of the receipt cache. A fetch runs in its own
  goroutine, so it may complete after any number of other steps; the generation check at its end
  is what keeps the receipts of an orphaned block out of the cache.
\<close>

section \<open>Runs\<close>

datatype receipt_event =
    EvReset
  | EvStart blockReceiptRequest
  | EvComplete blockReceiptRequest "TxReceiptJSONRPC option list result"
  | EvLookup string

text \<open>A run from a state, with its events, the newest first. Only a listener with a receipt cache
  starts a fetch.\<close>

inductive receipt_run ::
  "('bc, 'rc) env \<Rightarrow> ('bc, 'rc) blockListener \<Rightarrow> receipt_event list \<Rightarrow> ('bc, 'rc) blockListener \<Rightarrow>
   bool" for E s where
  run_refl: "receipt_run E s [] s"
| run_reset: "receipt_run E s tr t \<Longrightarrow> receipt_run E s (EvReset # tr) (resetReceiptCache E t)"
| run_start: "receipt_run E s tr t \<Longrightarrow> txReceiptCache t \<noteq> None \<Longrightarrow>
     t' = fetchAndCacheBlockReceipts bi t \<Longrightarrow>
     receipt_run E s (EvStart (last (asyncRequests t')) # tr) t'"
| run_complete: "receipt_run E s tr t \<Longrightarrow> brr \<in> set (asyncRequests t) \<Longrightarrow>
     receipt_run E s
       (EvComplete brr (fst (runRequest E brr (t\<lparr>asyncRequests := remove1 brr (asyncRequests t)\<rparr>))) # tr)
       (completeFetch E brr t)"
| run_lookup: "receipt_run E s tr t \<Longrightarrow> GetTransactionReceipt E txHash t = (r, t') \<Longrightarrow>
     receipt_run E s (EvLookup txHash # tr) t'"

definition sinceReset :: "receipt_event list \<Rightarrow> receipt_event list" where
  "sinceReset tr = takeWhile (\<lambda>e. e \<noteq> EvReset) tr"

definition resets :: "receipt_event list \<Rightarrow> nat" where
  "resets tr = length (filter (\<lambda>e. e = EvReset) tr)"

section \<open>What lookups and queries keep\<close>

text \<open>The cache as lookups see it, and its generation, are the same.\<close>

definition same_receipts ::
  "('bc, 'rc) env \<Rightarrow> ('bc, 'rc) blockListener \<Rightarrow> ('bc, 'rc) blockListener \<Rightarrow> bool" where
  "same_receipts E s s' \<longleftrightarrow>
     cachedReceipt E s' = cachedReceipt E s \<and>
     (txReceiptCache s' = None \<longleftrightarrow> txReceiptCache s = None) \<and>
     txReceiptCacheGeneration s' = txReceiptCacheGeneration s \<and>
     asyncRequests s' = asyncRequests s"

lemma same_receipts_refl [simp, intro]: "same_receipts E s s"
  by (simp add: same_receipts_def)

lemma same_receipts_trans: "same_receipts E s t \<Longrightarrow> same_receipts E t u \<Longrightarrow> same_receipts E s u"
  by (simp add: same_receipts_def)

lemma same_receiptsI:
  "txReceiptCache s' = txReceiptCache s \<Longrightarrow>
   txReceiptCacheGeneration s' = txReceiptCacheGeneration s \<Longrightarrow>
   asyncRequests s' = asyncRequests s \<Longrightarrow> same_receipts E s s'"
  by (simp add: same_receipts_def cachedReceipt_def fun_eq_iff)

lemma getCachedTransactionReceipt_receipts:
  assumes "lru_lawful (receiptLru E)" and "getCachedTransactionReceipt E h s = (r, s')"
  shows "same_receipts E s s'"
  using getCachedTransactionReceipt_keeps [OF assms(1), of h s] assms(2)
  by (auto simp: same_receipts_def fun_eq_iff getCachedTransactionReceipt_def
      split: option.splits prod.splits)

lemma GetTransactionReceipt_receipts:
  assumes L: "lru_lawful (receiptLru E)" and "GetTransactionReceipt E h s = (r, s')"
  shows "same_receipts E s s'"
proof -
  obtain r1 s1 where g: "getCachedTransactionReceipt E h s = (r1, s1)" by fastforce
  have "same_receipts E s s1" by (rule getCachedTransactionReceipt_receipts [OF L g])
  moreover have "same_receipts E s1 s'"
    using assms(2) g
    by (auto simp: GetTransactionReceipt_def ticked_def split: option.splits sum.splits
        intro: same_receiptsI)
  ultimately show ?thesis by (rule same_receipts_trans)
qed

lemma GetBlockInfoByHash_receipts:
  "GetBlockInfoByHash E h s = (r, s') \<Longrightarrow> same_receipts E s s'"
  by (auto simp: GetBlockInfoByHash_def blockCacheGet_def GetEVMBlockWithTxHashesByHash_def
      addToBlockCache_def ticked_def
      split: option.splits prod.splits sum.splits intro!: same_receiptsI)

lemma eachReceipt_receipts:
  assumes L: "lru_lawful (receiptLru E)"
  shows "eachReceipt E hs s = (r, s') \<Longrightarrow> same_receipts E s s'"
proof (induction hs arbitrary: s r)
  case (Cons h hs)
  obtain r1 s1 where g: "GetTransactionReceipt E (hashString E h) s = (r1, s1)" by fastforce
  have "same_receipts E s s1" by (rule GetTransactionReceipt_receipts [OF L g])
  moreover have "s' = s1 \<or> (\<exists>r2. eachReceipt E hs s1 = (r2, s'))"
    using Cons.prems g by (auto split: sum.splits prod.splits)
  ultimately show ?case using Cons.IH same_receipts_trans by blast
qed simp

lemma runRequest_receipts:
  assumes L: "lru_lawful (receiptLru E)" and run: "runRequest E brr s = (r, s')"
  shows "same_receipts E s s'"
proof (cases "cfg_UseGetBlockReceipts (conf s)")
  case True
  with run have "s' = ticked s"
    by (auto simp: runRequest_def split: sum.splits option.splits)
  then show ?thesis by (simp add: same_receiptsI ticked_def)
next
  case False
  obtain r1 s1 where g: "GetBlockInfoByHash E (hashString E (rq_blockHash brr)) s = (r1, s1)"
    by fastforce
  have "same_receipts E s s1" by (rule GetBlockInfoByHash_receipts [OF g])
  moreover have "s' = s1 \<or> (\<exists>hs. eachReceipt E hs s1 = (r, s'))"
    using run False g by (auto simp: runRequest_def split: sum.splits option.splits)
  ultimately show ?thesis using eachReceipt_receipts [OF L] same_receipts_trans by blast
qed

section \<open>The invariant of a run\<close>

text \<open>A pending request carries the generation of its start; a cached receipt came from a request
  that was started, and that completed, since the last reset.\<close>

definition start_generation :: "u64 \<Rightarrow> receipt_event list \<Rightarrow> blockReceiptRequest \<Rightarrow> bool" where
  "start_generation g tr brr \<longleftrightarrow>
     (\<exists>tr1 tr2. tr = tr1 @ EvStart brr # tr2 \<and> rq_generation brr = g + of_nat (resets tr2))"

definition fetchedSinceReset :: "receipt_event list \<Rightarrow> TxReceiptJSONRPC \<Rightarrow> bool" where
  "fetchedSinceReset tr r \<longleftrightarrow>
     (\<exists>brr rs. EvStart brr \<in> set (sinceReset tr) \<and>
        EvComplete brr (Inr rs) \<in> set (sinceReset tr) \<and> Some r \<in> set rs)"

definition run_inv ::
  "('bc, 'rc) env \<Rightarrow> u64 \<Rightarrow> receipt_event list \<Rightarrow> ('bc, 'rc) blockListener \<Rightarrow> bool" where
  "run_inv E g tr t \<longleftrightarrow>
     txReceiptCache t \<noteq> None \<and> txReceiptCacheGeneration t = g + of_nat (resets tr) \<and>
     (\<forall>brr \<in> set (asyncRequests t). start_generation g tr brr) \<and>
     (\<forall>k r. cachedReceipt E t k = Some r \<longrightarrow> fetchedSinceReset tr r)"

lemma start_generation_Cons: "start_generation g tr brr \<Longrightarrow> start_generation g (e # tr) brr"
  unfolding start_generation_def by (metis append_Cons)

lemma fetchedSinceReset_Cons:
  "fetchedSinceReset tr r \<Longrightarrow> e \<noteq> EvReset \<Longrightarrow> fetchedSinceReset (e # tr) r"
  by (auto simp: fetchedSinceReset_def sinceReset_def)

lemma start_generation_current:
  assumes "start_generation g tr brr" and "rq_generation brr = g + of_nat (resets tr)"
    and "length tr < 2 ^ 64"
  shows "EvStart brr \<in> set (sinceReset tr)"
proof -
  from assms(1) obtain tr1 tr2 where tr: "tr = tr1 @ EvStart brr # tr2"
    and g: "rq_generation brr = g + of_nat (resets tr2)" by (auto simp: start_generation_def)
  have le: "resets tr2 \<le> length tr2" "resets tr \<le> length tr"
    by (simp_all add: resets_def)
  with tr assms(3) have "resets tr2 < 2 ^ 64" "resets tr < 2 ^ 64" by simp_all
  then have "unat (of_nat (resets tr2) :: u64) = resets tr2"
    and "unat (of_nat (resets tr) :: u64) = resets tr"
    by (simp_all add: unat_of_nat take_bit_nat_eq_self)
  moreover from g assms(2) have "(of_nat (resets tr2) :: u64) = of_nat (resets tr)" by simp
  ultimately have "resets tr2 = resets tr" by metis
  then have "resets tr1 = 0" by (simp add: tr resets_def)
  then have "\<forall>e \<in> set tr1. e \<noteq> EvReset" by (auto simp: resets_def filter_empty_conv)
  then show ?thesis by (simp add: tr sinceReset_def takeWhile_append2)
qed

lemma run_inv_same:
  assumes "run_inv E g tr t" and "same_receipts E t t'" and "e \<noteq> EvReset"
  shows "run_inv E g (e # tr) t'"
  using assms
  by (auto simp: run_inv_def same_receipts_def resets_def
      intro: start_generation_Cons fetchedSinceReset_Cons)

lemma run_inv_complete:
  assumes L: "lru_lawful (receiptLru E)" and inv: "run_inv E g tr t"
    and brr: "brr \<in> set (asyncRequests t)" and len: "length tr < 2 ^ 64"
  shows "run_inv E g
    (EvComplete brr (fst (runRequest E brr (t\<lparr>asyncRequests := remove1 brr (asyncRequests t)\<rparr>))) # tr)
    (completeFetch E brr t)"
proof -
  let ?t = "t\<lparr>asyncRequests := remove1 brr (asyncRequests t)\<rparr>"
  obtain r t1 where run: "runRequest E brr ?t = (r, t1)" by fastforce
  let ?e = "EvComplete brr r"
  have "run_inv E g tr ?t"
    using inv by (auto simp: run_inv_def cachedReceipt_def dest: notin_set_remove1)
  from run_inv_same [OF this runRequest_receipts [OF L run], of ?e]
  have t1: "run_inv E g (?e # tr) t1" by simp
  show ?thesis
  proof (cases r)
    case (Inl e)
    with t1 run show ?thesis by (simp add: completeFetch_def)
  next
    case (Inr rs)
    let ?u = "storeReceiptsInCache E rs (rq_generation brr) t1"
    have u: "txReceiptCache ?u \<noteq> None" "txReceiptCacheGeneration ?u = txReceiptCacheGeneration t1"
      "asyncRequests ?u = asyncRequests t1"
      using t1 by (auto simp: storeReceiptsInCache_def run_inv_def split: option.splits)
    have "fetchedSinceReset (?e # tr) x" if x: "cachedReceipt E ?u k = Some x" for k x
    proof (cases "cachedReceipt E t1 k = Some x")
      case True
      with t1 show ?thesis by (simp add: run_inv_def)
    next
      case False
      with x addReceipts_finds [OF L, of k rs _ x]
      have "Some x \<in> set rs" and "rq_generation brr = txReceiptCacheGeneration t1"
        by (auto simp: storeReceiptsInCache_def cachedReceipt_def split: option.splits if_splits)
      moreover from this(2) t1 have "rq_generation brr = g + of_nat (resets tr)"
        by (simp add: run_inv_def resets_def)
      moreover have "start_generation g tr brr" using inv brr by (simp add: run_inv_def)
      ultimately have "EvStart brr \<in> set (sinceReset tr)" "Some x \<in> set rs"
        using start_generation_current [OF _ _ len] by auto
      then show ?thesis using Inr unfolding fetchedSinceReset_def sinceReset_def
        by (intro exI [of _ brr] exI [of _ rs]) simp
    qed
    with t1 u run Inr show ?thesis by (simp add: completeFetch_def run_inv_def)
  qed
qed

lemma receipt_run_inv:
  assumes L: "lru_lawful (receiptLru E)" and "receipt_run E s tr t"
    and "txReceiptCache s \<noteq> None" and "asyncRequests s = []" and "\<forall>k. cachedReceipt E s k = None"
    and "length tr < 2 ^ 64"
  shows "run_inv E (txReceiptCacheGeneration s) tr t"
  using assms(2-6)
proof (induction rule: receipt_run.induct)
  case run_refl
  then show ?case by (simp add: run_inv_def resets_def)
next
  case (run_reset tr t)
  then have inv: "run_inv E (txReceiptCacheGeneration s) tr t" by simp
  with reset_empties [OF L, of t] show ?case
    by (auto simp: run_inv_def resetReceiptCache_def resets_def intro: start_generation_Cons
        split: option.splits)
next
  case (run_start tr t t' bi)
  let ?g = "txReceiptCacheGeneration s"
  have inv: "run_inv E ?g tr t" using run_start by simp
  let ?e = "EvStart (last (asyncRequests t'))"
  have "start_generation ?g (?e # tr) (last (asyncRequests t'))"
    unfolding start_generation_def
    by (rule exI [of _ "[]"], rule exI [of _ tr])
       (use inv run_start in \<open>auto simp: run_inv_def fetchAndCacheBlockReceipts_def
          FetchBlockReceiptsAsync_def getReceiptCacheGeneration_def\<close>)
  with inv run_start show ?case
    by (auto simp: run_inv_def fetchAndCacheBlockReceipts_def FetchBlockReceiptsAsync_def
        cachedReceipt_def resets_def intro: start_generation_Cons fetchedSinceReset_Cons)
next
  case (run_complete tr t brr)
  then show ?case by (intro run_inv_complete [OF L]) simp_all
next
  case (run_lookup tr t txHash r t')
  then have "run_inv E (txReceiptCacheGeneration s) tr t" by simp
  from run_inv_same [OF this GetTransactionReceipt_receipts [OF L run_lookup.hyps(2)]]
  show ?case by simp
qed

end
