(* ===== verification/Examples.thy ===== *)
theory Examples
  imports ConfirmationProofs ReceiptGenerations
begin

text \<open>
  Concrete environments for the witnesses of the properties: an LRU cache that never evicts, and a
  node with a chain of four blocks. A number is shown in unary, and the hash of block \<open>n\<close> is a
  string of \<open>n + 1\<close> zero bytes, so that different blocks have different hashes.
\<close>

definition exLru :: "('v, (string \<times> 'v) list) lru" where
  "exLru = \<lparr>lru_Get = (\<lambda>k c. (map_of c k, c)), lru_Add = (\<lambda>k v c. (k, v) # c),
             lru_Purge = (\<lambda>c. [])\<rparr>"

lemma exLru_lawful [simp]: "lru_lawful exLru"
  by (simp add: lru_lawful_def exLru_def)

definition exHash :: "u64 \<Rightarrow> hexbytes" where
  "exHash n = Some (replicate (Suc (unat n)) 0)"

definition exBlock :: "u64 \<Rightarrow> EVMBlockWithTxHashesJSONRPC" where
  "exBlock n =
     \<lparr>ebh_Header = \<lparr>bh_Number = n, bh_Hash = exHash n, bh_MixHash = None,
        bh_ParentHash = exHash (n - 1), bh_Nonce = None, bh_SHA3Uncles = None, bh_LogsBloom = None,
        bh_TransactionsRoot = None, bh_StateRoot = None, bh_ReceiptsRoot = None, bh_Miner = None,
        bh_Difficulty = None, bh_TotalDifficulty = None, bh_ExtraData = None,
        bh_BaseFeePerGas = None, bh_Size = None, bh_GasLimit = None, bh_GasUsed = None,
        bh_Timestamp = n, bh_Uncles = []\<rparr>,
      ebh_Transactions = []\<rparr>"

definition exNode :: "u64 \<Rightarrow> string \<Rightarrow> EVMBlockWithTxHashesJSONRPC option" where
  "exNode H numberLookup =
     (let n = of_nat (length numberLookup) in if n \<le> H then Some (exBlock n) else None)"

definition exReceipt :: "u64 \<Rightarrow> TxReceiptJSONRPC" where
  "exReceipt n =
     \<lparr>rc_TransactionHash = Some [7], rc_TransactionIndex = 0, rc_BlockHash = exHash n,
      rc_BlockNumber = n, rc_From = None, rc_To = None, rc_CumulativeGasUsed = None,
      rc_EffectiveGasPrice = None, rc_GasUsed = None, rc_ContractAddress = None, rc_Logs = [],
      rc_LogsBloom = None, rc_Type = None, rc_Status = None, rc_RevertReason = None\<rparr>"

type_synonym exBc = "(string \<times> BlockInfoJSONRPC) list"
type_synonym exRc = "(string \<times> TxReceiptJSONRPC) list"

definition exEnv :: "u64 \<Rightarrow> (exBc, exRc) env" where
  "exEnv H =
     \<lparr>hashString = (\<lambda>h. replicate (length (bytesOf h)) CHR ''h''),
      numString = (\<lambda>n. replicate (unat n) CHR ''n''), blockLru = exLru, receiptLru = exLru,
      rpc_blockNumber = (\<lambda>t. Inr (uint H)),
      rpc_getBlockByNumber = (\<lambda>t k. Inr (exNode H k)),
      rpc_getBlockByHash = (\<lambda>t k. Inr (exNode H (tl k))),
      rpc_getFullBlockByNumber = (\<lambda>t k. Inr None), rpc_getFullBlockByHash = (\<lambda>t k. Inr None),
      rpc_getTransactionReceipt = (\<lambda>t k. Inr (Some (exReceipt 1))),
      rpc_getBlockReceipts = (\<lambda>t n. Inr (Some [Some (exReceipt n)])),
      rpc_newBlockFilter = (\<lambda>t. Inr ''f''), rpc_getFilterChanges = (\<lambda>t f. Inr []),
      retryRuns = (\<lambda>t. 0), consumerSelect = (\<lambda>t c. UpdateSent)\<rparr>"

definition exState :: "BlockInfoJSONRPC list \<Rightarrow> (exBc, exRc) blockListener" where
  "exState bs =
     \<lparr>conf = \<lparr>cfg_MonitoredHeadLength = 50, cfg_HederaCompatibilityMode = False,
        cfg_IncludeLogsBloom = False, cfg_UseGetBlockReceipts = True,
        cfg_ChainTrackingMode = ChainTrackingModeFull,
        cfg_FilterPollingMode = FilterPollingModeServer\<rparr>,
      isStarted = True, consumers = [0], blockCache = [], txReceiptCache = Some [],
      monitoredHeadLength = 50,
      canonicalChain = map (\<lambda>(i, b). \<lparr>el_id = i, el_val = b\<rparr>) (enumerate 0 bs),
      highestBlockSet = False, highestBlock = 0, headBlockInfo = None,
      txReceiptCacheGeneration = 0, currentChainHead = 0, metrics = None, orphaned = [],
      nextElem = length bs, tick = 0, asyncRequests = [], dispatched = []\<rparr>"

abbreviation exInfo :: "u64 \<Rightarrow> BlockInfoJSONRPC" where
  "exInfo \<equiv> nodeBlock exBlock False"

text \<open>A block that the node has orphaned: a child of block 1.\<close>

definition exOrphan :: BlockInfoJSONRPC where
  "exOrphan = (exInfo 2)\<lparr>bi_Hash := Some [1]\<rparr>"

lemma exHash_inject: "hexEquals (exHash n) (exHash m) \<Longrightarrow> n = m"
proof -
  assume "hexEquals (exHash n) (exHash m)"
  then have "length (bytesOf (exHash n)) = length (bytesOf (exHash m))" by (simp add: hexEquals_def)
  then show "n = m" by (simp add: exHash_def word_unat_eq_iff)
qed

lemma exBlock_header [simp]:
  "bh_Number (ebh_Header (exBlock n)) = n" "bh_Hash (ebh_Header (exBlock n)) = exHash n"
  "bh_ParentHash (ebh_Header (exBlock n)) = exHash (n - 1)"
  by (simp_all add: exBlock_def)

lemma exEnv_stable [simp]: "stable_node (exEnv H) exBlock H"
  by (simp add: stable_node_def exEnv_def exNode_def exHash_def)

lemma exBlock_binds [simp]: "binds exBlock bloom (nodeBlock exBlock bloom n)"
  by (auto simp: binds_def dest: exHash_inject)

lemma exBlock_bind [simp]: "node_blocks_bind exBlock bloom"
  by (simp add: node_blocks_bind_def)

lemma exOrphan_binds [simp]: "binds exBlock bloom exOrphan"
  by (auto simp: binds_def exOrphan_def hexEquals_def exHash_def)

lemma exEnv_lru [simp]: "receiptLru (exEnv H) = exLru" "blockLru (exEnv H) = exLru"
  by (simp_all add: exEnv_def)

lemma exState_fields [simp]:
  "conf (exState bs) = \<lparr>cfg_MonitoredHeadLength = 50, cfg_HederaCompatibilityMode = False,
     cfg_IncludeLogsBloom = False, cfg_UseGetBlockReceipts = True,
     cfg_ChainTrackingMode = ChainTrackingModeFull,
     cfg_FilterPollingMode = FilterPollingModeServer\<rparr>"
  "asyncRequests (exState bs) = []" "txReceiptCache (exState bs) = Some []"
  "txReceiptCacheGeneration (exState bs) = 0" "nextElem (exState bs) = length bs"
  by (simp_all add: exState_def)

lemma exState_chain_Nil [simp]: "canonicalChain (exState []) = []"
  by (simp add: exState_def)

lemma exState_chain: "chainBlocks (exState bs) = bs"
proof -
  have "el_val \<circ> (\<lambda>(i, b). \<lparr>el_id = i, el_val = b\<rparr>) = snd" by (auto simp: fun_eq_iff)
  then show ?thesis by (simp add: chainBlocks_def exState_def)
qed

lemma exState_ok:
  assumes "linked bs" and "\<forall>b \<in> set bs. bi_Hash b \<noteq> None"
  shows "chain_ok (exState bs)"
proof -
  have ids: "map el_id (canonicalChain (exState bs)) = [0..<length bs]"
  proof -
    have "el_id \<circ> (\<lambda>(i, b). \<lparr>el_id = i, el_val = b\<rparr>) = fst" by (auto simp: fun_eq_iff)
    then show ?thesis by (simp add: exState_def)
  qed
  have "\<forall>i \<in> set (map el_id (canonicalChain (exState bs))). i < length bs" unfolding ids by simp
  then have "\<forall>e \<in> set (canonicalChain (exState bs)). el_id e < length bs" by simp
  moreover have "\<forall>b \<in> set (map el_val (canonicalChain (exState bs))). bi_Hash b \<noteq> None"
    using assms(2) exState_chain [of bs] by (simp add: chainBlocks_def)
  ultimately show ?thesis using assms(1) ids
    by (simp add: chain_ok_def ids_ok_def has_hashes_def exState_chain)
qed

end
