(* ===== verification/ChainProperties.thy ===== *)
theory ChainProperties
  imports Examples
begin

text \<open>
  The properties of the canonical chain and of the receipt cache, with the inputs on which they are
  applied.
\<close>

text \<open>C1. The in-memory chain converges on the chain of the node. Let the node serve one linked
  chain that ends at block \<open>H\<close>, and let the listener hold a well-formed chain, of whatever blocks,
  that has not run ahead of \<open>H\<close>. Then adding the head of the node returns (the loop of the rebuild
  ends), and afterwards the canonical chain is a segment of the chain of the node that ends at its
  head: every orphaned block is gone and every gap is filled.\<close>

theorem canonical_chain_converges:
  assumes "stable_node E blk H" and "H + 1 \<noteq> 0" and "behind blk H s"
    and "cfg_MonitoredHeadLength (conf s) > 0"
    and "bi_Equal b (nodeBlock blk (cfg_IncludeLogsBloom (conf s)) H)" and "bi_Hash b \<noteq> None"
  shows "\<exists>r s'. reconcileCanonicalChain E b s = Some (r, s') \<and> holds_node_chain blk H s'"
  using assms by (rule reconcile_converges)

lemma exChain_orphan: "linked [exInfo 1, exOrphan]"
  by (simp add: bi_IsParentOf_def exOrphan_def)

lemma exOrphan_number: "bi_Number exOrphan = 2" and exOrphan_hash: "bi_Hash exOrphan = Some [1]"
  by (simp_all add: exOrphan_def)

lemma exState_orphan_ok: "chain_ok (exState [exInfo 1, exOrphan])"
  by (rule exState_ok [OF exChain_orphan]) (simp add: exHash_def exOrphan_hash)

text \<open>The call of the witnesses: the head of the node comes in while block 2 is an orphan.\<close>

lemma exRebuild:
  obtains r s' where "reconcileCanonicalChain (exEnv 3) (exInfo 3) (exState [exInfo 1, exOrphan]) =
      Some (r, s')" "holds_node_chain exBlock 3 s'"
proof -
  have "behind exBlock 3 (exState [exInfo 1, exOrphan])"
    using exState_orphan_ok by (simp add: behind_def exState_chain exOrphan_number)
  from reconcile_converges [OF exEnv_stable _ this, of "exInfo 3"] that show thesis
    by (auto simp: exHash_def)
qed

theorem canonical_chain_converges_witness:
  "\<exists>r s'. reconcileCanonicalChain (exEnv 3) (exInfo 3) (exState [exInfo 1, exOrphan]) =
     Some (r, s') \<and> holds_node_chain exBlock 3 s'"
proof (rule canonical_chain_converges)
  show "behind exBlock 3 (exState [exInfo 1, exOrphan])"
    using exState_orphan_ok by (simp add: behind_def exState_chain exOrphan_number)
qed (simp_all add: exHash_def)

text \<open>C2. The canonical chain stays well formed whatever the node answers. Its elements are distinct,
  every block has a hash and each block is the parent of the next; if the node answers a query by
  number with a block of that number that has a hash, an addition of any block with a hash keeps
  this, on every path (duplicate, fit, fork, restart, rebuild).\<close>

theorem canonical_chain_stays_linked:
  assumes "node_answers E" and "chain_ok s" and "bi_Hash b \<noteq> None"
    and "reconcileCanonicalChain E b s = Some (r, s')"
  shows "chain_ok s'"
  using assms by (rule reconcile_keeps_chain_ok)


theorem canonical_chain_stays_linked_witness:
  "\<exists>r s'. reconcileCanonicalChain (exEnv 3) (exInfo 3) (exState [exInfo 1, exOrphan]) =
     Some (r, s') \<and> chain_ok s'"
proof -
  obtain r s' where run: "reconcileCanonicalChain (exEnv 3) (exInfo 3) (exState [exInfo 1, exOrphan]) =
      Some (r, s')" by (rule exRebuild)
  have "chain_ok s'"
    by (rule canonical_chain_stays_linked [OF _ exState_orphan_ok _ run])
       (simp_all add: stable_node_answers [OF exEnv_stable] exHash_def)
  with run show ?thesis by blast
qed

text \<open>C3. Exactly the new blocks are notified. When an addition returns a position, the elements
  that \<open>Next\<close> leads to from it are exactly the elements of the resulting chain that the call
  created (their identifiers are not older than \<open>nextElem\<close> was), the ones before it were all
  there before, and the consumers and what was sent to them have not changed.\<close>

theorem returned_position_covers_new_blocks:
  assumes "ids_ok s" and "cfg_MonitoredHeadLength (conf s) > 0"
    and "reconcileCanonicalChain E b s = Some (Some e, s')"
  shows "elementsFrom s' e = filter (\<lambda>x. nextElem s \<le> el_id x) (canonicalChain s') \<and>
    elementsFrom s' e \<noteq> [] \<and> map el_id (elementsFrom s' e) = [nextElem s..<nextElem s'] \<and>
    consumers s' = consumers s \<and> dispatched s' = dispatched s"
proof -
  note a = reconcile_appended(1) [OF assms]
  from appended_elementsFrom [OF a] appended_new_ids [OF a] a show ?thesis
    by (auto simp: appended_def)
qed

theorem returned_position_covers_new_blocks_witness:
  "\<exists>e s'. reconcileCanonicalChain (exEnv 3) (exInfo 1) (exState []) = Some (Some e, s') \<and>
     map el_id (elementsFrom s' e) = [0..<nextElem s']"
proof -
  obtain e s' where run: "reconcileCanonicalChain (exEnv 3) (exInfo 1) (exState []) = Some (Some e, s')"
    by (simp add: reconcileCanonicalChain_def checkAndSetHighestBlock_fields exState_def list_PushBack_def
        Let_def handleNewBlock_def split: prod.split)
  have "ids_ok (exState [])" using exState_ok [of "[]"] by (simp add: chain_ok_def)
  from returned_position_covers_new_blocks [OF this _ run] run show ?thesis by auto
qed

text \<open>C4. The highest block never goes back. An addition leaves the highest block number at least
  where it was and at least at the number of the block, even when the chain is rebuilt.\<close>

theorem highest_block_never_regresses:
  assumes "ids_ok s" and "cfg_MonitoredHeadLength (conf s) > 0"
    and "reconcileCanonicalChain E b s = Some (r, s')"
  shows "highestBlock s \<le> highestBlock s' \<and> bi_Number b \<le> highestBlock s'"
  using reconcile_appended [OF assms] by (simp add: appended_def)

theorem highest_block_never_regresses_witness:
  "\<exists>r s'. reconcileCanonicalChain (exEnv 3) (exInfo 3) (exState [exInfo 1, exOrphan]) =
     Some (r, s') \<and> 3 \<le> highestBlock s'"
proof -
  obtain r s' where run: "reconcileCanonicalChain (exEnv 3) (exInfo 3) (exState [exInfo 1, exOrphan]) =
      Some (r, s')" by (rule exRebuild)
  have "ids_ok (exState [exInfo 1, exOrphan])" using exState_orphan_ok by (simp add: chain_ok_def)
  from highest_block_never_regresses [OF this _ run] run show ?thesis by auto
qed






end
