(* ===== verification/ConfirmationProperties.thy ===== *)
theory ConfirmationProperties
  imports ChainProperties
begin

text \<open>
  The properties of the confirmations of a transaction, with the inputs on which they are applied.
\<close>

section \<open>From the transaction to the list\<close>

text \<open>A successful reconciliation in full mode comes from \<open>buildConfirmationList\<close> on the block of
  the transaction.\<close>

lemma reconcile_full_mode:
  assumes "target \<noteq> 0" and "cfg_ChainTrackingMode (conf s) = ChainTrackingModeFull"
    and "getReceiptAndBlock E h s = (Inr (Some (tx, rc)), s1)"
    and "ReconcileConfirmationsForTransaction E h existing target s = (Inr (r, q), s')"
  obtains r0 where "buildConfirmationList E (toBlockInfoList existing) tx target s1 = (Inr r0, s')"
    "cu_Confirmations r = cu_Confirmations r0" "cu_Confirmed r = cu_Confirmed r0"
    "cu_TargetConfirmationCount r = target" "q = Some rc"
    "cu_CurrentConfirmationCount r = of_nat (length (cu_Confirmations r0)) - 1"
  using assms
  by (auto simp: ReconcileConfirmationsForTransaction_def split: prod.splits sum.splits)

lemma toBlockInfoList_length [simp]: "length (toBlockInfoList bs) = length bs"
  by (simp add: toBlockInfoList_def)

section \<open>The inputs of the witnesses\<close>

text \<open>A transaction in block 1, on a node whose head is block 3; the caller still holds an orphan.\<close>

abbreviation exChain :: "(exBc, exRc) blockListener" where
  "exChain \<equiv> exState [exInfo 2, exInfo 3]"

definition exExisting :: "MinimalBlockInfo list" where
  "exExisting = [ToMinimalBlockInfo (exInfo 1), ToMinimalBlockInfo exOrphan]"

definition exAfter :: "(exBc, exRc) blockListener" where
  "exAfter = snd (getReceiptAndBlock (exEnv 3) ''t'' exChain)"

lemma exTx: "getReceiptAndBlock (exEnv 3) ''t'' exChain = (Inr (Some (exInfo 1, exReceipt 1)), exAfter)"
proof -
  have "fst (getReceiptAndBlock (exEnv 3) ''t'' exChain) = Inr (Some (exInfo 1, exReceipt 1))"
    by (simp add: getReceiptAndBlock_def GetTransactionReceipt_def getCachedTransactionReceipt_def
        GetBlockInfoByNumber_def blockCacheGet_def queryBlockByNumber_def
        GetEVMBlockWithTxHashesByNumber_def exEnv_def exState_def exLru_def exNode_def exReceipt_def
        hashes_ToBlockInfo_def nodeBlock_def ticked_def addToBlockCache_def)
  then show ?thesis unfolding exAfter_def by (metis prod.collapse)
qed

lemma exAfter_same: "same_chain exChain exAfter"
  using exTx by (rule getReceiptAndBlock_same)

lemma exAfter_conf [simp]: "conf exAfter = conf exChain"
  using exAfter_same by (rule same_chainD)

lemma exAfter_blocks: "chainBlocks exAfter = [exInfo 2, exInfo 3]"
  using same_chainD(2) [OF exAfter_same] exState_chain [of "[exInfo 2, exInfo 3]"]
  by (simp add: chainBlocks_def)

lemma exAfter_ok: "chain_ok exAfter"
  by (rule chain_ok_same [OF exAfter_same exState_ok])
     (auto simp: bi_IsParentOf_def exHash_def)

lemma exAfter_holds: "holds_node_chain exBlock 3 exAfter"
  by (auto simp: holds_node_chain_def exAfter_blocks segment_def upt_rec intro!: exI [of _ 2])


lemma exReconciled:
  obtains r s' where "ReconcileConfirmationsForTransaction (exEnv 3) ''t'' exExisting 2 exChain =
      (Inr (r, Some (exReceipt 1)), s')"
proof -
  have "of_node exBlock False 3 (exInfo 1)" by (simp add: of_node_def)
  from buildConfirmationList_stable [OF exEnv_stable _ exAfter_ok exAfter_holds, of "exInfo 1" 2
      "toBlockInfoList exExisting"] this
  obtain r s' where "buildConfirmationList (exEnv 3) (toBlockInfoList exExisting) (exInfo 1) 2 exAfter =
      (Inr r, s')" by (auto simp: exExisting_def)
  with exTx show thesis by (auto simp: ReconcileConfirmationsForTransaction_def intro: that)
qed

section \<open>Properties\<close>

text \<open>C6. The shape of the confirmation list. When a transaction is reconciled in full mode, the
  returned list starts with the block of the transaction, each of its blocks is the parent of the
  next, it has at most \<open>target + 1\<close> blocks, the transaction is confirmed exactly when it has
  \<open>target + 1\<close>, and the current count is the number of blocks after the first.\<close>

theorem confirmations_shape:
  assumes "node_answers E" and "chain_ok s1" and "\<forall>b \<in> set (chainBlocks s1). bi_Number b + 1 \<noteq> 0"
    and "target \<noteq> 0" and "cfg_ChainTrackingMode (conf s) = ChainTrackingModeFull"
    and "unat (bi_Number tx) + unat target + length existing + 2 < 2 ^ 64"
    and "getReceiptAndBlock E h s = (Inr (Some (tx, rc)), s1)"
    and "ReconcileConfirmationsForTransaction E h existing target s = (Inr (r, q), s')"
  shows "cu_Confirmations r \<noteq> [] \<and> hd (cu_Confirmations r) = ToMinimalBlockInfo tx \<and>
    successively mb_IsParentOf (cu_Confirmations r) \<and>
    length (cu_Confirmations r) \<le> unat target + 1 \<and>
    (cu_Confirmed r \<longleftrightarrow> length (cu_Confirmations r) = unat target + 1) \<and>
    unat (cu_CurrentConfirmationCount r) + 1 = length (cu_Confirmations r)"
proof -
  obtain r0 where run: "buildConfirmationList E (toBlockInfoList existing) tx target s1 = (Inr r0, s')"
    and r: "cu_Confirmations r = cu_Confirmations r0" "cu_Confirmed r = cu_Confirmed r0"
      "cu_CurrentConfirmationCount r = of_nat (length (cu_Confirmations r0)) - 1"
    by (rule reconcile_full_mode [OF assms(4,5,7,8)])
  have nw: "unat (bi_Number tx) + unat target + length (toBlockInfoList existing) + 2 < 2 ^ 64"
    using assms(6) by simp
  from buildConfirmationList_ok [OF assms(1-3) nw assms(4) run]
  obtain cs rest where cs: "cu_Confirmations r = map ToMinimalBlockInfo cs" "cs \<noteq> []"
    and cl: "confirmation_list (trusted E (chainBlocks s1)) (toBlockInfoList existing) tx (cs @ rest)"
    and len: "length cs \<le> unat target + 1" "cu_Confirmed r \<longleftrightarrow> length cs = unat target + 1"
    using r by (auto simp: build_ok_def)
  have "linked cs" using cl by (simp add: confirmation_list_def successively_append_iff)
  moreover have "hd cs = tx" using cl cs(2) by (simp add: confirmation_list_def)
  moreover have "unat (cu_CurrentConfirmationCount r) + 1 = length cs"
  proof -
    have "unat (of_nat (length cs) :: u64) = length cs" using len(1) assms(6)
      by (simp add: unat_of_nat take_bit_nat_eq_self)
    moreover from this cs(2) have "(of_nat (length cs) :: u64) \<noteq> 0" by (metis length_0_conv unat_0)
    ultimately show ?thesis using cs r by (simp add: unat_u64_pred Suc_leI)
  qed
  ultimately show ?thesis using cs len by (simp add: linked_map_Minimal hd_map)
qed

theorem confirmations_shape_witness:
  "\<exists>r q s'. ReconcileConfirmationsForTransaction (exEnv 3) ''t'' exExisting 2 exChain = (Inr (r, q), s') \<and>
     hd (cu_Confirmations r) = ToMinimalBlockInfo (exInfo 1) \<and>
     (cu_Confirmed r \<longleftrightarrow> length (cu_Confirmations r) = 3)"
proof -
  obtain r s' where run: "ReconcileConfirmationsForTransaction (exEnv 3) ''t'' exExisting 2 exChain =
      (Inr (r, Some (exReceipt 1)), s')" by (rule exReconciled)
  have nz: "\<forall>b \<in> set (chainBlocks exAfter). bi_Number b + 1 \<noteq> 0" by (simp add: exAfter_blocks)
  from confirmations_shape [OF stable_node_answers [OF exEnv_stable] exAfter_ok nz _ _ _ exTx run] run
  show ?thesis by (auto simp: exExisting_def)
qed





text \<open>C9. Light mode confirms by the distance to the head. The count is the distance from the block of
  the receipt to the observed head, capped at the target; the transaction is confirmed exactly when
  the head is at least \<open>target\<close> blocks ahead, and a head below the block of the receipt is an error
  and never a negative distance.\<close>

theorem light_mode_confirmations:
  assumes "target \<noteq> 0" and "cfg_ChainTrackingMode (conf s) = ChainTrackingModeLight"
    and "GetTransactionReceipt E h s = (Inr (Some rc), s1)"
    and "unat (rc_BlockNumber rc) + unat target < 2 ^ 64"
  shows "(GetHeadBlockNumber s1 < rc_BlockNumber rc \<longrightarrow>
      fst (ReconcileConfirmationsForTransaction E h existing target s) =
        Inl (MsgTransactionNotIncludedInChainHead h (GetHeadBlockNumber s1) (rc_BlockNumber rc))) \<and>
    (GetHeadBlockNumber s1 \<ge> rc_BlockNumber rc \<longrightarrow>
      (\<exists>r. fst (ReconcileConfirmationsForTransaction E h existing target s) = Inr (r, Some rc) \<and>
        cu_CurrentConfirmationCount r = min (GetHeadBlockNumber s1 - rc_BlockNumber rc) target \<and>
        (cu_Confirmed r \<longleftrightarrow> rc_BlockNumber rc + target \<le> GetHeadBlockNumber s1)))"
proof -
  let ?h = "GetHeadBlockNumber s1" and ?n = "rc_BlockNumber rc"
  have "unat (?n + target) = unat ?n + unat target" using assms(4) by (simp add: unat_word_ariths)
  then have "target \<le> ?h - ?n \<longleftrightarrow> ?n + target \<le> ?h" if "?n \<le> ?h"
    using that by (auto simp: u64_le_unat unat_sub)
  then show ?thesis using assms(1-3)
    by (auto simp: ReconcileConfirmationsForTransaction_def lightModeResult_def Let_def min_def)
qed

definition exLight :: "(exBc, exRc) blockListener" where
  "exLight = (exState [])\<lparr>conf := (conf (exState []))\<lparr>cfg_ChainTrackingMode := ChainTrackingModeLight\<rparr>,
                          currentChainHead := 5\<rparr>"

theorem light_mode_confirmations_witness:
  "\<exists>r. fst (ReconcileConfirmationsForTransaction (exEnv 3) ''t'' [] 3 exLight) = Inr (r, Some (exReceipt 1)) \<and>
     cu_Confirmed r \<and> cu_CurrentConfirmationCount r = 3"
proof -
  obtain s1 where get: "GetTransactionReceipt (exEnv 3) ''t'' exLight = (Inr (Some (exReceipt 1)), s1)"
    by (simp add: GetTransactionReceipt_def getCachedTransactionReceipt_def exLight_def exEnv_def exLru_def)
  then have "same_chain exLight s1" by (rule GetTransactionReceipt_same)
  then have "GetHeadBlockNumber s1 = 5"
    by (simp add: GetHeadBlockNumber_def same_chainD) (simp add: exLight_def)
  with light_mode_confirmations [OF _ _ get, of 3 "[]"] show ?thesis
    by (auto simp: exReceipt_def exLight_def)
qed

end
