(* ===== verification/Pollers.thy ===== *)
theory Pollers
  imports CanonicalChain
begin

text \<open>
  \<open>pkg/ethblocklistener/blocklistener_pollers.go\<close>, and the parts of \<open>blocklistener.go\<close> around the
  listen loop: establishing the block height, seeding the monitored head, the three pollers, and
  the dispatch of updates to the consumers.

  A poll returns its error, the state of the poller and the state of the listener; \<open>None\<close> means
  that it does not return, because the rebuild of the chain does not. An iterator over blocks
  (\<open>iter.Seq\<close>) is a list of producers, each run just before its block is reconciled. The map of
  consumers is a list without duplicates; Go visits it in an order of its own, the model in
  the order of the list.
\<close>

section \<open>Block height\<close>

definition queryBlockHeightFromRPC ::
  "('bc, 'rc) env \<Rightarrow> ('bc, 'rc) blockListener \<Rightarrow> u64 result \<times> ('bc, 'rc) blockListener" where
  "queryBlockHeightFromRPC E s =
     (case rpc_blockNumber E (tick s) of
        Inl e \<Rightarrow> (Inl (RPCFailure e), incPollFailureMetric ''eth_blockNumber'' (ticked s))
      | Inr hexBlockHeight \<Rightarrow>
          (let head = word_of_int hexBlockHeight in
           (Inr head, setBlockHeightMetric TargetBlockHeight head (ticked s))))"

definition refreshTargetBlockHeightMetric ::
  "('bc, 'rc) env \<Rightarrow> ('bc, 'rc) blockListener \<Rightarrow> ('bc, 'rc) blockListener" where
  "refreshTargetBlockHeightMetric E s =
     (if metrics s = None then s else snd (queryBlockHeightFromRPC E s))"

text \<open>\<open>establishBlockHeightWithRetry\<close>, for a client without a WebSocket, or with one that is
  connected and subscribed (\<open>ListenerLife\<close> has the attempt with those two calls).\<close>

definition establishBlockHeightWithRetry ::
  "('bc, 'rc) env \<Rightarrow> ('bc, 'rc) blockListener \<Rightarrow> unit result \<times> ('bc, 'rc) blockListener" where
  "establishBlockHeightWithRetry E s =
     retryDo (retryRuns E (tick s))
       (\<lambda>s. case queryBlockHeightFromRPC E s of
              (Inl e, s1) \<Rightarrow> ((True, Inl e), s1)
            | (Inr head, s1) \<Rightarrow> ((False, Inr ()), setHighestBlock head s1)) s"

definition GetHighestBlock :: "('bc, 'rc) blockListener \<Rightarrow> u64" where
  "GetHighestBlock s = highestBlock s"

definition GetHighestBlockInfo :: "('bc, 'rc) blockListener \<Rightarrow> BlockInfoJSONRPC option" where
  "GetHighestBlockInfo s = headBlockInfo s"

section \<open>Consumers\<close>

definition markStarted :: "('bc, 'rc) blockListener \<Rightarrow> ('bc, 'rc) blockListener" where
  "markStarted s = (if \<not> isStarted s then s\<lparr>isStarted := True\<rparr> else s)"

text \<open>\<open>AddConsumer\<close> after its wait (\<open>waitUntilStarted\<close> of \<open>ListenerLife\<close>); the id of a consumer is the
  key of the map.\<close>

definition AddConsumer :: "nat \<Rightarrow> ('bc, 'rc) blockListener \<Rightarrow> ('bc, 'rc) blockListener" where
  "AddConsumer c s =
     (if c \<in> set (consumers s) then s else s\<lparr>consumers := consumers s @ [c]\<rparr>)"

definition RemoveConsumer :: "nat \<Rightarrow> ('bc, 'rc) blockListener \<Rightarrow> ('bc, 'rc) blockListener" where
  "RemoveConsumer c s = s\<lparr>consumers := filter (\<lambda>x. x \<noteq> c) (consumers s)\<rparr>"

definition snapshotConsumers :: "('bc, 'rc) blockListener \<Rightarrow> nat list" where
  "snapshotConsumers s = consumers s"

fun dispatchToConsumers ::
  "('bc, 'rc) env \<Rightarrow> nat list \<Rightarrow> BlockHashEvent \<Rightarrow> ('bc, 'rc) blockListener \<Rightarrow>
   ('bc, 'rc) blockListener" where
  "dispatchToConsumers E [] update s = s"
| "dispatchToConsumers E (c # cs) update s =
     dispatchToConsumers E cs update
       (case consumerSelect E (tick s) c of
          UpdateSent \<Rightarrow> s\<lparr>dispatched := dispatched s @ [(c, update)]\<rparr>
        | ListenerStopping \<Rightarrow> s
        | ConsumerClosed \<Rightarrow> RemoveConsumer c s)"

section \<open>Seeding the monitored head\<close>

partial_function (option) seedLoop ::
  "('bc, 'rc) env \<Rightarrow> u64 \<Rightarrow> u64 \<Rightarrow> ('bc, 'rc) blockListener \<Rightarrow> ('bc, 'rc) blockListener option" where
  "seedLoop E blockNumber high s =
     (if \<not> blockNumber \<le> high then Some s
      else (case retryDo (retryRuns E (tick s))
                  (\<lambda>s. case GetBlockInfoByNumber E blockNumber False '''' '''' s of
                         (r, s') \<Rightarrow> ((isl r, r), s')) s of
              (Inl e, s1) \<Rightarrow> Some s1
            | (Inr None, s1) \<Rightarrow> Some s1
            | (Inr (Some bi), s1) \<Rightarrow>
                (case reconcileCanonicalChain E bi s1 of
                   None \<Rightarrow> None
                 | Some (candidate, s2) \<Rightarrow> seedLoop E (blockNumber + 1) high s2)))"

definition seedStart :: "('bc, 'rc) blockListener \<Rightarrow> u64" where
  "seedStart s =
     (if highestBlock s \<ge> monitoredHeadLength s
      then highestBlock s - monitoredHeadLength s + 1 else 0)"

definition seedMonitoredHead ::
  "('bc, 'rc) env \<Rightarrow> ('bc, 'rc) blockListener \<Rightarrow> ('bc, 'rc) blockListener option" where
  "seedMonitoredHead E s =
     (if \<not> highestBlockSet s then Some s else seedLoop E (seedStart s) (highestBlock s) s)"

section \<open>Pollers\<close>

datatype pollerKind = HeadNumberPoller | LatestBlockPoller | BlockFilterPoller

record poller =
  pl_kind :: pollerKind
  pl_gapPotential :: bool
  pl_filter :: string

definition newBlockPoller ::
  "('bc, 'rc) env \<Rightarrow> ('bc, 'rc) blockListener \<Rightarrow> (poller \<times> ('bc, 'rc) blockListener) option" where
  "newBlockPoller E s =
     (if cfg_ChainTrackingMode (conf s) = ChainTrackingModeLight
      then Some (\<lparr>pl_kind = HeadNumberPoller, pl_gapPotential = False, pl_filter = ''''\<rparr>,
                 markStarted s)
      else (case seedMonitoredHead E s of
              None \<Rightarrow> None
            | Some s1 \<Rightarrow>
                if cfg_FilterPollingMode (conf s1) = FilterPollingModeClient
                then Some (\<lparr>pl_kind = LatestBlockPoller, pl_gapPotential = True,
                            pl_filter = ''''\<rparr>, markStarted s1)
                else Some (\<lparr>pl_kind = BlockFilterPoller, pl_gapPotential = True,
                            pl_filter = ''''\<rparr>, s1)))"

subsection \<open>Light mode\<close>

definition headNumberPoll ::
  "('bc, 'rc) env \<Rightarrow> ('bc, 'rc) blockListener \<Rightarrow> failure option \<times> ('bc, 'rc) blockListener" where
  "headNumberPoll E s =
     (case queryBlockHeightFromRPC E s of
        (Inl e, s1) \<Rightarrow> (Some e, s1)
      | (Inr head, s1) \<Rightarrow>
          (case acceptHeadBlockNumber head s1 of
             (False, s2) \<Rightarrow> (None, s2)
           | (True, s2) \<Rightarrow>
               (None, dispatchToConsumers E (snapshotConsumers s2)
                  \<lparr>ev_BlockHashes = [], ev_GapPotential = False, ev_HeadBlockNumber = head\<rparr> s2)))"

subsection \<open>Full chain tracking\<close>

text \<open>The blocks of an iteration are reconciled one after the other; \<open>combine\<close> combines what the
  updates return.\<close>

fun updateAll ::
  "('e \<Rightarrow> 'b \<Rightarrow> 's \<Rightarrow> ('p \<times> 's) option) \<Rightarrow> ('p \<Rightarrow> 'p \<Rightarrow> 'p) \<Rightarrow> 'e \<Rightarrow>
   ('s \<Rightarrow> 'b option \<times> 's) list \<Rightarrow> 'p \<Rightarrow> 's \<Rightarrow> ('p \<times> 's) option" where
  "updateAll update combine E [] p s = Some (p, s)"
| "updateAll update combine E (producer # producers) p s =
     (case producer s of
        (None, s1) \<Rightarrow> updateAll update combine E producers p s1
      | (Some bi, s1) \<Rightarrow>
          (case update E bi s1 of
             None \<Rightarrow> None
           | Some (candidate, s2) \<Rightarrow> updateAll update combine E producers (combine p candidate) s2))"

definition lowerPos :: "elem option \<Rightarrow> elem option \<Rightarrow> elem option" where
  "lowerPos notifyPos candidate =
     (case candidate of
        None \<Rightarrow> notifyPos
      | Some c \<Rightarrow>
          (case notifyPos of
             None \<Rightarrow> Some c
           | Some p \<Rightarrow> if bi_Number (el_val c) \<le> bi_Number (el_val p) then Some c else Some p))"

definition notifyEvent ::
  "('bc, 'rc) env \<Rightarrow> bool \<Rightarrow> elem \<Rightarrow> ('bc, 'rc) blockListener \<Rightarrow> BlockHashEvent" where
  "notifyEvent E gap notifyPos s =
     \<lparr>ev_BlockHashes = map (\<lambda>e. hashString E (bi_Hash (el_val e))) (elementsFrom s notifyPos),
      ev_GapPotential = gap, ev_HeadBlockNumber = 0\<rparr>"

definition reconcileAndDispatch ::
  "('bc, 'rc) env \<Rightarrow>
   (('bc, 'rc) blockListener \<Rightarrow> BlockInfoJSONRPC option \<times> ('bc, 'rc) blockListener) list \<Rightarrow>
   poller \<Rightarrow> ('bc, 'rc) blockListener \<Rightarrow> (poller \<times> ('bc, 'rc) blockListener) option" where
  "reconcileAndDispatch E blocks p s =
     (case updateAll reconcileCanonicalChain lowerPos E blocks None s of
        None \<Rightarrow> None
      | Some (notifyPos, s1) \<Rightarrow>
          Some (p\<lparr>pl_gapPotential := False\<rparr>,
                (case notifyPos of
                   None \<Rightarrow> s1
                 | Some e \<Rightarrow>
                     dispatchToConsumers E (snapshotConsumers s1)
                       (notifyEvent E (pl_gapPotential p) e s1) s1)))"

definition resolveBlockHash ::
  "('bc, 'rc) env \<Rightarrow> hexbytes \<Rightarrow> ('bc, 'rc) blockListener \<Rightarrow>
   BlockInfoJSONRPC option \<times> ('bc, 'rc) blockListener" where
  "resolveBlockHash E h s =
     (let n = length (bytesOf h) in
      if n \<noteq> 32 \<and> (\<not> cfg_HederaCompatibilityMode (conf s) \<or> n < 32) then (None, s)
      else
        (let h1 = (if n \<noteq> 32 then Some (take 32 (bytesOf h)) else h) in
         case GetBlockInfoByHash E (hashString E h1) s of
           (Inl e, s1) \<Rightarrow> (None, s1)
         | (Inr bi, s1) \<Rightarrow> (bi, s1)))"

definition resolveBlockHashes ::
  "('bc, 'rc) env \<Rightarrow> hexbytes list \<Rightarrow>
   (('bc, 'rc) blockListener \<Rightarrow> BlockInfoJSONRPC option \<times> ('bc, 'rc) blockListener) list" where
  "resolveBlockHashes E blockHashes = map (resolveBlockHash E) blockHashes"

text \<open>The filter poller: the filter is established, when there is none, and then polled.\<close>

definition pollFilterChanges ::
  "('bc, 'rc) env \<Rightarrow> poller \<Rightarrow> ('bc, 'rc) blockListener \<Rightarrow>
   (failure option \<times> poller \<times> ('bc, 'rc) blockListener) option" where
  "pollFilterChanges E p s =
     (case rpc_getFilterChanges E (tick s) (pl_filter p) of
        Inl e \<Rightarrow>
          Some (Some (RPCFailure e),
                (if MapError FilterRPCMethods e = ErrorReasonNotFound
                 then p\<lparr>pl_filter := '''', pl_gapPotential := True\<rparr> else p),
                incPollFailureMetric ''eth_getFilterChanges'' (ticked s))
      | Inr blockHashes \<Rightarrow>
          (case reconcileAndDispatch E (resolveBlockHashes E blockHashes) p (ticked s) of
             None \<Rightarrow> None
           | Some (p1, s1) \<Rightarrow> Some (None, p1, s1)))"

definition blockFilterPoll ::
  "('bc, 'rc) env \<Rightarrow> poller \<Rightarrow> ('bc, 'rc) blockListener \<Rightarrow>
   (failure option \<times> poller \<times> ('bc, 'rc) blockListener) option" where
  "blockFilterPoll E p s =
     (let s1 = refreshTargetBlockHeightMetric E s in
      if pl_filter p = '''' then
        (case rpc_newBlockFilter E (tick s1) of
           Inl e \<Rightarrow>
             Some (Some (RPCFailure e), p, incPollFailureMetric ''eth_newBlockFilter'' (ticked s1))
         | Inr f \<Rightarrow> pollFilterChanges E (p\<lparr>pl_filter := f\<rparr>) (markStarted (ticked s1)))
      else pollFilterChanges E p s1)"

definition latestBlockPoll ::
  "('bc, 'rc) env \<Rightarrow> poller \<Rightarrow> ('bc, 'rc) blockListener \<Rightarrow>
   (failure option \<times> poller \<times> ('bc, 'rc) blockListener) option" where
  "latestBlockPoll E p s =
     (case GetEVMBlockWithTxHashesByNumber E ''latest'' s of
        (Inl e, s1) \<Rightarrow> Some (Some e, p, incPollFailureMetric ''eth_getBlockByNumber'' s1)
      | (Inr latestBlock, s1) \<Rightarrow>
          (case hashes_ToBlockInfo latestBlock (cfg_IncludeLogsBloom (conf s1)) of
             None \<Rightarrow>
               Some (Some MsgLatestBlockNotFound, p,
                     incPollFailureMetric ''eth_getBlockByNumber'' s1)
           | Some latest \<Rightarrow>
               (case reconcileAndDispatch E [\<lambda>t. (Some latest, t)] p
                       (setBlockHeightMetric TargetBlockHeight (bi_Number latest) s1) of
                  None \<Rightarrow> None
                | Some (p1, s2) \<Rightarrow> Some (None, p1, s2))))"

definition poll ::
  "('bc, 'rc) env \<Rightarrow> poller \<Rightarrow> ('bc, 'rc) blockListener \<Rightarrow>
   (failure option \<times> poller \<times> ('bc, 'rc) blockListener) option" where
  "poll E p s =
     (case pl_kind p of
        HeadNumberPoller \<Rightarrow> (case headNumberPoll E s of (r, s1) \<Rightarrow> Some (r, p, s1))
      | LatestBlockPoller \<Rightarrow> latestBlockPoll E p s
      | BlockFilterPoller \<Rightarrow> blockFilterPoll E p s)"

section \<open>The listen loop\<close>

text \<open>The state of \<open>listenLoop\<close> between two polls: the failure count drives the backoff.\<close>

definition listenLoopStep ::
  "('bc, 'rc) env \<Rightarrow> nat \<times> poller \<times> ('bc, 'rc) blockListener \<Rightarrow>
   (nat \<times> poller \<times> ('bc, 'rc) blockListener) option" where
  "listenLoopStep E st =
     (case st of (failCount, p, s) \<Rightarrow>
        (case poll E p s of
           None \<Rightarrow> None
         | Some (Some e, p1, s1) \<Rightarrow> Some (failCount + 1, p1, s1)
         | Some (None, p1, s1) \<Rightarrow> Some (0, p1, s1)))"

text \<open>The states the loop reaches. Between polls consumers come and go, fetches complete and the
  rest of the connector queries the caches.\<close>

inductive listener_reaches ::
  "('bc, 'rc) env \<Rightarrow> ('bc, 'rc) blockListener \<Rightarrow> nat \<times> poller \<times> ('bc, 'rc) blockListener \<Rightarrow> bool"
  for E s0 where
  listener_start: "establishBlockHeightWithRetry E s0 = (r, s1) \<Longrightarrow>
     newBlockPoller E s1 = Some (p, s2) \<Longrightarrow> listener_reaches E s0 (0, p, s2)"
| listener_poll: "listener_reaches E s0 st \<Longrightarrow> listenLoopStep E st = Some st' \<Longrightarrow>
     listener_reaches E s0 st'"
| listener_add: "listener_reaches E s0 (n, p, s) \<Longrightarrow>
     listener_reaches E s0 (n, p, AddConsumer c s)"
| listener_remove: "listener_reaches E s0 (n, p, s) \<Longrightarrow>
     listener_reaches E s0 (n, p, RemoveConsumer c s)"
| listener_fetched: "listener_reaches E s0 (n, p, s) \<Longrightarrow> brr \<in> set (asyncRequests s) \<Longrightarrow>
     listener_reaches E s0 (n, p, completeFetch E brr s)"
| listener_query_number: "listener_reaches E s0 (n, p, s) \<Longrightarrow>
     GetBlockInfoByNumber E b c ph bh s = (q, s') \<Longrightarrow> listener_reaches E s0 (n, p, s')"
| listener_query_hash: "listener_reaches E s0 (n, p, s) \<Longrightarrow>
     GetBlockInfoByHash E h s = (q, s') \<Longrightarrow> listener_reaches E s0 (n, p, s')"

end
