(* ===== verification/ChainFrame.thy ===== *)
theory ChainFrame
  imports Pollers ChainInvariant
begin

text \<open>
  Frames of the operations that place a block in the canonical chain. \<open>chain_frame\<close> is the
  interface: a relation between states that the queries of the node, the edits of the list, the
  record of the highest block and the calls of the receipt cache all respect is respected by
  \<open>reconcileCanonicalChain\<close>. Its interpretations are the fields that an addition leaves alone
  (\<open>fixed\<close>), the progress of the calls to the node and of the started fetches (\<open>progress\<close>), the
  hashes of the cached blocks (\<open>hashed\<close>) and the content of the receipt cache (\<open>purged\<close>).
\<close>

section \<open>The interface\<close>

locale chain_frame =
  fixes E :: "('bc, 'rc) env"
    and R :: "('bc, 'rc) blockListener \<Rightarrow> ('bc, 'rc) blockListener \<Rightarrow> bool"
  assumes R_refl: "R s s"
    and R_trans: "R s t \<Longrightarrow> R t u \<Longrightarrow> R s u"
    and R_query: "retriedBlockQuery E n s = (r, s') \<Longrightarrow> R s s'"
    and R_edit: "R s (s\<lparr>canonicalChain := ch, orphaned := os, nextElem := k\<rparr>)"
    and R_highest: "R s (checkAndSetHighestBlock b s)"
    and R_reset: "R s (resetReceiptCache E s)"
    and R_fetch: "R s (fetchAndCacheBlockReceipts b s)"
begin

lemma edit_chain: "R s (s\<lparr>canonicalChain := ch\<rparr>)"
proof -
  have "s\<lparr>canonicalChain := ch\<rparr> =
      s\<lparr>canonicalChain := ch, orphaned := orphaned s, nextElem := nextElem s\<rparr>" by simp
  then show ?thesis by (metis R_edit)
qed

lemma frame_PushBack: "list_PushBack b s = (e, s') \<Longrightarrow> R s s'"
proof -
  assume "list_PushBack b s = (e, s')"
  then have "s' = s\<lparr>canonicalChain := canonicalChain s @ [e], orphaned := orphaned s,
                    nextElem := Suc (nextElem s)\<rparr>"
    by (auto simp: list_PushBack_def Let_def)
  then show ?thesis by (metis R_edit)
qed

lemma frame_InsertAfter: "list_InsertAfter b p s = (e, s') \<Longrightarrow> R s s'"
proof -
  assume "list_InsertAfter b p s = (e, s')"
  then have "\<exists>ch. s' = s\<lparr>canonicalChain := ch, orphaned := orphaned s,
                    nextElem := Suc (nextElem s)\<rparr>"
    by (auto simp: list_InsertAfter_def Let_def)
  then show ?thesis by (metis R_edit)
qed

lemma frame_Init: "R s (list_Init s)"
proof -
  have "list_Init s = s\<lparr>canonicalChain := [], orphaned := canonicalChain s # orphaned s,
                        nextElem := nextElem s\<rparr>" by (simp add: list_Init_def)
  then show ?thesis by (metis R_edit)
qed

lemma frame_removeAfter: "R s (removeAfter e s)"
  by (simp add: removeAfter_def edit_chain)

lemma frame_trimHead: "R s (trimToMonitoredHead s)"
  by (simp add: trimToMonitoredHead_def edit_chain)

lemma frame_refetch: "R s (refetchReceiptsForCanonicalChain s)"
proof -
  have "R s (fold fetchAndCacheBlockReceipts bs s)" for bs
    by (induction bs arbitrary: s) (auto intro: R_refl R_trans [OF R_fetch])
  then show ?thesis by (simp add: refetchReceiptsForCanonicalChain_def R_refl)
qed

lemma frame_trimLoop: "trimLoop E es s = (r, s') \<Longrightarrow> R s s'"
proof (induction es arbitrary: s)
  case Nil
  then show ?case by (simp add: R_refl)
next
  case (Cons e es)
  obtain q s1 where q: "retriedBlockQuery E (bi_Number (el_val e)) s = (q, s1)" by fastforce
  then have "R s s1" by (rule R_query)
  moreover have "R s1 s'"
    using Cons q by (auto split: sum.splits option.splits if_splits intro: R_refl frame_removeAfter)
  ultimately show ?case by (rule R_trans)
qed

lemma frame_rebuildStep_done: "rebuildStep E n ph np s = Inl (r, s') \<Longrightarrow> R s s'"
  by (auto simp: rebuildStep_def split: prod.splits sum.splits option.splits if_splits
      dest!: R_query)

lemma frame_rebuildStep_next:
  assumes "rebuildStep E n ph np s = Inr (h, np', s')"
  shows "R s s'"
proof -
  from assms obtain bi s1 e s2 where "retriedBlockQuery E n s = (Inr (Some bi), s1)"
    and "list_PushBack bi s1 = (e, s2)"
    and "s' = fetchAndCacheBlockReceipts bi (checkAndSetHighestBlock bi s2)"
    by (auto simp: rebuildStep_def split: prod.splits sum.splits option.splits if_splits)
  then show ?thesis by (metis R_query frame_PushBack R_highest R_fetch R_trans)
qed

lemma frame_rebuildLoop:
  assumes "rebuildLoop E n ph np s = Some (r, s')"
  shows "R s s'"
proof -
  let ?P = "\<lambda>F n ph np s rs. F = E \<longrightarrow> R s (snd rs)"
  have "?P E n ph np s (r, s')"
  proof (rule rebuildLoop.raw_induct [where P = ?P, OF _ assms], intro impI)
    fix f :: "('bc, 'rc) env \<Rightarrow> u64 \<Rightarrow> hexbytes \<Rightarrow> elem option \<Rightarrow> ('bc, 'rc) blockListener \<Rightarrow>
        (elem option \<times> ('bc, 'rc) blockListener) option"
      and F n ph np s rs
    assume IH: "\<And>F n ph np s rs. f F n ph np s = Some rs \<Longrightarrow> ?P F n ph np s rs"
      and eq: "(case rebuildStep F n ph np s of Inl r \<Rightarrow> Some r
                | Inr c \<Rightarrow> f F (n + 1) (fst c) (fst (snd c)) (snd (snd c))) = Some rs"
      and F: "F = E"
    show "R s (snd rs)"
    proof (cases "rebuildStep E n ph np s")
      case (Inl x)
      with eq F have "rebuildStep E n ph np s = Inl (fst rs, snd rs)" by simp
      then show ?thesis by (rule frame_rebuildStep_done)
    next
      case (Inr c)
      obtain h np' t where c: "c = (h, np', t)" by (metis surj_pair)
      with Inr have "R s t" by (auto intro: frame_rebuildStep_next)
      moreover from eq Inr c F have "f E (n + 1) h np' t = Some rs" by simp
      from IH [OF this] have "R t (snd rs)" by simp
      ultimately show ?thesis by (rule R_trans)
    qed
  qed
  then show ?thesis by simp
qed

lemma frame_rebuild: "rebuildCanonicalChain E s = Some (r, s') \<Longrightarrow> R s s'"
proof -
  assume run: "rebuildCanonicalChain E s = Some (r, s')"
  obtain v s1 where trim: "trimToLastValidBlock E (resetReceiptCache E s) = (v, s1)" by fastforce
  let ?s2 = "refetchReceiptsForCanonicalChain s1"
  have s2: "R s ?s2"
    using frame_trimLoop trim R_reset frame_refetch R_trans unfolding trimToLastValidBlock_def by metis
  show ?thesis
  proof (cases v)
    case (Some b)
    with run trim have "rebuildLoop E (bi_Number b + 1) (bi_Hash b) None ?s2 = Some (r, s')"
      by (simp add: rebuildCanonicalChain_def Let_def)
    with s2 show ?thesis by (blast intro: R_trans frame_rebuildLoop)
  next
    case None
    show ?thesis
    proof (cases "canonicalChain ?s2")
      case Nil
      with run trim None s2 show ?thesis by (simp add: rebuildCanonicalChain_def Let_def)
    next
      case (Cons f fs)
      with run trim None have
        "rebuildLoop E (bi_Number (el_val f)) None None (list_Init ?s2) = Some (r, s')"
        by (simp add: rebuildCanonicalChain_def Let_def)
      with s2 show ?thesis by (blast intro: R_trans frame_rebuildLoop frame_Init)
    qed
  qed
qed

lemma frame_handleNewBlock:
  assumes run: "handleNewBlock E b a s = Some (r, s')"
  shows "R s s'"
proof (cases a)
  case None
  obtain e s1 where push: "list_PushBack b (list_Init (resetReceiptCache E s)) = (e, s1)"
    by fastforce
  with run None have "s' = fetchAndCacheBlockReceipts b (trimToMonitoredHead s1)"
    by (simp add: handleNewBlock_def)
  with push show ?thesis by (metis R_reset frame_Init frame_PushBack frame_trimHead R_fetch R_trans)
next
  case (Some p)
  obtain e s1 where ins: "list_InsertAfter b p s = (e, s1)" by fastforce
  let ?s2 = "trimToMonitoredHead (removeAfter e s1)"
  have s2: "R s ?s2" by (metis ins frame_InsertAfter frame_removeAfter frame_trimHead R_trans)
  have "rebuildCanonicalChain E s = Some (r, s') \<or> s' = fetchAndCacheBlockReceipts b ?s2 \<or>
      s' = fetchAndCacheBlockReceipts b (resetReceiptCache E ?s2)"
    using run Some ins by (auto simp: handleNewBlock_def Let_def split: if_splits)
  then show ?thesis using s2 by (metis frame_rebuild R_fetch R_reset R_trans)
qed

lemma frame_reconcileLoop: "reconcileLoop E b es s = Some (r, s') \<Longrightarrow> R s s'"
  by (induction es) (auto split: if_splits dest: frame_handleNewBlock intro: R_refl)

lemma frame_reconcile: "reconcileCanonicalChain E b s = Some (r, s') \<Longrightarrow> R s s'"
  by (auto simp: reconcileCanonicalChain_def Let_def dest!: frame_reconcileLoop
      intro: R_trans [OF R_highest])

end

section \<open>The fields an addition leaves alone\<close>

definition fixed :: "('bc, 'rc) blockListener \<Rightarrow> ('bc, 'rc) blockListener \<Rightarrow> bool" where
  "fixed s s' \<longleftrightarrow>
     conf s' = conf s \<and> isStarted s' = isStarted s \<and> consumers s' = consumers s \<and>
     monitoredHeadLength s' = monitoredHeadLength s \<and> currentChainHead s' = currentChainHead s \<and>
     dispatched s' = dispatched s \<and> highestBlock s \<le> highestBlock s'"

lemma fixed_same: "same_chain s s' \<Longrightarrow> fixed s s'"
  by (simp add: fixed_def same_chainD)

interpretation fx: chain_frame E fixed for E :: "('bc, 'rc) env"
proof
  show "fixed s s'" if "retriedBlockQuery E n s = (r, s')" for n r and s s' :: "('bc, 'rc) blockListener"
    using that by (intro fixed_same retriedBlockQuery_same)
  show "fixed s (checkAndSetHighestBlock b s)" for b and s :: "('bc, 'rc) blockListener"
    using checkAndSetHighestBlock_extends [of s b] by (auto simp: fixed_def extends_def)
qed (auto simp: fixed_def same_chainD [OF resetReceiptCache_same]
      same_chainD [OF fetchAndCacheBlockReceipts_same])


section \<open>The hashes of cached blocks\<close>

text \<open>What \<open>eth_getBlockByNumber\<close> and \<open>eth_getBlockByHash\<close> document of the blocks they answer,
  and the laws of the cache library.\<close>

definition node_contract :: "('bc, 'rc) env \<Rightarrow> bool" where
  "node_contract E \<longleftrightarrow>
     node_answers E \<and> lru_lawful (blockLru E) \<and>
     (\<forall>t k b. rpc_getBlockByNumber E t k = Inr (Some b) \<longrightarrow> bh_Hash (ebh_Header b) \<noteq> None) \<and>
     (\<forall>t k b. rpc_getBlockByHash E t k = Inr (Some b) \<longrightarrow> bh_Hash (ebh_Header b) \<noteq> None)"

definition hashed_cache :: "(BlockInfoJSONRPC, 'c) lru \<Rightarrow> 'c \<Rightarrow> bool" where
  "hashed_cache L c \<longleftrightarrow> (\<forall>k b. fst (lru_Get L k c) = Some b \<longrightarrow> bi_Hash b \<noteq> None)"

abbreviation cache_hashed :: "('bc, 'rc) env \<Rightarrow> ('bc, 'rc) blockListener \<Rightarrow> bool" where
  "cache_hashed E s \<equiv> hashed_cache (blockLru E) (blockCache s)"

definition hashed ::
  "('bc, 'rc) env \<Rightarrow> ('bc, 'rc) blockListener \<Rightarrow> ('bc, 'rc) blockListener \<Rightarrow> bool" where
  "hashed E s s' \<longleftrightarrow> (node_contract E \<longrightarrow> cache_hashed E s \<longrightarrow> cache_hashed E s')"

lemma hashed_refl [simp, intro]: "hashed E s s"
  by (simp add: hashed_def)

lemma hashed_trans: "hashed E s t \<Longrightarrow> hashed E t u \<Longrightarrow> hashed E s u"
  by (simp add: hashed_def)

lemma hashed_eq: "blockCache s' = blockCache s \<Longrightarrow> hashed E s s'"
  by (simp add: hashed_def)

lemma hashed_cache_Add:
  assumes L: "lru_lawful L" and c: "hashed_cache L c" and b: "bi_Hash b \<noteq> None"
  shows "hashed_cache L (lru_Add L k b c)"
  unfolding hashed_cache_def
proof (intro allI impI)
  fix k' x
  assume x: "fst (lru_Get L k' (lru_Add L k b c)) = Some x"
  show "bi_Hash x \<noteq> None"
  proof (cases "k' = k")
    case True
    with x lru_lawfulD(1) [OF L] b show ?thesis by auto
  next
    case False
    with x lru_lawfulD(2) [OF L False, of b c] c show ?thesis by (auto simp: hashed_cache_def)
  qed
qed

lemma addToBlockCache_hashed:
  assumes "bi_Hash b \<noteq> None"
  shows "hashed E s (addToBlockCache E b s)"
  using assms by (simp add: hashed_def node_contract_def addToBlockCache_def hashed_cache_Add)

lemma blockCacheGet_hashed:
  assumes "blockCacheGet E k s = (r, s')"
  shows "hashed E s s'" and "cache_hashed E s \<Longrightarrow> r = Some b \<Longrightarrow> bi_Hash b \<noteq> None"
proof -
  obtain q c where get: "lru_Get (blockLru E) k (blockCache s) = (q, c)" by fastforce
  with assms have r: "r = q" and c: "blockCache s' = c" by (auto simp: blockCacheGet_def)
  show "hashed E s s'"
    using lru_lawfulD(3) [of "blockLru E" _ k "blockCache s"] get c
    by (auto simp: hashed_def node_contract_def hashed_cache_def)
  assume "cache_hashed E s" and "r = Some b"
  with get r show "bi_Hash b \<noteq> None" by (metis fst_conv hashed_cache_def)
qed

lemma answer_hashed:
  assumes "\<And>b. ob = Some b \<Longrightarrow> bh_Hash (ebh_Header b) \<noteq> None"
  shows "hashed E s (case hashes_ToBlockInfo ob bloom of None \<Rightarrow> ticked s
                       | Some bi \<Rightarrow> addToBlockCache E bi (ticked s))"
proof (cases ob)
  case None
  then show ?thesis by (simp add: hashed_eq ticked_def)
next
  case (Some b)
  then obtain bi where bi: "hashes_ToBlockInfo ob bloom = Some bi" by (auto simp: hashes_ToBlockInfo_def)
  with Some hashes_ToBlockInfo_Some [of b bloom bi] assms [OF Some] have "bi_Hash bi \<noteq> None" by simp
  then have "hashed E (ticked s) (addToBlockCache E bi (ticked s))" by (rule addToBlockCache_hashed)
  with bi show ?thesis by (simp add: hashed_def ticked_def)
qed

lemma GetEVMBlockByNumber_hashed:
  assumes "GetEVMBlockWithTxHashesByNumber E k s = (r, s')"
  shows "hashed E s s'"
proof (cases "rpc_getBlockByNumber E (tick s) k")
  case (Inl e)
  with assms show ?thesis
    by (auto simp: GetEVMBlockWithTxHashesByNumber_def ticked_def intro: hashed_eq)
next
  case (Inr ob)
  then have "node_contract E \<Longrightarrow> ob = Some b \<Longrightarrow> bh_Hash (ebh_Header b) \<noteq> None" for b
    by (auto simp: node_contract_def)
  with Inr assms answer_hashed [of ob E s "cfg_IncludeLogsBloom (conf s)"] show ?thesis
    by (auto simp: GetEVMBlockWithTxHashesByNumber_def hashed_def)
qed

lemma GetEVMBlockByHash_hashed:
  assumes "GetEVMBlockWithTxHashesByHash E k s = (r, s')"
  shows "hashed E s s'" and "node_contract E \<Longrightarrow> r = Inr (Some b) \<Longrightarrow> bh_Hash (ebh_Header b) \<noteq> None"
proof -
  show "hashed E s s'"
  proof (cases "rpc_getBlockByHash E (tick s) k")
    case (Inl e)
    with assms show ?thesis
      by (auto simp: GetEVMBlockWithTxHashesByHash_def ticked_def intro: hashed_eq)
  next
    case (Inr ob)
    then have "node_contract E \<Longrightarrow> ob = Some b \<Longrightarrow> bh_Hash (ebh_Header b) \<noteq> None" for b
      by (auto simp: node_contract_def)
    with Inr assms answer_hashed [of ob E s "cfg_IncludeLogsBloom (conf s)"] show ?thesis
      by (auto simp: GetEVMBlockWithTxHashesByHash_def hashed_def)
  qed
  assume "node_contract E" and "r = Inr (Some b)"
  with assms show "bh_Hash (ebh_Header b) \<noteq> None"
    by (auto simp: GetEVMBlockWithTxHashesByHash_def node_contract_def split: sum.splits)
qed

lemma queryBlockByNumber_hashed: "queryBlockByNumber E n s = (r, s') \<Longrightarrow> hashed E s s'"
  by (auto simp: queryBlockByNumber_def split: prod.splits sum.splits
      dest: GetEVMBlockByNumber_hashed)

lemma GetBlockInfoByNumber_hashed:
  assumes "GetBlockInfoByNumber E n c p h s = (r, s')"
  shows "hashed E s s'"
proof (cases c)
  case False
  with assms show ?thesis by (simp add: GetBlockInfoByNumber_def queryBlockByNumber_hashed)
next
  case True
  obtain q s1 where get: "blockCacheGet E (numString E n) s = (q, s1)" by fastforce
  note blockCacheGet_hashed(1) [OF this]
  moreover have "hashed E s1 s'"
    using assms True get
    by (auto simp: GetBlockInfoByNumber_def queryBlockByNumber_hashed split: option.splits if_splits)
  ultimately show ?thesis by (rule hashed_trans)
qed

lemma GetBlockInfoByHash_hashed:
  assumes "GetBlockInfoByHash E h s = (r, s')"
  shows "hashed E s s'"
    and "node_contract E \<Longrightarrow> cache_hashed E s \<Longrightarrow> r = Inr (Some b) \<Longrightarrow> bi_Hash b \<noteq> None"
proof -
  obtain q s1 where get: "blockCacheGet E h s = (q, s1)" by fastforce
  obtain r2 s2 where rpc: "GetEVMBlockWithTxHashesByHash E h s1 = (r2, s2)" by fastforce
  have eq: "(r, s') = (case q of Some x \<Rightarrow> (Inr (Some x), s1)
      | None \<Rightarrow> (case r2 of Inl e \<Rightarrow> (Inl e, s2)
                 | Inr ob \<Rightarrow> (Inr (hashes_ToBlockInfo ob (cfg_IncludeLogsBloom (conf s2))), s2)))"
    using assms get rpc by (cases q) (auto simp: GetBlockInfoByHash_def)
  show "hashed E s s'"
    using eq blockCacheGet_hashed(1) [OF get] GetEVMBlockByHash_hashed(1) [OF rpc]
    by (auto split: option.splits sum.splits intro: hashed_trans)
  assume N: "node_contract E" and C: "cache_hashed E s" and r: "r = Inr (Some b)"
  show "bi_Hash b \<noteq> None"
  proof (cases q)
    case (Some x)
    with eq r blockCacheGet_hashed(2) [OF get C] show ?thesis by simp
  next
    case None
    with eq r obtain ob where "r2 = Inr ob"
      and b: "hashes_ToBlockInfo ob (cfg_IncludeLogsBloom (conf s2)) = Some b"
      by (auto split: sum.splits)
    moreover from b obtain x where "ob = Some x" by (cases ob) auto
    ultimately show ?thesis
      using GetEVMBlockByHash_hashed(2) [OF rpc N, of x] hashes_ToBlockInfo_Some [of x _ b] by simp
  qed
qed

lemma retriedBlockQuery_hashed:
  assumes "retriedBlockQuery E n s = (r, s')"
  shows "hashed E s s'"
proof (rule retryDo_invariant [where I = "\<lambda>t. hashed E s t"])
  show "retryDo (retryRuns E (tick s))
      (\<lambda>s. case GetBlockInfoByNumber E n False '''' '''' s of (r, s') \<Rightarrow> ((True, r), s')) s = (r, s')"
    using assms by (simp add: retriedBlockQuery_def)
qed (auto split: prod.splits dest: GetBlockInfoByNumber_hashed intro: hashed_trans)

interpretation hc: chain_frame E "hashed E" for E :: "('bc, 'rc) env"
proof
  fix s t u :: "('bc, 'rc) blockListener"
  show "hashed E s t \<Longrightarrow> hashed E t u \<Longrightarrow> hashed E s u" by (rule hashed_trans)
  show "retriedBlockQuery E n s = (r, t) \<Longrightarrow> hashed E s t" for n r by (rule retriedBlockQuery_hashed)
qed (auto intro!: hashed_eq simp: checkAndSetHighestBlock_def setBlockHeightMetric_def Let_def
      resetReceiptCache_def fetchAndCacheBlockReceipts_def FetchBlockReceiptsAsync_def
      split: option.splits)

end
