(* ===== verification/PollerInvariants.thy ===== *)
theory PollerInvariants
  imports ChainFrame ReceiptGenerations
begin

text \<open>
  The invariant of the block listener, which every poll of every poller keeps, and with it every
  state the listen loop reaches. \<open>updater\<close> is the interface between the iteration over blocks
  (\<open>updateAll\<close>) and the update it applies: a relation between states that one update and every
  producer respect is respected by the iteration. It is interpreted on \<open>reconcileCanonicalChain\<close>.
\<close>

section \<open>The interface of an update\<close>

locale updater =
  fixes update :: "'e \<Rightarrow> 'b \<Rightarrow> 's \<Rightarrow> ('p \<times> 's) option"
    and ok :: "'b \<Rightarrow> bool"
    and I :: "'e \<Rightarrow> 's \<Rightarrow> bool"
    and R :: "'s \<Rightarrow> 's \<Rightarrow> bool"
  assumes update_keeps: "I E s \<Longrightarrow> ok b \<Longrightarrow> update E b s = Some (q, s') \<Longrightarrow> I E s' \<and> R s s'"
    and R_refl: "R s s"
    and R_trans: "R s t \<Longrightarrow> R t u \<Longrightarrow> R s u"
begin

lemma updateAll_keeps:
  assumes "\<forall>producer \<in> set producers. \<forall>t r t'. I E t \<longrightarrow> producer t = (r, t') \<longrightarrow>
      I E t' \<and> R t t' \<and> (\<forall>b. r = Some b \<longrightarrow> ok b)"
    and "I E s" and "updateAll update combine E producers p s = Some (q, s')"
  shows "I E s' \<and> R s s'"
  using assms
proof (induction producers arbitrary: p s)
  case Nil
  then show ?case by (simp add: R_refl)
next
  case (Cons producer producers)
  obtain r s1 where pr: "producer s = (r, s1)" by fastforce
  with Cons.prems(1,2) have s1: "I E s1" "R s s1" "\<forall>b. r = Some b \<longrightarrow> ok b"
    by simp_all
  have rest: "\<forall>producer \<in> set producers. \<forall>t r t'. I E t \<longrightarrow> producer t = (r, t') \<longrightarrow>
      I E t' \<and> R t t' \<and> (\<forall>b. r = Some b \<longrightarrow> ok b)"
    using Cons.prems(1) unfolding list.set(2) by blast
  note IH = Cons.IH [OF rest]
  show ?case
  proof (cases r)
    case None
    with Cons.prems(3) pr have "updateAll update combine E producers p s1 = Some (q, s')" by simp
    from IH [OF s1(1) this] show ?thesis using R_trans [OF s1(2)] by simp
  next
    case (Some b)
    with Cons.prems(3) pr obtain c s2 where up: "update E b s1 = Some (c, s2)"
      and rest: "updateAll update combine E producers (combine p c) s2 = Some (q, s')"
      by (auto split: option.splits)
    from s1(3) Some have "ok b" by simp
    from update_keeps [OF s1(1) this up] have s2: "I E s2" "R s1 s2" by auto
    from IH [OF s2(1) rest] show ?thesis using R_trans [OF R_trans [OF s1(2) s2(2)]] by simp
  qed
qed

end

section \<open>The invariant of the listener\<close>

definition listener_ok :: "('bc, 'rc) env \<Rightarrow> ('bc, 'rc) blockListener \<Rightarrow> bool" where
  "listener_ok E s \<longleftrightarrow>
     node_contract E \<and> chain_ok s \<and> cache_hashed E s \<and> 0 < cfg_MonitoredHeadLength (conf s) \<and>
     distinct (consumers s)"

lemma reconcile_listener_ok:
  assumes "listener_ok E s" and "bi_Hash b \<noteq> None" and "reconcileCanonicalChain E b s = Some (r, s')"
  shows "listener_ok E s' \<and> fixed s s'"
  using assms fx.frame_reconcile [OF assms(3)] hc.frame_reconcile [OF assms(3)]
    reconcile_keeps_chain_ok [OF _ _ assms(2,3)]
  by (auto simp: listener_ok_def fixed_def hashed_def node_contract_def)

lemma fixed_refl [simp, intro]: "fixed s s"
  by (simp add: fixed_def)

lemma fixed_trans: "fixed s t \<Longrightarrow> fixed t u \<Longrightarrow> fixed s u"
  by (auto simp: fixed_def)

interpretation rec: updater reconcileCanonicalChain "\<lambda>b. bi_Hash b \<noteq> None" listener_ok fixed
  by unfold_locales (auto dest: reconcile_listener_ok intro: fixed_trans)

text \<open>Operations that leave the canonical chain alone keep the invariant.\<close>

lemma same_listener_ok:
  assumes "listener_ok E s" and "same_chain s s'" and "hashed E s s'"
  shows "listener_ok E s'"
  using assms by (auto simp: listener_ok_def hashed_def same_chainD intro: chain_ok_same)

lemma quiet_listener_ok:
  "listener_ok E s \<Longrightarrow> same_chain s s' \<Longrightarrow> blockCache s' = blockCache s \<Longrightarrow> listener_ok E s'"
  by (erule same_listener_ok) (simp_all add: hashed_eq)

lemma ticked_listener_ok: "listener_ok E s \<Longrightarrow> listener_ok E (ticked s)"
  by (rule quiet_listener_ok [OF _ same_chain_ticked]) (simp_all add: ticked_def)

lemma setBlockHeightMetric_cache [simp]: "blockCache (setBlockHeightMetric m h s) = blockCache s"
  by (simp add: setBlockHeightMetric_def split: option.split)

lemma incPollFailureMetric_cache [simp]: "blockCache (incPollFailureMetric m s) = blockCache s"
  by (simp add: incPollFailureMetric_def split: option.split)

lemma queryBlockHeightFromRPC_frame:
  assumes "queryBlockHeightFromRPC E s = (r, s')"
  shows "same_chain s s'" and "blockCache s' = blockCache s"
proof -
  show "same_chain s s'" using assms
    by (auto simp: queryBlockHeightFromRPC_def Let_def split: sum.splits
        intro!: same_chain_trans [OF same_chain_ticked incPollFailureMetric_same]
          same_chain_trans [OF same_chain_ticked setBlockHeightMetric_same])
  show "blockCache s' = blockCache s" using assms
    by (auto simp: queryBlockHeightFromRPC_def Let_def ticked_def split: sum.splits)
qed

lemma refreshTarget_frame:
  "same_chain s (refreshTargetBlockHeightMetric E s)"
  "blockCache (refreshTargetBlockHeightMetric E s) = blockCache s"
  using queryBlockHeightFromRPC_frame [of E s] 
  by (auto simp: refreshTargetBlockHeightMetric_def) (metis prod.collapse)+

lemma resolveBlockHash_ok:
  assumes ok: "listener_ok E s" and run: "resolveBlockHash E h s = (r, s')"
  shows "listener_ok E s' \<and> fixed s s' \<and> (\<forall>b. r = Some b \<longrightarrow> bi_Hash b \<noteq> None)"
proof (cases "s' = s \<and> r = None")
  case True
  with ok show ?thesis by simp
next
  case False
  with run obtain k q where q: "GetBlockInfoByHash E k s = (q, s')"
    and r: "\<forall>b. r = Some b \<longrightarrow> q = Inr (Some b)"
    by (auto simp: resolveBlockHash_def Let_def split: if_splits prod.splits sum.splits)
  have same: "same_chain s s'" and "hashed E s s'"
    using q by (rule GetBlockInfoByHash_same, rule GetBlockInfoByHash_hashed)
  then have "listener_ok E s'" by (rule same_listener_ok [OF ok])
  moreover have "bi_Hash b \<noteq> None" if "r = Some b" for b
    using GetBlockInfoByHash_hashed(2) [OF q] ok r that by (simp add: listener_ok_def)
  ultimately show ?thesis using fixed_same [OF same] by simp
qed


lemma eachReceipt_cache: "eachReceipt E hs s = (r, s') \<Longrightarrow> blockCache s' = blockCache s"
proof (induction hs arbitrary: s r s')
  case (Cons h hs)
  obtain q s1 where g: "GetTransactionReceipt E (hashString E h) s = (q, s1)" by fastforce
  then have "blockCache s1 = blockCache s"
    by (auto simp: GetTransactionReceipt_def getCachedTransactionReceipt_def ticked_def
        split: option.splits sum.splits prod.splits)
  moreover have "s' = s1 \<or> (\<exists>r2. eachReceipt E hs s1 = (r2, s'))"
    using Cons.prems g by (auto split: sum.splits prod.splits)
  ultimately show ?case using Cons.IH by auto
qed simp

lemma runRequest_hashed:
  assumes "runRequest E brr s = (r, s')"
  shows "hashed E s s'"
proof (cases "cfg_UseGetBlockReceipts (conf s)")
  case True
  with assms have "s' = ticked s" by (auto simp: runRequest_def split: sum.splits option.splits)
  then show ?thesis by (simp add: hashed_eq ticked_def)
next
  case False
  obtain q s1 where q: "GetBlockInfoByHash E (hashString E (rq_blockHash brr)) s = (q, s1)"
    by fastforce
  note GetBlockInfoByHash_hashed(1) [OF q]
  moreover have "s' = s1 \<or> (\<exists>hs. eachReceipt E hs s1 = (r, s'))"
    using assms False q by (auto simp: runRequest_def split: sum.splits option.splits)
  ultimately show ?thesis by (auto dest: eachReceipt_cache intro: hashed_trans hashed_eq)
qed

section \<open>Polls\<close>

lemma dispatch_listener_ok:
  "listener_ok E s \<Longrightarrow> listener_ok E (dispatchToConsumers F cs u s)"
proof (induction F cs u s rule: dispatchToConsumers.induct)
  case (2 F c cs u s)
  have "listener_ok E (RemoveConsumer c s)" "listener_ok E (s\<lparr>dispatched := d\<rparr>)" for d
    using 2(2) by (simp_all add: listener_ok_def RemoveConsumer_def chain_ok_def ids_ok_def
        has_hashes_def chainBlocks_def)
  with 2 show ?case by (simp split: select_outcome.split)
qed simp

lemma reconcileAndDispatch_listener_ok:
  assumes "\<forall>producer \<in> set blocks. \<forall>t r t'. listener_ok E t \<longrightarrow> producer t = (r, t') \<longrightarrow>
      listener_ok E t' \<and> fixed t t' \<and> (\<forall>b. r = Some b \<longrightarrow> bi_Hash b \<noteq> None)"
    and "listener_ok E s" and "reconcileAndDispatch E blocks p s = Some (p', s')"
  shows "listener_ok E s'"
proof -
  from assms(3) obtain q s1 where up: "updateAll reconcileCanonicalChain lowerPos E blocks None s =
      Some (q, s1)" and s': "s' = (case q of None \<Rightarrow> s1 | Some e \<Rightarrow>
        dispatchToConsumers E (snapshotConsumers s1) (notifyEvent E (pl_gapPotential p) e s1) s1)"
    by (auto simp: reconcileAndDispatch_def split: option.splits)
  from rec.updateAll_keeps [OF assms(1,2) up] s' show ?thesis
    by (auto split: option.splits intro: dispatch_listener_ok)
qed

lemma headNumberPoll_listener_ok:
  assumes ok: "listener_ok E s" and run: "headNumberPoll E s = (r, s')"
  shows "listener_ok E s'"
proof -
  obtain q s1 where q: "queryBlockHeightFromRPC E s = (q, s1)" by fastforce
  with ok have s1: "listener_ok E s1"
    using queryBlockHeightFromRPC_frame by (blast intro: quiet_listener_ok)
  have acc: "listener_ok E s2" if "acceptHeadBlockNumber h s1 = (b, s2)" for h b s2
  proof -
    from that have "chain_ok s2 \<longleftrightarrow> chain_ok s1" "conf s2 = conf s1" "consumers s2 = consumers s1"
      "blockCache s2 = blockCache s1"
      by (auto simp: acceptHeadBlockNumber_def Let_def incLightModeDriftMetric_def
          setBlockHeightMetric_def chain_ok_def ids_ok_def has_hashes_def chainBlocks_def
          split: if_splits option.splits)
    with s1 show ?thesis by (simp add: listener_ok_def)
  qed
  from run q s1 show ?thesis
    by (auto simp: headNumberPoll_def split: sum.splits prod.splits bool.splits
        intro: acc dispatch_listener_ok)
qed

lemma pollFilterChanges_listener_ok:
  assumes ok: "listener_ok E s" and run: "pollFilterChanges E p s = Some (r, p', s')"
  shows "listener_ok E s'"
proof (cases "rpc_getFilterChanges E (tick s) (pl_filter p)")
  case (Inl e)
  with run have "s' = incPollFailureMetric ''eth_getFilterChanges'' (ticked s)"
    by (simp add: pollFilterChanges_def)
  with ticked_listener_ok [OF ok] show ?thesis by (auto intro: quiet_listener_ok)
next
  case (Inr hs)
  with run obtain p1 where
    rd: "reconcileAndDispatch E (resolveBlockHashes E hs) p (ticked s) = Some (p1, s')"
    by (auto simp: pollFilterChanges_def split: option.splits)
  show ?thesis
    by (rule reconcileAndDispatch_listener_ok [OF _ ticked_listener_ok [OF ok] rd])
       (auto simp: resolveBlockHashes_def dest: resolveBlockHash_ok)
qed

lemma blockFilterPoll_listener_ok:
  assumes ok: "listener_ok E s" and run: "blockFilterPoll E p s = Some (r, p', s')"
  shows "listener_ok E s'"
proof -
  let ?s1 = "refreshTargetBlockHeightMetric E s"
  have s1: "listener_ok E ?s1" by (rule quiet_listener_ok [OF ok refreshTarget_frame])
  then have t1: "listener_ok E (ticked ?s1)" by (rule ticked_listener_ok)
  then have "listener_ok E (incPollFailureMetric m (ticked ?s1))" for m
    by (auto intro: quiet_listener_ok)
  moreover have "listener_ok E (markStarted (ticked ?s1))"
    using t1 by (simp add: markStarted_def listener_ok_def chain_ok_def ids_ok_def has_hashes_def
        chainBlocks_def)
  ultimately show ?thesis using run s1
    by (auto simp: blockFilterPoll_def Let_def split: if_splits sum.splits
        dest: pollFilterChanges_listener_ok)
qed

lemma latestBlockPoll_listener_ok:
  assumes ok: "listener_ok E s" and run: "latestBlockPoll E p s = Some (r, p', s')"
  shows "listener_ok E s'"
proof -
  obtain q s1 where q: "GetEVMBlockWithTxHashesByNumber E ''latest'' s = (q, s1)" by fastforce
  have s1: "listener_ok E s1"
    by (rule same_listener_ok [OF ok GetEVMBlockWithTxHashesByNumber_same [OF q]
        GetEVMBlockByNumber_hashed [OF q]])
  then have inc: "listener_ok E (incPollFailureMetric m s1)" for m by (auto intro: quiet_listener_ok)
  show ?thesis
  proof (cases "\<exists>b bi. q = Inr b \<and> hashes_ToBlockInfo b (cfg_IncludeLogsBloom (conf s1)) = Some bi")
    case False
    with run q inc show ?thesis
      by (auto simp: latestBlockPoll_def split: sum.splits option.splits)
  next
    case True
    then obtain b bi where b: "q = Inr b" "hashes_ToBlockInfo b (cfg_IncludeLogsBloom (conf s1)) = Some bi"
      by blast
    then obtain x where x: "b = Some x" by (cases b) auto
    with q b(1) have "rpc_getBlockByNumber E (tick s) ''latest'' = Inr (Some x)"
      by (auto simp: GetEVMBlockWithTxHashesByNumber_def split: sum.splits)
    with ok hashes_ToBlockInfo_Some [of x _ bi] b(2) x have h: "bi_Hash bi \<noteq> None"
      by (auto simp: listener_ok_def node_contract_def)
    have "listener_ok E (setBlockHeightMetric m n s1)" for m n
      using s1 by (auto intro: quiet_listener_ok)
    note m1 = this
    from run q b obtain p1 where rd: "reconcileAndDispatch E [\<lambda>t. (Some bi, t)] p
        (setBlockHeightMetric TargetBlockHeight (bi_Number bi) s1) = Some (p1, s')"
      by (auto simp: latestBlockPoll_def split: option.splits)
    show ?thesis
      by (rule reconcileAndDispatch_listener_ok [OF _ m1 rd]) (use h in auto)
  qed
qed

lemma poll_listener_ok:
  "listener_ok E s \<Longrightarrow> poll E p s = Some (r, p', s') \<Longrightarrow> listener_ok E s'"
  by (auto simp: poll_def split: pollerKind.splits prod.splits
      dest: headNumberPoll_listener_ok latestBlockPoll_listener_ok blockFilterPoll_listener_ok)


section \<open>Every state of the listen loop\<close>

lemma setHighestBlock_listener_ok: "listener_ok E s \<Longrightarrow> listener_ok E (setHighestBlock h s)"
  by (auto simp: listener_ok_def setHighestBlock_def setBlockHeightMetric_def chain_ok_def
      ids_ok_def has_hashes_def chainBlocks_def split: option.split)

lemma establishBlockHeight_listener_ok:
  assumes ok: "listener_ok E s" and run: "establishBlockHeightWithRetry E s = (r, s')"
  shows "listener_ok E s'"
proof (rule retryDo_invariant [where I = "listener_ok E", OF _ ok])
  show "retryDo (retryRuns E (tick s))
       (\<lambda>s. case queryBlockHeightFromRPC E s of
              (Inl e, s1) \<Rightarrow> ((True, Inl e), s1)
            | (Inr head, s1) \<Rightarrow> ((False, Inr ()), setHighestBlock head s1)) s = (r, s')"
    using run by (simp add: establishBlockHeightWithRetry_def)
next
  fix t q t'
  assume t: "listener_ok E t" and
    step: "(case queryBlockHeightFromRPC E t of
              (Inl e, s1) \<Rightarrow> ((True, Inl e), s1)
            | (Inr head, s1) \<Rightarrow> ((False, Inr ()), setHighestBlock head s1)) = (q, t')"
  obtain x t1 where x: "queryBlockHeightFromRPC E t = (x, t1)" by fastforce
  have "listener_ok E t1" by (rule quiet_listener_ok [OF t queryBlockHeightFromRPC_frame [OF x]])
  with step x show "listener_ok E t'"
    by (auto split: sum.splits intro: setHighestBlock_listener_ok)
qed

lemma seedQuery_frame:
  assumes "retryDo n (\<lambda>s. case GetBlockInfoByNumber E b False '''' '''' s of
             (r, s') \<Rightarrow> ((isl r, r), s')) s = (r, s')"
  shows "same_chain s s' \<and> hashed E s s' \<and>
    (node_answers E \<longrightarrow> (\<forall>bi. r = Inr (Some bi) \<longrightarrow> bi_Hash bi \<noteq> None))"
proof -
  have "same_chain s s' \<and> hashed E s s'"
    by (rule retryDo_invariant [where I = "\<lambda>t. same_chain s t \<and> hashed E s t", OF _ _ assms])
       (auto split: prod.splits dest: GetBlockInfoByNumber_same GetBlockInfoByNumber_hashed
         intro: same_chain_trans hashed_trans)
  moreover have "\<forall>bi. r = Inr (Some bi) \<longrightarrow> bi_Hash bi \<noteq> None" if "node_answers E"
    by (rule retryDo_result [where P = "\<lambda>q. \<forall>bi. q = Inr (Some bi) \<longrightarrow> bi_Hash bi \<noteq> None",
          OF _ assms])
       (auto split: prod.splits dest: GetBlockInfoByNumber_answer [OF that])
  ultimately show ?thesis by simp
qed

lemma seedLoop_listener_ok:
  assumes "seedLoop E n h s = Some s'" and "listener_ok E s"
  shows "listener_ok E s'"
proof -
  let ?P = "\<lambda>E n h s t. listener_ok E s \<longrightarrow> listener_ok E t"
  have "?P E n h s s'"
  proof (rule seedLoop.raw_induct [where P = ?P, OF _ assms(1)], intro impI)
    fix f :: "('a, 'b) env \<Rightarrow> u64 \<Rightarrow> u64 \<Rightarrow> ('a, 'b) blockListener \<Rightarrow> ('a, 'b) blockListener option"
      and E n h s t
    assume IH: "\<And>E n h s t. f E n h s = Some t \<Longrightarrow> ?P E n h s t"
      and eq: "(if \<not> n \<le> h then Some s
      else (case retryDo (retryRuns E (tick s))
                  (\<lambda>s. case GetBlockInfoByNumber E n False '''' '''' s of
                         (r, s') \<Rightarrow> ((isl r, r), s')) s of
              (Inl e, s1) \<Rightarrow> Some s1
            | (Inr None, s1) \<Rightarrow> Some s1
            | (Inr (Some bi), s1) \<Rightarrow>
                (case reconcileCanonicalChain E bi s1 of
                   None \<Rightarrow> None
                 | Some (candidate, s2) \<Rightarrow> f E (n + 1) h s2))) = Some t"
      and ok: "listener_ok E s"
    obtain q s1 where q: "retryDo (retryRuns E (tick s))
                  (\<lambda>s. case GetBlockInfoByNumber E n False '''' '''' s of
                         (r, s') \<Rightarrow> ((isl r, r), s')) s = (q, s1)" by fastforce
    note fr = seedQuery_frame [OF this]
    have s1: "listener_ok E s1" using fr by (blast intro: same_listener_ok [OF ok])
    show "listener_ok E t"
    proof (cases "\<exists>bi. n \<le> h \<and> q = Inr (Some bi)")
      case False
      with eq q ok s1 show ?thesis by (auto split: if_splits sum.splits option.splits)
    next
      case True
      then obtain bi where bi: "n \<le> h" "q = Inr (Some bi)" by blast
      with eq q obtain c s2 where rec: "reconcileCanonicalChain E bi s1 = Some (c, s2)"
        and f: "f E (n + 1) h s2 = Some t" by (auto split: option.splits)
      have "bi_Hash bi \<noteq> None" using fr bi ok by (simp add: listener_ok_def node_contract_def)
      from reconcile_listener_ok [OF s1 this rec] IH [OF f] show ?thesis by blast
    qed
  qed
  with assms(2) show ?thesis by simp
qed

lemma newBlockPoller_listener_ok:
  assumes ok: "listener_ok E s" and run: "newBlockPoller E s = Some (p, s')"
  shows "listener_ok E s'"
proof -
  have mark: "listener_ok E (markStarted t)" if "listener_ok E t" for t
    using that by (simp add: markStarted_def listener_ok_def chain_ok_def ids_ok_def has_hashes_def
        chainBlocks_def)
  have "listener_ok E t" if "seedMonitoredHead E s = Some t" for t
    using that ok by (auto simp: seedMonitoredHead_def split: if_splits intro: seedLoop_listener_ok)
  with run ok mark show ?thesis
    by (auto simp: newBlockPoller_def split: if_splits option.splits)
qed

lemma completeFetch_listener_ok:
  assumes ok: "listener_ok E s"
  shows "listener_ok E (completeFetch E brr s)"
proof (rule same_listener_ok [OF ok completeFetch_same])
  let ?s = "s\<lparr>asyncRequests := remove1 brr (asyncRequests s)\<rparr>"
  obtain r s1 where run: "runRequest E brr ?s = (r, s1)" by fastforce
  have "hashed E ?s s1"
    by (rule runRequest_hashed [OF run])
  moreover have "hashed E s ?s" by (simp add: hashed_eq)
  ultimately have "hashed E s s1" by (rule hashed_trans [rotated])
  moreover have "blockCache (storeReceiptsInCache E rs g s1) = blockCache s1" for rs g
    by (simp add: storeReceiptsInCache_def split: option.split)
  ultimately show "hashed E s (completeFetch E brr s)"
    using run by (auto simp: completeFetch_def hashed_def split: sum.splits)
qed

lemma listener_reaches_ok:
  assumes "listener_ok E s0"
  shows "listener_reaches E s0 st \<Longrightarrow> listener_ok E (snd (snd st))"
proof (induction rule: listener_reaches.induct)
  case (listener_start r s1 p s2)
  with assms show ?case
    by (auto intro: newBlockPoller_listener_ok establishBlockHeight_listener_ok)
next
  case (listener_poll st st')
  then show ?case
    by (auto simp: listenLoopStep_def split: prod.splits option.splits dest: poll_listener_ok)
next
  case (listener_add n p s c)
  then show ?case
    by (auto simp: AddConsumer_def listener_ok_def chain_ok_def ids_ok_def has_hashes_def chainBlocks_def)
next
  case (listener_remove n p s c)
  then show ?case
    by (simp add: RemoveConsumer_def listener_ok_def chain_ok_def ids_ok_def has_hashes_def
        chainBlocks_def)
next
  case (listener_fetched n p s brr)
  then show ?case by (simp add: completeFetch_listener_ok)
next
  case (listener_query_number n p s b c ph bh q s')
  from same_listener_ok [OF _ GetBlockInfoByNumber_same GetBlockInfoByNumber_hashed,
      OF _ listener_query_number(2) listener_query_number(2)] listener_query_number(3)
  show ?case by simp
next
  case (listener_query_hash n p s h q s')
  from same_listener_ok [OF _ GetBlockInfoByHash_same GetBlockInfoByHash_hashed(1),
      OF _ listener_query_hash(2) listener_query_hash(2)] listener_query_hash(3)
  show ?case by simp
qed

end
