(* ===== verification/PollerProofs.thy ===== *)
theory PollerProofs
  imports PollerInvariants ChainConvergence
begin

text \<open>
  What the polls achieve: the head of light mode, the dispatch of an update, the convergence of a
  poll of the latest block, and the seeding of the monitored head.
\<close>

section \<open>Marks\<close>

interpretation highest: high_water highestBlock bi_Number checkAndSetHighestBlock "\<lambda>s b. True"
  by unfold_locales (simp_all add: checkAndSetHighestBlock_fields)

definition acceptHead :: "u64 \<Rightarrow> ('bc, 'rc) blockListener \<Rightarrow> ('bc, 'rc) blockListener" where
  "acceptHead head s = snd (acceptHeadBlockNumber head s)"

text \<open>Readings, and the head, that lie within the monitored length above \<open>lo\<close>.\<close>

definition within_drift :: "u64 \<Rightarrow> ('bc, 'rc) blockListener \<Rightarrow> u64 \<Rightarrow> bool" where
  "within_drift lo s h \<longleftrightarrow>
     lo \<le> h \<and> h - lo \<le> monitoredHeadLength s \<and>
     lo \<le> currentChainHead s \<and> currentChainHead s - lo \<le> monitoredHeadLength s"

lemma acceptHead_length [simp]: "monitoredHeadLength (acceptHead h s) = monitoredHeadLength s"
  by (auto simp: acceptHead_def acceptHeadBlockNumber_def Let_def incLightModeDriftMetric_def
      setBlockHeightMetric_def split: option.split)

lemma acceptHead_max:
  assumes "within_drift lo s h"
  shows "currentChainHead (acceptHead h s) = max (currentChainHead s) h"
proof -
  have "currentChainHead s - h \<le> monitoredHeadLength s" if "h < currentChainHead s"
  proof -
    have "unat (currentChainHead s - h) \<le> unat (currentChainHead s - lo)"
      using assms that
      by (simp add: within_drift_def unat_sub u64_le_unat u64_less_unat diff_le_mono2)
    then show ?thesis using assms by (simp add: within_drift_def u64_le_unat)
  qed
  then show ?thesis
    by (auto simp: acceptHead_def acceptHeadBlockNumber_def Let_def incLightModeDriftMetric_def
        setBlockHeightMetric_def max_def split: option.split)
qed

interpretation head: high_water currentChainHead "\<lambda>h. h" acceptHead "within_drift lo" for lo :: u64
proof
  fix s :: "('bc, 'rc) blockListener" and a b
  assume a: "within_drift lo s a" and b: "within_drift lo s b"
  show "within_drift lo (acceptHead a s) b"
    using a b acceptHead_max [OF a] by (auto simp: within_drift_def max_def)
qed (rule acceptHead_max)

section \<open>Dispatch\<close>

lemma dispatchToConsumers_effect:
  assumes "distinct cs"
  shows "dispatched (dispatchToConsumers E cs u s) = dispatched s @
      map (\<lambda>c. (c, u)) (filter (\<lambda>c. consumerSelect E (tick s) c = UpdateSent) cs)"
    and "consumers (dispatchToConsumers E cs u s) =
      filter (\<lambda>c. \<not> (c \<in> set cs \<and> consumerSelect E (tick s) c = ConsumerClosed)) (consumers s)"
    and "canonicalChain (dispatchToConsumers E cs u s) = canonicalChain s"
  using assms
proof (induction E cs u s rule: dispatchToConsumers.induct)
  case (2 E c cs u s)
  { case 1 with 2 show ?case
      by (auto simp: RemoveConsumer_def split: select_outcome.split) }
  { case 2 with "2.IH" show ?case
      by (auto simp: RemoveConsumer_def intro!: filter_cong split: select_outcome.split) }
  { case 3 with "2.IH" show ?case
      by (auto simp: RemoveConsumer_def split: select_outcome.split) }
qed simp_all


section \<open>The poll of the latest block\<close>

lemma behind_same:
  "same_chain s s' \<Longrightarrow> behind blk H s \<Longrightarrow> behind blk H s'"
  by (auto simp: behind_def chainBlocks_def same_chainD intro: chain_ok_same)

lemma dispatch_blocks: "distinct cs \<Longrightarrow> chainBlocks (dispatchToConsumers E cs u s) = chainBlocks s"
  by (simp add: chainBlocks_def dispatchToConsumers_effect)

lemma dispatch_conf: "conf (dispatchToConsumers E cs u s) = conf s"
  by (induction E cs u s rule: dispatchToConsumers.induct)
     (auto simp: RemoveConsumer_def split: select_outcome.split)

lemma latestBlockPoll_converges:
  assumes node: "stable_node E blk H" and H: "H + 1 \<noteq> 0" and s: "behind blk H s"
    and M: "cfg_MonitoredHeadLength (conf s) > 0" and d: "distinct (consumers s)"
    and latest: "\<forall>t. rpc_getBlockByNumber E t ''latest'' = Inr (Some (blk H))"
  shows "\<exists>p' s'. latestBlockPoll E p s = Some (None, p', s') \<and> holds_node_chain blk H s' \<and>
    pl_gapPotential p' = False"
proof -
  let ?bi = "nodeBlock blk (cfg_IncludeLogsBloom (conf s)) H"
  obtain q s1 where get: "GetEVMBlockWithTxHashesByNumber E ''latest'' s = (q, s1)" by fastforce
  have same: "same_chain s s1" using get by (rule GetEVMBlockWithTxHashesByNumber_same)
  have q: "q = Inr (Some (blk H))"
    using get latest by (auto simp: GetEVMBlockWithTxHashesByNumber_def split: option.splits)
  have bi: "hashes_ToBlockInfo (Some (blk H)) (cfg_IncludeLogsBloom (conf s1)) = Some ?bi"
    using same by (simp add: hashes_ToBlockInfo_def nodeBlock_def same_chainD)
  let ?s2 = "setBlockHeightMetric TargetBlockHeight (bi_Number ?bi) s1"
  have same2: "same_chain s ?s2" using same by (blast intro: same_chain_trans setBlockHeightMetric_same)
  have "\<exists>r s'. reconcileCanonicalChain E ?bi ?s2 = Some (r, s') \<and> holds_node_chain blk H s'"
    by (rule reconcile_converges [OF node H behind_same [OF same2 s]])
       (use M stable_nodeD(2) [OF node] in
          \<open>simp_all add: same_chainD [OF setBlockHeightMetric_same] same_chainD [OF same]\<close>)
  then obtain r s3 where rec: "reconcileCanonicalChain E ?bi ?s2 = Some (r, s3)"
    and hold: "holds_node_chain blk H s3" by blast
  have "distinct (consumers s3)"
    using fx.frame_reconcile [OF rec] d
    by (simp add: fixed_def same_chainD [OF setBlockHeightMetric_same] same_chainD [OF same])
  then have "holds_node_chain blk H (dispatchToConsumers E (snapshotConsumers s3) u s3)" for u
    using hold by (simp add: holds_node_chain_def dispatch_blocks dispatch_conf snapshotConsumers_def)
  with hold get q bi rec show ?thesis
    by (auto simp: latestBlockPoll_def reconcileAndDispatch_def lowerPos_def split: option.split)
qed

section \<open>Seeding the monitored head\<close>

lemma reconcile_append:
  assumes ok: "ids_ok s" and ch: "canonicalChain s = pre @ [p]" and fit: "bi_IsParentOf (el_val p) b"
    and less: "bi_Number (el_val p) < bi_Number b"
    and M: "int (length (canonicalChain s)) < cfg_MonitoredHeadLength (conf s)"
  shows "\<exists>r s'. reconcileCanonicalChain E b s = Some (r, s') \<and> ids_ok s' \<and>
    chainBlocks s' = chainBlocks s @ [b] \<and> conf s' = conf s \<and>
    highestBlock s' = max (highestBlock s) (bi_Number b)"
proof -
  let ?s = "checkAndSetHighestBlock b s"
  have ids: "ids_ok ?s" and chs: "canonicalChain ?s = pre @ [p]"
    using ok ch by (simp_all add: ids_ok_def checkAndSetHighestBlock_fields)
  obtain e s1 where ins: "list_InsertAfter b p ?s = (e, s1)" by fastforce
  have "distinct (map el_id (canonicalChain ?s))" using ids by (simp add: ids_ok_def)
  from upToElem_split [OF this, of pre p "[]"] chs
  have up: "upToElem p (canonicalChain ?s) = pre @ [p]" and aft: "afterElem p (canonicalChain ?s) = []"
    by simp_all
  have "p \<in> set (canonicalChain ?s)" using chs by simp
  note c = insert_removeAfter_chain [OF ids this ins]
  let ?t = "fetchAndCacheBlockReceipts b (trimToMonitoredHead (removeAfter e s1))"
  have conf: "conf s1 = conf s" "highestBlock s1 = max (highestBlock s) (bi_Number b)"
    using ins by (auto simp: list_InsertAfter_def Let_def checkAndSetHighestBlock_fields)
  have nb: "\<not> bi_Equal (el_val p) b" "bi_Number (el_val p) \<noteq> bi_Number b"
    using less by (auto simp: bi_Equal_def)
  have "bi_Number (el_val p) = bi_Number b - 1" using bi_IsParentOf_number [OF fit] by simp
  then have run: "reconcileCanonicalChain E b s = Some (Some e, ?t)"
    using nb less fit ins chs c(4) aft
    by (simp add: reconcileCanonicalChain_def Let_def handleNewBlock_def bi_IsParentOf_def)
  have tch: "canonicalChain ?t = pre @ [p, e]"
    using c(1) up M ch conf
    by (simp add: same_chainD [OF fetchAndCacheBlockReceipts_same] trimToMonitoredHead_def
        removeAfter_def)
  have tn: "nextElem ?t = Suc (nextElem s)" "conf ?t = conf s"
    "highestBlock ?t = max (highestBlock s) (bi_Number b)"
    using c(3) conf by (simp_all add: same_chainD [OF fetchAndCacheBlockReceipts_same]
        trimToMonitoredHead_def removeAfter_def checkAndSetHighestBlock_fields)
  have "ids_ok ?t" using ok ch c(2) tch tn
    by (auto simp: ids_ok_def checkAndSetHighestBlock_fields less_Suc_eq)
  moreover have "chainBlocks ?t = chainBlocks s @ [b]"
    using tch ch c(2) by (simp add: chainBlocks_def)
  ultimately show ?thesis using run tn by blast
qed

lemma reconcile_first:
  assumes "canonicalChain s = []" and "cfg_MonitoredHeadLength (conf s) > 0"
  shows "\<exists>r s'. reconcileCanonicalChain E b s = Some (r, s') \<and> ids_ok s' \<and>
    chainBlocks s' = [b] \<and> conf s' = conf s \<and>
    highestBlock s' = max (highestBlock s) (bi_Number b)"
proof -
  let ?s = "list_Init (resetReceiptCache E (checkAndSetHighestBlock b s))"
  obtain e s1 where push: "list_PushBack b ?s = (e, s1)" by fastforce
  let ?t = "fetchAndCacheBlockReceipts b (trimToMonitoredHead s1)"
  have run: "reconcileCanonicalChain E b s = Some (Some e, ?t)"
    using assms(1) push
    by (simp add: reconcileCanonicalChain_def Let_def checkAndSetHighestBlock_fields handleNewBlock_def)
  have c: "conf ?s = conf s" "canonicalChain ?s = []"
    "highestBlock ?s = max (highestBlock s) (bi_Number b)"
    by (simp_all add: list_Init_def same_chainD [OF resetReceiptCache_same]
        checkAndSetHighestBlock_fields)
  from list_PushBack_extends [OF push] c have
    s1: "canonicalChain s1 = [e]" "el_val e = b" "el_id e < nextElem s1" "conf s1 = conf s"
    by (auto simp: extends_def)
  have h1: "highestBlock s1 = max (highestBlock s) (bi_Number b)"
    using push c(3) by (auto simp: list_PushBack_def Let_def)
  have "ids_ok ?t" "chainBlocks ?t = [b]" "conf ?t = conf s"
    "highestBlock ?t = max (highestBlock s) (bi_Number b)"
    using s1 h1 assms(2) by (simp_all add: ids_ok_def chainBlocks_def trimToMonitoredHead_def
        same_chainD [OF fetchAndCacheBlockReceipts_same])
  with run show ?thesis by blast
qed


lemma seedQuery_stable:
  assumes "stable_node E blk H" and "n \<le> H"
  obtains s' where "same_chain s s'"
    "retryDo k (\<lambda>s. case GetBlockInfoByNumber E n False '''' '''' s of (r, s') \<Rightarrow> ((isl r, r), s')) s =
       (Inr (Some (nodeBlock blk (cfg_IncludeLogsBloom (conf s)) n)), s')"
proof -
  have "\<exists>s'. GetBlockInfoByNumber E n False '''' '''' s =
      (Inr (Some (nodeBlock blk (cfg_IncludeLogsBloom (conf s)) n)), s')"
    using assms by (simp add: GetBlockInfoByNumber_uncached stable_node_def hashes_ToBlockInfo_def
        nodeBlock_def Let_def)
  then obtain s1 where q: "GetBlockInfoByNumber E n False '''' '''' s =
      (Inr (Some (nodeBlock blk (cfg_IncludeLogsBloom (conf s)) n)), s1)" ..
  show thesis
    by (rule that [OF GetBlockInfoByNumber_same [OF q] retryDo_success [where retry = False]])
       (simp add: q)
qed

text \<open>The state of the seeding before block \<open>n\<close>: the blocks of the node from the start up to it.\<close>

definition seeded ::
  "(u64 \<Rightarrow> EVMBlockWithTxHashesJSONRPC) \<Rightarrow> u64 \<Rightarrow> u64 \<Rightarrow> ('bc, 'rc) blockListener \<Rightarrow> bool" where
  "seeded blk a n s \<longleftrightarrow>
     ids_ok s \<and> a \<le> n \<and>
     chainBlocks s = (if n = a then [] else segment blk (cfg_IncludeLogsBloom (conf s)) a (n - 1))"

lemma seeded_step:
  assumes node: "stable_node E blk H" and s: "seeded blk a n s" and n: "n \<le> H" and H: "H + 1 \<noteq> 0"
    and M: "int (unat H - unat a) < cfg_MonitoredHeadLength (conf s)"
  shows "\<exists>r s'. reconcileCanonicalChain E (nodeBlock blk (cfg_IncludeLogsBloom (conf s)) n) s =
    Some (r, s') \<and> seeded blk a (n + 1) s' \<and> conf s' = conf s \<and>
    highestBlock s' = max (highestBlock s) n"
proof (cases "n = a")
  case True
  let ?b = "nodeBlock blk (cfg_IncludeLogsBloom (conf s)) n"
  have "canonicalChain s = []" using s True by (simp add: seeded_def chainBlocks_def)
  from reconcile_first [OF this, of E ?b] M obtain r s' where
    "reconcileCanonicalChain E ?b s = Some (r, s')" "ids_ok s'" "chainBlocks s' = [?b]"
    "conf s' = conf s" "highestBlock s' = max (highestBlock s) n"
    using stable_nodeD(1) [OF node] by force
  moreover have "a \<le> n + 1" "n + 1 \<noteq> a"
    using True n H by (simp_all add: u64_le_unat unat_u64_next)
  ultimately show ?thesis using True by (auto simp: seeded_def)
next
  case False
  let ?bloom = "cfg_IncludeLogsBloom (conf s)" and ?m = "n - 1"
  let ?b = "nodeBlock blk ?bloom n"
  have an: "a < n" using s False by (simp add: seeded_def order_le_less)
  then have n0: "n \<noteq> 0" by auto
  have m: "?m < n" "a \<le> ?m" "unat ?m = unat n - 1"
    using unat_u64_pred [OF n0] an by (auto simp: u64_less_unat u64_le_unat)
  have ch: "chainBlocks s = segment blk ?bloom a ?m" and ids: "ids_ok s"
    using s False by (simp_all add: seeded_def)
  have "segment blk ?bloom a ?m \<noteq> []" using m(2) by (simp add: segment_def u64_le_unat)
  then have ne: "canonicalChain s \<noteq> []" using ch by (auto simp: chainBlocks_def)
  then obtain pre p where p: "canonicalChain s = pre @ [p]" by (metis append_butlast_last_id)
  have last: "last (segment blk ?bloom a ?m) = nodeBlock blk ?bloom ?m"
    using m(2) by (simp add: segment_def u64_le_unat)
  then have ep: "el_val p = nodeBlock blk ?bloom ?m"
    using arg_cong [OF ch, of last] p by (simp add: chainBlocks_def)
  have mH: "?m < H" using m(1) n by (rule less_le_trans)
  have fit: "bi_IsParentOf (el_val p) ?b"
    using stable_nodeD(3) [OF node mH] stable_nodeD(1) [OF node]
    by (simp add: ep bi_IsParentOf_def)
  have less: "bi_Number (el_val p) < bi_Number ?b"
    using m(1) stable_nodeD(1) [OF node] by (simp add: ep)
  have "length (canonicalChain s) = unat n - unat a"
    using arg_cong [OF ch, of length] m an
    by (simp add: chainBlocks_def segment_def u64_less_unat del: upt_Suc)
  also have "\<dots> \<le> unat H - unat a" using n by (simp add: u64_le_unat diff_le_mono)
  finally have "int (length (canonicalChain s)) \<le> int (unat H - unat a)"
    by (simp only: of_nat_le_iff)
  then have "int (length (canonicalChain s)) < cfg_MonitoredHeadLength (conf s)"
    using M by (rule le_less_trans)
  from reconcile_append [OF ids p fit less this, of E] obtain r s' where
    run: "reconcileCanonicalChain E ?b s = Some (r, s')" "ids_ok s'"
    "chainBlocks s' = chainBlocks s @ [?b]" "conf s' = conf s"
    "highestBlock s' = max (highestBlock s) n"
    using stable_nodeD(1) [OF node] by auto
  have "segment blk ?bloom a n = segment blk ?bloom a ?m @ [?b]"
    using segment_snoc [OF m(2) m(1), of blk ?bloom] by simp
  moreover have "a \<le> n + 1" "n + 1 \<noteq> a"
    using an n H by (auto simp: u64_le_unat u64_less_unat unat_u64_next dest: arg_cong [of _ _ unat])
  ultimately have "seeded blk a (n + 1) s'" using run ch by (simp add: seeded_def)
  with run show ?thesis by blast
qed

lemma seedLoop_stable:
  assumes node: "stable_node E blk H" and H: "H + 1 \<noteq> 0"
  shows "seeded blk a n s \<Longrightarrow> n \<le> H + 1 \<Longrightarrow>
     int (unat H - unat a) < cfg_MonitoredHeadLength (conf s) \<Longrightarrow>
     highestBlock s = H \<Longrightarrow>
     \<exists>s'. seedLoop E n H s = Some s' \<and> seeded blk a (H + 1) s' \<and> conf s' = conf s \<and>
       highestBlock s' = H"
proof (induction "unat (H + 1 - n)" arbitrary: n s)
  case 0
  then have n: "n = H + 1" by (metis eq_iff_diff_eq_0 unat_eq_zero)
  with H have "\<not> n \<le> H" by (simp add: u64_le_unat unat_u64_Suc)
  with 0 n show ?case by (simp add: seedLoop.simps)
next
  case (Suc k)
  then have "n \<noteq> H + 1" by auto
  with Suc.prems(2) have n: "n \<le> H"
    using inc_le linorder_not_less by (metis order_le_less)
  let ?bi = "nodeBlock blk (cfg_IncludeLogsBloom (conf s)) n"
  obtain s1 where same: "same_chain s s1" and q: "retryDo (retryRuns E (tick s))
      (\<lambda>s. case GetBlockInfoByNumber E n False '''' '''' s of (r, s') \<Rightarrow> ((isl r, r), s')) s =
      (Inr (Some ?bi), s1)"
    by (rule seedQuery_stable [OF node n])
  have s1: "seeded blk a n s1" "conf s1 = conf s" "highestBlock s1 = H"
    using Suc.prems(1,4) same by (simp_all add: seeded_def ids_ok_def chainBlocks_def same_chainD)
  from seeded_step [OF node s1(1) n H] Suc.prems(3) s1(2) obtain r s2 where
    rec: "reconcileCanonicalChain E ?bi s1 = Some (r, s2)" and s2: "seeded blk a (n + 1) s2"
      "conf s2 = conf s" "highestBlock s2 = H" using n s1(3) by auto
  have step: "seedLoop E n H s = seedLoop E (n + 1) H s2"
    using n q rec by (subst seedLoop.simps) simp
  have k: "k = unat (H + 1 - (n + 1))"
    using Suc.hyps(2) unat_u64_pred [of "H + 1 - n"] \<open>n \<noteq> H + 1\<close> by (simp add: diff_diff_eq)
  have "n + 1 \<le> H + 1" using n H by (simp add: u64_le_unat unat_u64_next unat_u64_Suc)
  from Suc.hyps(1) [OF k s2(1) this] Suc.prems(3) s2(2,3) step show ?case by auto
qed


lemma seedMonitoredHead_stable:
  assumes node: "stable_node E blk H" and H: "H + 1 \<noteq> 0"
    and s: "ids_ok s" "canonicalChain s = []" "highestBlockSet s" "highestBlock s = H"
    and M: "monitoredHeadLength s = word_of_int (cfg_MonitoredHeadLength (conf s))"
      "0 < cfg_MonitoredHeadLength (conf s)" "cfg_MonitoredHeadLength (conf s) < 2 ^ 63"
  shows "\<exists>s'. seedMonitoredHead E s = Some s' \<and> conf s' = conf s \<and> highestBlock s' = H \<and>
    chainBlocks s' = segment blk (cfg_IncludeLogsBloom (conf s)) (seedStart s) H"
proof -
  let ?a = "seedStart s" and ?M = "nat (cfg_MonitoredHeadLength (conf s))"
  have uM: "unat (monitoredHeadLength s) = ?M"
    using M by (simp add: unat_eq_nat_uint uint_word_of_int)
  have a: "?a \<le> H \<and> unat H - unat ?a < ?M"
  proof (cases "highestBlock s \<ge> monitoredHeadLength s")
    case True
    then have "monitoredHeadLength s \<le> H" using s by simp
    then have d: "unat (H - monitoredHeadLength s) = unat H - ?M" "?M \<le> unat H"
      by (simp_all add: u64_le_unat unat_sub uM)
    then have "H - monitoredHeadLength s < H" using M(2) by (simp add: u64_less_unat)
    then have "unat (H - monitoredHeadLength s + 1) = unat H - ?M + 1"
      using d unat_u64_succ by metis
    with True s d M(2) show ?thesis by (simp add: seedStart_def u64_le_unat)
  next
    case False
    then have "unat H < ?M" using s uM by (simp add: u64_le_unat)
    with False s show ?thesis by (simp add: seedStart_def)
  qed
  then have aH: "?a \<le> H + 1" using H by (simp add: u64_le_unat unat_u64_Suc)
  have "seeded blk ?a ?a s" using s by (simp add: seeded_def chainBlocks_def)
  moreover have "int (unat H - unat ?a) < cfg_MonitoredHeadLength (conf s)" using a M(2) by linarith
  ultimately obtain s' where "seedLoop E ?a H s = Some s'" "seeded blk ?a (H + 1) s'" "conf s' = conf s"
    "highestBlock s' = H"
    using seedLoop_stable [OF node H _ aH] s(4) by blast
  moreover have "H + 1 \<noteq> ?a"
    using a unat_u64_Suc [OF H] by (metis Suc_n_not_le_n u64_le_unat)
  ultimately show ?thesis using s by (auto simp: seedMonitoredHead_def seeded_def)
qed

end
