(* ===== verification/PollerProperties.thy ===== *)
theory PollerProperties
  imports PollerProofs ChainProperties
begin

text \<open>
  The properties of the listen loop and its pollers, with the inputs on which they are applied.
\<close>

lemma exEnv_contract: "node_contract (exEnv H)"
  using stable_node_answers [OF exEnv_stable, of H]
  by (auto simp: node_contract_def exEnv_def exNode_def exHash_def Let_def split: if_splits)

lemma exLru_hashed [simp]: "hashed_cache exLru []"
  by (simp add: hashed_cache_def exLru_def)

lemma exState_cache [simp]: "blockCache (exState bs) = []" "consumers (exState bs) = [0]"
  by (simp_all add: exState_def)

text \<open>C10. The listener is well formed in every state of its life. From a well-formed start, through
  the establishment of the height, the seeding, any sequence of polls of any poller against any
  node that answers with the right number and a hash, with consumers that come and go, receipt
  fetches that complete and cache lookups in between, the canonical chain stays a linked list of
  distinct elements and no consumer is registered twice.\<close>

theorem listener_always_well_formed:
  assumes "listener_ok E s0" and "listener_reaches E s0 (n, p, s)"
  shows "chain_ok s \<and> linked (SnapshotMonitoredHeadChain s) \<and> distinct (consumers s)"
  using listener_reaches_ok [OF assms]
  by (simp add: listener_ok_def chain_ok_def SnapshotMonitoredHeadChain_def chainBlocks_def)

definition exLightStart :: "(exBc, exRc) blockListener" where
  "exLightStart = (exState [])\<lparr>conf := (conf (exState []))\<lparr>cfg_ChainTrackingMode := ChainTrackingModeLight\<rparr>\<rparr>"

lemma exLightStart_ok: "listener_ok (exEnv 3) exLightStart"
  using exState_ok [of "[]"]
  by (simp add: listener_ok_def exEnv_contract exLightStart_def chain_ok_def ids_ok_def has_hashes_def
      chainBlocks_def)

theorem listener_always_well_formed_witness:
  "\<exists>n p s. listener_reaches (exEnv 3) exLightStart (n, p, s) \<and> chain_ok s"
proof -
  obtain r s1 where est: "establishBlockHeightWithRetry (exEnv 3) exLightStart = (r, s1)" by fastforce
  have "fst (establishBlockHeightWithRetry (exEnv 3) exLightStart) = Inr () \<and>
      cfg_ChainTrackingMode (conf (snd (establishBlockHeightWithRetry (exEnv 3) exLightStart))) =
        ChainTrackingModeLight"
    by (simp add: establishBlockHeightWithRetry_def exEnv_def queryBlockHeightFromRPC_def Let_def
        exLightStart_def exState_def setBlockHeightMetric_def setHighestBlock_def ticked_def)
  with est have "cfg_ChainTrackingMode (conf s1) = ChainTrackingModeLight" by simp
  then obtain p where "newBlockPoller (exEnv 3) s1 = Some (p, markStarted s1)"
    by (simp add: newBlockPoller_def)
  from listener_start [OF est this] have "listener_reaches (exEnv 3) exLightStart (0, p, markStarted s1)" .
  with listener_always_well_formed [OF exLightStart_ok this] show ?thesis by blast
qed

text \<open>C11. A poll of the latest block catches up with the node. In client filter polling mode, on a
  node that serves one chain up to its latest block, a poll from any well-formed chain that has
  not run ahead returns without an error, and the canonical chain is then a segment of the node's
  chain that ends at its latest block; the gap flag is cleared.\<close>

theorem latest_block_poll_catches_up:
  assumes "stable_node E blk H" and "H + 1 \<noteq> 0" and "behind blk H s"
    and "cfg_MonitoredHeadLength (conf s) > 0" and "distinct (consumers s)"
    and "\<forall>t. rpc_getBlockByNumber E t ''latest'' = Inr (Some (blk H))"
    and "pl_kind p = LatestBlockPoller"
  shows "\<exists>p' s'. poll E p s = Some (None, p', s') \<and> holds_node_chain blk H s' \<and>
    pl_gapPotential p' = False"
  using latestBlockPoll_converges [OF assms(1-6)] assms(7) by (simp add: poll_def)

text \<open>The example node does not know \<open>latest\<close> by its name; this one does.\<close>

definition exLatestEnv :: "(exBc, exRc) env" where
  "exLatestEnv = (exEnv 3)\<lparr>numString := (\<lambda>n. replicate (Suc (unat n)) CHR ''n''),
     rpc_getBlockByNumber := (\<lambda>t k. Inr (if k = ''latest'' then Some (exBlock 3) else exNode 3 (tl k)))\<rparr>"

lemma exLatest_stable: "stable_node exLatestEnv exBlock 3"
proof -
  have "replicate (Suc n) CHR ''n'' \<noteq> ''latest''" for n by simp
  then show ?thesis by (simp add: stable_node_def exLatestEnv_def exNode_def exHash_def)
qed

theorem latest_block_poll_catches_up_witness:
  "\<exists>p' s'. poll exLatestEnv \<lparr>pl_kind = LatestBlockPoller, pl_gapPotential = True, pl_filter = ''''\<rparr>
       (exState [exInfo 1, exOrphan]) = Some (None, p', s') \<and> holds_node_chain exBlock 3 s'"
proof -
  have "behind exBlock 3 (exState [exInfo 1, exOrphan])"
    using exState_orphan_ok by (simp add: behind_def exState_chain exOrphan_number)
  from latest_block_poll_catches_up [OF exLatest_stable _ this,
      of "\<lparr>pl_kind = LatestBlockPoller, pl_gapPotential = True, pl_filter = ''''\<rparr>"]
  show ?thesis by (auto simp: exLatestEnv_def)
qed

text \<open>C12. Seeding fills the monitored window. When the listener starts with an empty chain and the
  height of the node, on a node that serves its chain, the seeding returns and leaves exactly the
  node's blocks from \<open>highestBlock - MonitoredHeadLength + 1\<close> (or from block 0) to the head.\<close>

theorem seeding_fills_the_window:
  assumes "stable_node E blk H" and "H + 1 \<noteq> 0"
    and "ids_ok s" and "canonicalChain s = []" and "highestBlockSet s" and "highestBlock s = H"
    and "monitoredHeadLength s = word_of_int (cfg_MonitoredHeadLength (conf s))"
    and "0 < cfg_MonitoredHeadLength (conf s)" and "cfg_MonitoredHeadLength (conf s) < 2 ^ 63"
  shows "\<exists>s'. seedMonitoredHead E s = Some s' \<and>
    SnapshotMonitoredHeadChain s' = segment blk (cfg_IncludeLogsBloom (conf s)) (seedStart s) H"
  using seedMonitoredHead_stable [OF assms]
  by (auto simp: SnapshotMonitoredHeadChain_def chainBlocks_def)

definition exSeed :: "(exBc, exRc) blockListener" where
  "exSeed = setHighestBlock 3 (exState [])"

theorem seeding_fills_the_window_witness:
  "\<exists>s'. seedMonitoredHead (exEnv 3) exSeed = Some s' \<and>
     SnapshotMonitoredHeadChain s' = segment exBlock False 0 3"
proof -
  have s: "ids_ok exSeed" "canonicalChain exSeed = []" "highestBlockSet exSeed"
    "highestBlock exSeed = 3" "seedStart exSeed = 0" "monitoredHeadLength exSeed = 50"
    "conf exSeed = conf (exState [])"
    by (simp_all add: exSeed_def setHighestBlock_def setBlockHeightMetric_def exState_def ids_ok_def
        seedStart_def)
  show ?thesis
    using seeding_fills_the_window [OF exEnv_stable _ s(1-4)] s(5-7) by simp
qed

text \<open>C13. The head of light mode is the highest reading. As long as the readings, and the head, stay
  within the monitored length above some height, whatever the order in which nodes of different
  heights answer, the head after any sequence of readings is the maximum of them: it never goes
  back.\<close>

theorem light_mode_head_is_maximum:
  assumes "\<forall>h \<in> set readings. within_drift lo s h"
  shows "GetHeadBlockNumber (fold (\<lambda>h t. snd (acceptHeadBlockNumber h t)) readings s) =
    fold max readings (GetHeadBlockNumber s)"
  using head.fold_max [OF assms]
  by (simp add: GetHeadBlockNumber_def acceptHead_def [abs_def])

theorem light_mode_head_is_maximum_witness:
  "GetHeadBlockNumber (fold (\<lambda>h t. snd (acceptHeadBlockNumber h t)) [7, 5, 9, 8]
     ((exState [])\<lparr>currentChainHead := 6\<rparr>)) = 9"
proof -
  have "\<forall>h \<in> set [7, 5, 9, 8]. within_drift 5 ((exState [])\<lparr>currentChainHead := 6\<rparr>) h"
    by (simp add: within_drift_def exState_def)
  from light_mode_head_is_maximum [OF this] show ?thesis
    by (simp add: GetHeadBlockNumber_def max_def)
qed






end
