(* ===== verification/EventTypes.thy ===== *)
theory EventTypes
  imports BlockListenerState RetryUtil
begin

text \<open>
  The data of \<open>internal/ethereum\<close> that event streams share: the conversions of block numbers to
  \<open>int64\<close>, event filters and listener options, the checkpoint with its order, events, the state of
  the connector, and the environment of the connector.

  The environment \<open>connEnv\<close> holds what is not under src/ or runs beside the event stream: the node
  (one function per JSON/RPC method; the first argument is the number of calls made so far, so that
  it may answer differently every time), the view of the chain that the block listener has at that
  moment (\<open>GetHighestBlock\<close>, \<open>SnapshotMonitoredHeadChain\<close>, \<open>GetBlockInfoByHash\<close>: its own
  theories model how it comes about), the ABI library, JSON parsing, and which case of a
  \<open>select\<close> fires. An ABI entry (\<open>abi.Entry\<close>) and a decoded value tree are opaque to this code;
  they are carried as strings.
\<close>

section \<open>Numbers\<close>

definition blockNumberToInt64 :: "u64 \<Rightarrow> int64 result" where
  "blockNumberToInt64 blockNumber =
     (if uint blockNumber > maxInt64 then Inl (PanicNumberTooLarge blockNumber)
      else Inr (uint blockNumber))"

definition trimUint64 :: "u64 \<Rightarrow> int64 result" where
  "trimUint64 v =
     (if uint v > maxInt64 then Inl (PanicNumberTooLarge v) else Inr (uint v))"

text \<open>The numbers that both conversions take.\<close>

definition fitsInt64 :: "u64 \<Rightarrow> bool" where
  "fitsInt64 n \<longleftrightarrow> uint n \<le> maxInt64"

lemma blockNumberToInt64_fits [simp]: "fitsInt64 n \<Longrightarrow> blockNumberToInt64 n = Inr (uint n)"
  by (simp add: blockNumberToInt64_def fitsInt64_def)

lemma trimUint64_fits [simp]: "fitsInt64 n \<Longrightarrow> trimUint64 n = Inr (uint n)"
  by (simp add: trimUint64_def fitsInt64_def)

lemma blockNumberToInt64_Inr [simp]: "blockNumberToInt64 n = Inr k \<longleftrightarrow> fitsInt64 n \<and> k = uint n"
  by (auto simp: blockNumberToInt64_def fitsInt64_def)

lemma trimUint64_Inr [simp]: "trimUint64 n = Inr k \<longleftrightarrow> fitsInt64 n \<and> k = uint n"
  by (auto simp: trimUint64_def fitsInt64_def)

lemma fitsInt64_bounds: "fitsInt64 n \<Longrightarrow> 0 \<le> uint n \<and> uint n < 2 ^ 63"
  by (simp add: fitsInt64_def maxInt64_def)

section \<open>Checkpoints\<close>

record listenerCheckpoint =
  cp_Block :: int64
  cp_TransactionIndex :: int64
  cp_LogIndex :: int64

definition LessThan :: "listenerCheckpoint \<Rightarrow> listenerCheckpoint \<Rightarrow> bool" where
  "LessThan cp bcp \<longleftrightarrow>
     cp_Block cp < cp_Block bcp \<or>
     (cp_Block cp = cp_Block bcp \<and>
        (cp_TransactionIndex cp < cp_TransactionIndex bcp \<or>
           (cp_TransactionIndex cp = cp_TransactionIndex bcp \<and> cp_LogIndex cp < cp_LogIndex bcp)))"

text \<open>\<open>LessThan\<close> is a strict linear order: the checkpoints form an instance of \<open>linorder\<close>, so that
  \<open>max\<close> and \<open>sorted\<close> apply to them.\<close>

instantiation listenerCheckpoint_ext :: (linorder) linorder
begin

definition less_eq_listenerCheckpoint_ext ::
  "'a listenerCheckpoint_scheme \<Rightarrow> 'a listenerCheckpoint_scheme \<Rightarrow> bool" where
  "less_eq_listenerCheckpoint_ext a b \<longleftrightarrow>
     cp_Block a < cp_Block b \<or> (cp_Block a = cp_Block b \<and>
       (cp_TransactionIndex a < cp_TransactionIndex b \<or>
         (cp_TransactionIndex a = cp_TransactionIndex b \<and>
           (cp_LogIndex a < cp_LogIndex b \<or>
             (cp_LogIndex a = cp_LogIndex b \<and> more a \<le> more b)))))"

definition less_listenerCheckpoint_ext ::
  "'a listenerCheckpoint_scheme \<Rightarrow> 'a listenerCheckpoint_scheme \<Rightarrow> bool" where
  "less_listenerCheckpoint_ext a b \<longleftrightarrow> a \<le> b \<and> \<not> b \<le> a"

instance
  by standard (auto simp: less_eq_listenerCheckpoint_ext_def less_listenerCheckpoint_ext_def)

end

lemma LessThan_less: "LessThan a b \<longleftrightarrow> a < b"
  by (auto simp: LessThan_def less_eq_listenerCheckpoint_ext_def less_listenerCheckpoint_ext_def)

section \<open>Filters, options and events\<close>

type_synonym abiEntry = string
type_synonym abiValue = string

record eventFilter =
  ef_Event :: abiEntry
  ef_Address :: "address option"
  ef_Topic0 :: hexbytes
  ef_Signature :: string

record listenerOptions =
  lo_Methods :: "abiEntry list"
  lo_Signer :: bool

record EventID =
  id_ListenerID :: "nat option"
  id_Signature :: string
  id_BlockHash :: string
  id_TransactionHash :: string
  id_BlockNumber :: u64
  id_TransactionIndex :: u64
  id_LogIndex :: u64
  id_Timestamp :: "int64 option"

record eventInfo =
  in_Log :: LogJSONRPC
  in_InputMethod :: string
  in_InputArgs :: "string option"
  in_InputSigner :: "address option"
  in_ChainID :: string

record Event =
  e_ID :: EventID
  e_Info :: eventInfo
  e_Data :: "string option"

record ListenerEvent =
  le_Checkpoint :: listenerCheckpoint
  le_Event :: Event
  le_DetectedStable :: bool

section \<open>The connector and its environment\<close>

record 'tc ethConnector =
  c_chainTrackingMode :: ChainTrackingMode
  c_catchupPageSize :: int64
  c_catchupThreshold :: int64
  c_checkpointBlockGap :: int64
  c_eventBlockTimestamps :: bool
  c_eventFilterPollingMode :: FilterPollingMode
  c_traceTXForRevertReason :: bool
  c_chainID :: string
  c_txCache :: 'tc
  c_lightModeDrift :: "string list" \<comment> \<open>the drift counter of the block listener\<close>
  c_tick :: nat \<comment> \<open>the number of calls made so far\<close>

record 'tc connEnv =
  ce_hashString :: "hexbytes \<Rightarrow> string"
  ce_addressString :: "address \<Rightarrow> string"
  ce_highestBlock :: "nat \<Rightarrow> u64 option"
  ce_headChain :: "nat \<Rightarrow> BlockInfoJSONRPC list"
  ce_blockByHash :: "nat \<Rightarrow> string \<Rightarrow> BlockInfoJSONRPC option result"
  ce_netVersion :: "nat \<Rightarrow> string + string"
  ce_getLogs :: "nat \<Rightarrow> LogFilterJSONRPC \<Rightarrow> string + LogJSONRPC list"
  ce_newFilter :: "nat \<Rightarrow> LogFilterJSONRPC \<Rightarrow> string + string"
  ce_getFilterLogs :: "nat \<Rightarrow> string \<Rightarrow> string + LogJSONRPC list"
  ce_getFilterChanges :: "nat \<Rightarrow> string \<Rightarrow> string + LogJSONRPC list"
  ce_getTransactionByHash :: "nat \<Rightarrow> hexbytes \<Rightarrow> string + TxInfoJSONRPC option"
  ce_txLru :: "(TxInfoJSONRPC option, 'tc) lru"
  ce_parseFilter :: "string \<Rightarrow> (abiEntry option \<times> address option) option option"
    \<comment> \<open>\<open>json.Unmarshal\<close> into a \<open>*eventFilter\<close>: an error, the nil pointer for JSON null, or
      the event and address\<close>
  ce_parseOptions :: "string \<Rightarrow> listenerOptions option"
  ce_signatureHash :: "abiEntry \<Rightarrow> string + hexbytes"
  ce_entryString :: "abiEntry \<Rightarrow> string"
  ce_functionSelector :: "abiEntry \<Rightarrow> 8 word list"
  ce_decodeEventData :: "abiEntry \<Rightarrow> hexbytes list \<Rightarrow> hexbytes \<Rightarrow> string + abiValue"
  ce_decodeCallData :: "abiEntry \<Rightarrow> hexbytes \<Rightarrow> string + abiValue"
  ce_serialize :: "abiValue \<Rightarrow> string + string"
  ce_sortEvents :: "ListenerEvent list \<Rightarrow> ListenerEvent list"
  ce_errorText :: "failure \<Rightarrow> string"
  ce_downscaleRegex :: "(string \<Rightarrow> bool) option" \<comment> \<open>\<open>None\<close>: the empty expression\<close>
  ce_fromBlockLatest :: string \<comment> \<open>\<open>ffcapi.FromBlockLatest\<close>\<close>
  ce_retry :: RetryWrapper
  ce_ctxDone :: "nat \<Rightarrow> bool"
  ce_eventSent :: "nat \<Rightarrow> bool"

definition c_ticked :: "'tc ethConnector \<Rightarrow> 'tc ethConnector" where
  "c_ticked c = c\<lparr>c_tick := Suc (c_tick c)\<rparr>"

lemma c_ticked_simps [simp]:
  "c_chainTrackingMode (c_ticked c) = c_chainTrackingMode c"
  "c_catchupPageSize (c_ticked c) = c_catchupPageSize c"
  "c_catchupThreshold (c_ticked c) = c_catchupThreshold c"
  "c_checkpointBlockGap (c_ticked c) = c_checkpointBlockGap c"
  "c_eventBlockTimestamps (c_ticked c) = c_eventBlockTimestamps c"
  "c_eventFilterPollingMode (c_ticked c) = c_eventFilterPollingMode c"
  "c_traceTXForRevertReason (c_ticked c) = c_traceTXForRevertReason c"
  "c_chainID (c_ticked c) = c_chainID c"
  "c_txCache (c_ticked c) = c_txCache c"
  "c_lightModeDrift (c_ticked c) = c_lightModeDrift c"
  "c_tick (c_ticked c) = Suc (c_tick c)"
  by (simp_all add: c_ticked_def)

definition lightMode :: "'tc ethConnector \<Rightarrow> bool" where
  "lightMode c \<longleftrightarrow> c_chainTrackingMode c = ChainTrackingModeLight"

lemma lightMode_ticked [simp]: "lightMode (c_ticked c) = lightMode c"
  by (simp add: lightMode_def)

end
