(* ===== verification/Decimal.thy ===== *)
theory Decimal
  imports Prelude "HOL-Library.List_Lexorder"
begin

text \<open>
  What the code uses of Go's \<open>fmt\<close> and \<open>math/big\<close> for numbers: the verb \<open>%.<w>d\<close> of
  \<open>fmt.Sprintf\<close> (at least \<open>w\<close> digits), and \<open>big.Int.SetString(s, 0)\<close>, which reads an optional
  sign, an optional prefix (\<open>0b\<close>, \<open>0o\<close>, \<open>0x\<close>, or \<open>0\<close> for octal) and digits that single
  underscores may separate. A decimal number that is printed is read back unchanged, and numbers
  printed with the same width are ordered as strings the way they are ordered as numbers.
\<close>

definition digitChar :: "nat \<Rightarrow> char" where
  "digitChar d = char_of (48 + d)"

fun showNat :: "nat \<Rightarrow> string" where
  "showNat n = (if n < 10 then [digitChar n] else showNat (n div 10) @ [digitChar (n mod 10)])"

declare showNat.simps [simp del]

definition padNat :: "nat \<Rightarrow> nat \<Rightarrow> string" where
  "padNat w n = replicate (w - length (showNat n)) CHR ''0'' @ showNat n"

definition fmtPrecision :: "nat \<Rightarrow> int \<Rightarrow> string" where
  "fmtPrecision w k = (if k < 0 then CHR ''-'' # padNat w (nat (- k)) else padNat w (nat k))"

section \<open>\<open>big.Int.SetString(s, 0)\<close>\<close>

text \<open>The value of a digit; 36 for a character that is none.\<close>

definition digitVal :: "char \<Rightarrow> nat" where
  "digitVal c =
     (let n = of_char c :: nat in
      if 48 \<le> n \<and> n \<le> 57 then n - 48
      else if 97 \<le> n \<and> n \<le> 122 then n - 87
      else if 65 \<le> n \<and> n \<le> 90 then n - 55
      else 36)"

text \<open>\<open>sep\<close>: an underscore may come next; \<open>done\<close>: the number may end here.\<close>

fun scanDigits :: "nat \<Rightarrow> bool \<Rightarrow> bool \<Rightarrow> nat \<Rightarrow> string \<Rightarrow> nat option" where
  "scanDigits b sep done acc [] = (if done then Some acc else None)"
| "scanDigits b sep done acc (c # cs) =
     (if c = CHR ''_'' then (if sep then scanDigits b False False acc cs else None)
      else if digitVal c < b then scanDigits b True True (acc * b + digitVal c) cs
      else None)"

definition parseNat :: "string \<Rightarrow> nat option" where
  "parseNat s =
     (case s of
        [] \<Rightarrow> None
      | c # cs \<Rightarrow>
          if c \<noteq> CHR ''0'' then scanDigits 10 False False 0 s
          else (case cs of
                  [] \<Rightarrow> Some 0
                | p # ds \<Rightarrow>
                    if p = CHR ''b'' \<or> p = CHR ''B'' then scanDigits 2 True False 0 ds
                    else if p = CHR ''o'' \<or> p = CHR ''O'' then scanDigits 8 True False 0 ds
                    else if p = CHR ''x'' \<or> p = CHR ''X'' then scanDigits 16 True False 0 ds
                    else scanDigits 8 True False 0 cs))"

definition bigSetString :: "string \<Rightarrow> int option" where
  "bigSetString s =
     (case s of
        [] \<Rightarrow> None
      | c # cs \<Rightarrow>
          if c = CHR ''-'' then map_option (\<lambda>n. - int n) (parseNat cs)
          else if c = CHR ''+'' then map_option int (parseNat cs)
          else map_option int (parseNat s))"

text \<open>\<open>big.Int.Uint64\<close>: the low 64 bits of the absolute value.\<close>

definition bigUint64 :: "int \<Rightarrow> u64" where
  "bigUint64 x = word_of_int \<bar>x\<bar>"

section \<open>Printing and reading\<close>

lemma digitVal_digitChar [simp]: "d < 10 \<Longrightarrow> digitVal (digitChar d) = d"
  by (simp add: digitVal_def digitChar_def Let_def)

lemma digitChar_zero: "digitChar 0 = CHR ''0''"
  using char_of_char [of "CHR ''0''"] by (simp add: digitChar_def)

lemma digitChar_inject: "d < 10 \<Longrightarrow> e < 10 \<Longrightarrow> digitChar d = digitChar e \<longleftrightarrow> d = e"
  by (metis digitVal_digitChar)

lemma digitChar_range: "d < 10 \<Longrightarrow> of_char (digitChar d) = 48 + d"
  by (simp add: digitChar_def)

lemma digitChar_neq [simp]:
  "d < 10 \<Longrightarrow> digitChar d \<noteq> CHR ''_''" "d < 10 \<Longrightarrow> digitChar d \<noteq> CHR ''-''"
  "d < 10 \<Longrightarrow> digitChar d \<noteq> CHR ''+''"
  using digitChar_range [of d] by auto

lemma showNat_last: "10 \<le> n \<Longrightarrow> showNat n = showNat (n div 10) @ [digitChar (n mod 10)]"
  using showNat.simps [of n] by simp

lemma showNat_small: "n < 10 \<Longrightarrow> showNat n = [digitChar n]"
  using showNat.simps [of n] by simp

lemma showNat_nonempty [simp]: "showNat n \<noteq> []"
  by (cases "n < 10") (simp_all add: showNat_small showNat_last)

lemma showNat_hd: "0 < n \<Longrightarrow> \<exists>d. 0 < d \<and> d < 10 \<and> hd (showNat n) = digitChar d"
proof (induction n rule: showNat.induct)
  case (1 n)
  show ?case
  proof (cases "n < 10")
    case True
    with 1 show ?thesis by (auto simp: showNat_small)
  next
    case False
    with 1 show ?thesis by (auto simp: showNat_last)
  qed
qed

lemma scanDigits_append:
  "scanDigits b sep d acc ds = Some n \<Longrightarrow> k < 10 \<Longrightarrow> k < b \<Longrightarrow>
     scanDigits b sep d acc (ds @ [digitChar k]) = Some (n * b + k)"
  by (induction ds arbitrary: sep d acc) (auto split: if_splits)

lemma scanDigits_showNat: "scanDigits 10 sep d 0 (showNat n) = Some n"
proof (induction n arbitrary: sep d rule: showNat.induct)
  case (1 n)
  show ?case
  proof (cases "n < 10")
    case True
    then show ?thesis by (simp add: showNat_small)
  next
    case False
    with 1 have "scanDigits 10 sep d 0 (showNat (n div 10)) = Some (n div 10)" by simp
    with False show ?thesis by (simp add: showNat_last scanDigits_append)
  qed
qed

lemma bigSetString_showNat [simp]: "bigSetString (showNat n) = Some (int n)"
proof (cases "n = 0")
  case True
  then show ?thesis by (simp add: showNat_small digitChar_zero bigSetString_def parseNat_def)
next
  case False
  then obtain d where d: "0 < d" "d < 10" "hd (showNat n) = digitChar d" using showNat_hd [of n] by auto
  obtain cs where s: "showNat n = digitChar d # cs" using d(3) by (cases "showNat n") auto
  have "digitChar d \<noteq> CHR ''0''" using digitChar_inject [of d 0] d by (simp add: digitChar_zero)
  with d s show ?thesis
    using scanDigits_showNat [of False False n] by (simp add: bigSetString_def parseNat_def)
qed

section \<open>Numbers of one width\<close>

lemma showNat_length: "n < 10 ^ w \<Longrightarrow> 0 < w \<Longrightarrow> length (showNat n) \<le> w"
proof (induction n arbitrary: w rule: showNat.induct)
  case (1 n)
  show ?case
  proof (cases "n < 10")
    case True
    with 1 show ?thesis by (simp add: showNat_small)
  next
    case False
    with 1 obtain v where w: "w = Suc v" by (cases w) auto
    with 1 False have "n div 10 < 10 ^ v" by (simp add: less_mult_imp_div_less mult.commute)
    moreover from this False have "0 < v" by (cases v) auto
    ultimately show ?thesis using 1 False w by (simp add: showNat_last)
  qed
qed

lemma padNat_length [simp]: "n < 10 ^ w \<Longrightarrow> 0 < w \<Longrightarrow> length (padNat w n) = w"
  using showNat_length by (simp add: padNat_def)

lemma padNat_Suc:
  assumes "0 < w"
  shows "padNat (Suc w) n = padNat w (n div 10) @ [digitChar (n mod 10)]"
proof (cases "n < 10")
  case True
  then have "replicate w CHR ''0'' = replicate (w - 1) CHR ''0'' @ [digitChar 0]"
    using assms by (cases w) (simp_all add: digitChar_zero replicate_append_same)
  with True assms show ?thesis by (simp add: padNat_def showNat_small)
qed (simp add: padNat_def showNat_last)

lemma digitChar_less: "d < 10 \<Longrightarrow> e < 10 \<Longrightarrow> digitChar d < digitChar e \<longleftrightarrow> d < e"
  by (simp add: less_char_def digitChar_range)

lemma less_list_append_eq_length:
  "length (xs :: 'a :: linorder list) = length ys \<Longrightarrow>
     xs @ us < ys @ vs \<longleftrightarrow> xs < ys \<or> (xs = ys \<and> us < vs)"
  by (induction xs ys rule: list_induct2) auto

lemma last_digit:
  fixes a b :: nat
  shows "a < b \<longleftrightarrow> a div 10 < b div 10 \<or> (a div 10 = b div 10 \<and> a mod 10 < b mod 10)"
    and "a = b \<longleftrightarrow> a div 10 = b div 10 \<and> a mod 10 = b mod 10"
proof -
  have "a = 10 * (a div 10) + a mod 10" "b = 10 * (b div 10) + b mod 10" "a mod 10 < 10" "b mod 10 < 10"
    by simp_all
  then show "a < b \<longleftrightarrow> a div 10 < b div 10 \<or> (a div 10 = b div 10 \<and> a mod 10 < b mod 10)"
    by linarith
  show "a = b \<longleftrightarrow> a div 10 = b div 10 \<and> a mod 10 = b mod 10"
    by (metis mult_div_mod_eq)
qed

lemma padNat_less:
  "0 < w \<Longrightarrow> a < 10 ^ w \<Longrightarrow> b < 10 ^ w \<Longrightarrow>
     (padNat w a < padNat w b \<longleftrightarrow> a < b) \<and> (padNat w a = padNat w b \<longleftrightarrow> a = b)"
proof (induction w arbitrary: a b)
  case (Suc w)
  show ?case
  proof (cases "w = 0")
    case True
    with Suc.prems show ?thesis by (simp add: padNat_def showNat_small digitChar_less digitChar_inject)
  next
    case False
    then have w: "0 < w" by simp
    have d: "a div 10 < 10 ^ w" "b div 10 < 10 ^ w"
      using Suc.prems by (simp_all add: less_mult_imp_div_less mult.commute)
    note IH = Suc.IH [OF w d]
    show ?thesis using IH d w last_digit [of a b]
      by (simp add: padNat_Suc less_list_append_eq_length digitChar_less digitChar_inject)
  qed
qed simp

lemma fmtPrecision_nonneg [simp]: "0 \<le> k \<Longrightarrow> fmtPrecision w k = padNat w (nat k)"
  by (simp add: fmtPrecision_def)

end
