(* ===== verification/EventEnricher.thy ===== *)
theory EventEnricher
  imports EventTypes Decimal
begin

text \<open>
  \<open>internal/ethereum/event_enricher.go\<close>, with what it calls of the connector:
  \<open>getTransactionInfo\<close> (\<open>get_receipt.go\<close>), \<open>IsLive\<close> and \<open>IsReady\<close> (\<open>statuses.go\<close>) and
  \<open>getEventProtoID\<close> (\<open>event_stream.go\<close>).

  A log is matched against a filter, decoded, and enriched with the chain id, the timestamp of its
  block and the transaction that emitted it. The Go function returns the event, whether the log
  matched, whether it was decoded, and an error; here a panic is the left summand of the result.
\<close>

section \<open>The connector\<close>

definition IsLive :: bool where
  "IsLive = True"

definition IsReady ::
  "'tc connEnv \<Rightarrow> 'tc ethConnector \<Rightarrow> (bool \<times> ErrorReason \<times> failure option) \<times> 'tc ethConnector" where
  "IsReady E c =
     (case ce_netVersion E (c_tick c) of
        Inl e \<Rightarrow> ((False, MapError NetVersionRPCMethods e, Some (RPCFailure e)), c_ticked c)
      | Inr chainID \<Rightarrow> ((True, ReasonNone, None), (c_ticked c)\<lparr>c_chainID := chainID\<rparr>))"

text \<open>The cache also keeps the answer that the node does not know the transaction.\<close>

definition getTransactionInfo ::
  "'tc connEnv \<Rightarrow> hexbytes \<Rightarrow> 'tc ethConnector \<Rightarrow> TxInfoJSONRPC option result \<times> 'tc ethConnector" where
  "getTransactionInfo E hash c =
     (case lru_Get (ce_txLru E) (ce_hashString E hash) (c_txCache c) of
        (Some txInfo, cache) \<Rightarrow> (Inr txInfo, c\<lparr>c_txCache := cache\<rparr>)
      | (None, cache) \<Rightarrow>
          (case ce_getTransactionByHash E (c_tick c) hash of
             Inl e \<Rightarrow> (Inl (RPCFailure e), (c_ticked c)\<lparr>c_txCache := cache\<rparr>)
           | Inr txInfo \<Rightarrow>
               (Inr txInfo, (c_ticked c)
                  \<lparr>c_txCache := lru_Add (ce_txLru E) (ce_hashString E hash) txInfo cache\<rparr>)))"

definition getEventProtoID :: "int64 \<Rightarrow> int64 \<Rightarrow> int64 \<Rightarrow> string" where
  "getEventProtoID blockNumber transactionIndex logIndex =
     fmtPrecision 12 blockNumber @ CHR ''/'' # fmtPrecision 6 transactionIndex @
     CHR ''/'' # fmtPrecision 6 logIndex"

section \<open>Decoding\<close>

definition decodeLogData ::
  "'tc connEnv \<Rightarrow> abiEntry \<Rightarrow> hexbytes list \<Rightarrow> hexbytes \<Rightarrow> string option \<times> bool" where
  "decodeLogData E event topics data =
     (case ce_decodeEventData E event topics data of
        Inl e \<Rightarrow> (None, False)
      | Inr v \<Rightarrow> (case ce_serialize E v of Inl e \<Rightarrow> (None, False) | Inr b \<Rightarrow> (Some b, True)))"

definition matchMethod ::
  "'tc connEnv \<Rightarrow> abiEntry list \<Rightarrow> TxInfoJSONRPC \<Rightarrow> eventInfo \<Rightarrow> eventInfo" where
  "matchMethod E methods txInfo info =
     (if length (bytesOf (tx_Input txInfo)) < 4 then info
      else case find (\<lambda>m. ce_functionSelector E m = take 4 (bytesOf (tx_Input txInfo))) methods of
        None \<Rightarrow> info
      | Some method \<Rightarrow>
          let info1 = info\<lparr>in_InputMethod := ce_entryString E method\<rparr> in
          (case ce_decodeCallData E method (tx_Input txInfo) of
             Inl e \<Rightarrow> info1
           | Inr v \<Rightarrow> (case ce_serialize E v of
                          Inl e \<Rightarrow> info1
                        | Inr b \<Rightarrow> info1\<lparr>in_InputArgs := Some b\<rparr>)))"

section \<open>Enrichment\<close>

definition ensureChainID ::
  "'tc connEnv \<Rightarrow> 'tc ethConnector \<Rightarrow> unit result \<times> 'tc ethConnector" where
  "ensureChainID E c =
     (if c_chainID c \<noteq> '''' then (Inr (), c)
      else (case IsReady E c of
              ((ready, reason, Some err), c1) \<Rightarrow> (Inl err, c1)
            | ((ready, reason, None), c1) \<Rightarrow>
                (if \<not> ready \<or> c_chainID c1 = '''' then Inl MsgFailedToRetrieveChainID else Inr (), c1)))"

definition eventTimestamp ::
  "'tc connEnv \<Rightarrow> LogJSONRPC \<Rightarrow> 'tc ethConnector \<Rightarrow> int64 option result \<times> 'tc ethConnector" where
  "eventTimestamp E ethLog c =
     (if \<not> c_eventBlockTimestamps c then (Inr None, c)
      else case lg_BlockTimestamp ethLog of
        Some ts \<Rightarrow> (Inr (Some (i64 (uint ts))), c)
      | None \<Rightarrow>
          (case ce_blockByHash E (c_tick c) (ce_hashString E (lg_BlockHash ethLog)) of
             Inl err \<Rightarrow> Inl err
           | Inr None \<Rightarrow> Inl MsgBlockNotAvailable
           | Inr (Some bi) \<Rightarrow> Inr (Some (i64 (uint (bi_Timestamp bi)))), c_ticked c))"

definition enrichTransaction ::
  "'tc connEnv \<Rightarrow> bool \<Rightarrow> abiEntry list \<Rightarrow> LogJSONRPC \<Rightarrow> eventInfo \<Rightarrow> 'tc ethConnector \<Rightarrow>
   eventInfo result \<times> 'tc ethConnector" where
  "enrichTransaction E extractSigner methods ethLog info c =
     (if methods = [] \<and> \<not> extractSigner then (Inr info, c)
      else case getTransactionInfo E (lg_TransactionHash ethLog) c of
        (Inl err, c1) \<Rightarrow> (Inl err, c1)
      | (Inr None, c1) \<Rightarrow>
          (Inl (MsgFailedToRetrieveTransactionInfo), c1)
      | (Inr (Some txInfo), c1) \<Rightarrow>
          (let info1 = (if extractSigner then info\<lparr>in_InputSigner := tx_From txInfo\<rparr> else info) in
           (Inr (if methods \<noteq> [] then matchMethod E methods txInfo info1 else info1), c1)))"

definition filterMatches :: "eventFilter \<Rightarrow> LogJSONRPC \<Rightarrow> bool result" where
  "filterMatches f ethLog =
     (let topicMatches =
            (case lg_Topics ethLog of [] \<Rightarrow> False | t # _ \<Rightarrow> hexEquals t (ef_Topic0 f)) in
      case ef_Address f of
        None \<Rightarrow> Inr topicMatches
      | Some a \<Rightarrow>
          (case lg_Address ethLog of
             None \<Rightarrow> Inl PanicNilDereference
           | Some b \<Rightarrow> Inr (topicMatches \<and> b = a)))"

definition mkEvent ::
  "'tc connEnv \<Rightarrow> eventFilter \<Rightarrow> LogJSONRPC \<Rightarrow> int64 option \<Rightarrow> eventInfo \<Rightarrow> string option \<Rightarrow> Event" where
  "mkEvent E f ethLog timestamp info data =
     \<lparr>e_ID = \<lparr>id_ListenerID = None, id_Signature = ef_Signature f,
              id_BlockHash = ce_hashString E (lg_BlockHash ethLog),
              id_TransactionHash = ce_hashString E (lg_TransactionHash ethLog),
              id_BlockNumber = lg_BlockNumber ethLog,
              id_TransactionIndex = lg_TransactionIndex ethLog,
              id_LogIndex = lg_LogIndex ethLog, id_Timestamp = timestamp\<rparr>,
      e_Info = info, e_Data = data\<rparr>"

text \<open>The enrichment of a log that matched.\<close>

definition enrichMatched ::
  "'tc connEnv \<Rightarrow> bool \<Rightarrow> eventFilter \<Rightarrow> abiEntry list \<Rightarrow> LogJSONRPC \<Rightarrow> 'tc ethConnector \<Rightarrow>
   Event result \<times> 'tc ethConnector" where
  "enrichMatched E extractSigner f methods ethLog c =
     (case ensureChainID E c of
        (Inl err, c1) \<Rightarrow> (Inl err, c1)
      | (Inr _, c1) \<Rightarrow>
          (let info = \<lparr>in_Log = ethLog, in_InputMethod = '''', in_InputArgs = None,
                       in_InputSigner = None, in_ChainID = c_chainID c1\<rparr> in
           case eventTimestamp E ethLog c1 of
             (Inl err, c2) \<Rightarrow> (Inl err, c2)
           | (Inr timestamp, c2) \<Rightarrow>
               (case enrichTransaction E extractSigner methods ethLog info c2 of
                  (Inl err, c3) \<Rightarrow> (Inl err, c3)
                | (Inr info1, c3) \<Rightarrow>
                    (Inr (mkEvent E f ethLog timestamp info1
                       (fst (decodeLogData E (ef_Event f) (lg_Topics ethLog) (lg_Data ethLog)))), c3))))"

definition logNumbers :: "LogJSONRPC \<Rightarrow> listenerCheckpoint result" where
  "logNumbers ethLog =
     (case trimUint64 (lg_BlockNumber ethLog) of
        Inl e \<Rightarrow> Inl e
      | Inr b \<Rightarrow> (case trimUint64 (lg_TransactionIndex ethLog) of
          Inl e \<Rightarrow> Inl e
        | Inr t \<Rightarrow> (case trimUint64 (lg_LogIndex ethLog) of
            Inl e \<Rightarrow> Inl e
          | Inr l \<Rightarrow> Inr \<lparr>cp_Block = b, cp_TransactionIndex = t, cp_LogIndex = l\<rparr>)))"

definition ee_filterEnrichEthLog ::
  "'tc connEnv \<Rightarrow> bool \<Rightarrow> eventFilter \<Rightarrow> abiEntry list \<Rightarrow> LogJSONRPC \<Rightarrow> 'tc ethConnector \<Rightarrow>
   (Event option \<times> bool \<times> bool \<times> failure option) result \<times> 'tc ethConnector" where
  "ee_filterEnrichEthLog E extractSigner f methods ethLog c =
     (case logNumbers ethLog of
        Inl e \<Rightarrow> (Inl e, c)
      | Inr _ \<Rightarrow>
          (case filterMatches f ethLog of
             Inl e \<Rightarrow> (Inl e, c)
           | Inr False \<Rightarrow> (Inr (None, False, False, None), c)
           | Inr True \<Rightarrow>
               (let decoded = snd (decodeLogData E (ef_Event f) (lg_Topics ethLog) (lg_Data ethLog)) in
                case enrichMatched E extractSigner f methods ethLog c of
                  (Inl err, c1) \<Rightarrow> (Inr (None, True, decoded, Some err), c1)
                | (Inr e, c1) \<Rightarrow> (Inr (Some e, True, decoded, None), c1))))"

section \<open>Facts\<close>

text \<open>What the enrichment leaves alone: everything of the connector but the chain id, the cache of
  transactions and the count of calls.\<close>

definition same_settings :: "'tc ethConnector \<Rightarrow> 'tc ethConnector \<Rightarrow> bool" where
  "same_settings c c' \<longleftrightarrow>
     c_chainTrackingMode c' = c_chainTrackingMode c \<and> c_catchupPageSize c' = c_catchupPageSize c \<and>
     c_catchupThreshold c' = c_catchupThreshold c \<and>
     c_checkpointBlockGap c' = c_checkpointBlockGap c \<and>
     c_eventBlockTimestamps c' = c_eventBlockTimestamps c \<and>
     c_eventFilterPollingMode c' = c_eventFilterPollingMode c \<and>
     c_traceTXForRevertReason c' = c_traceTXForRevertReason c \<and>
     c_lightModeDrift c' = c_lightModeDrift c"

lemma same_settings_refl [simp, intro]: "same_settings c c"
  by (simp add: same_settings_def)

lemma same_settings_trans [trans]:
  "same_settings a b \<Longrightarrow> same_settings b c \<Longrightarrow> same_settings a c"
  by (simp add: same_settings_def)

lemma same_settings_updates [simp, intro]:
  "same_settings c (c_ticked c)" "same_settings c (c\<lparr>c_txCache := t\<rparr>)"
  "same_settings c ((c_ticked c)\<lparr>c_txCache := t\<rparr>)" "same_settings c ((c_ticked c)\<lparr>c_chainID := i\<rparr>)"
  by (simp_all add: same_settings_def)

lemma ensureChainID_same: "ensureChainID E c = (r, c') \<Longrightarrow> same_settings c c'"
  by (auto simp: ensureChainID_def IsReady_def split: if_splits sum.splits)

lemma eventTimestamp_same: "eventTimestamp E l c = (r, c') \<Longrightarrow> same_settings c c'"
  by (auto simp: eventTimestamp_def split: if_splits option.splits)

lemma getTransactionInfo_same: "getTransactionInfo E h c = (r, c') \<Longrightarrow> same_settings c c'"
  by (auto simp: getTransactionInfo_def split: prod.splits option.splits sum.splits)

lemma enrichTransaction_same: "enrichTransaction E s ms l i c = (r, c') \<Longrightarrow> same_settings c c'"
  by (auto simp: enrichTransaction_def Let_def split: if_splits prod.splits sum.splits option.splits
      dest: getTransactionInfo_same)

lemma enrichMatched_same:
  assumes "enrichMatched E s f ms l c = (r, c')"
  shows "same_settings c c'"
  using assms
  by (auto simp: enrichMatched_def Let_def split: prod.splits sum.splits
      dest!: ensureChainID_same eventTimestamp_same enrichTransaction_same
      intro: same_settings_trans)

lemma ee_filterEnrichEthLog_same:
  "ee_filterEnrichEthLog E s f ms l c = (r, c') \<Longrightarrow> same_settings c c'"
  by (auto simp: ee_filterEnrichEthLog_def Let_def split: sum.splits bool.splits prod.splits
      dest: enrichMatched_same)

text \<open>The event of a log carries the log and its numbers.\<close>

lemma matchMethod_log [simp]: "in_Log (matchMethod E ms t i) = in_Log i"
  "in_ChainID (matchMethod E ms t i) = in_ChainID i"
  by (auto simp: matchMethod_def Let_def split: option.split sum.split)

lemma enrichMatched_event:
  assumes "enrichMatched E s f ms l c = (Inr e, c')"
  shows "id_BlockNumber (e_ID e) = lg_BlockNumber l \<and> id_TransactionIndex (e_ID e) = lg_TransactionIndex l \<and>
    id_LogIndex (e_ID e) = lg_LogIndex l \<and> id_Signature (e_ID e) = ef_Signature f \<and>
    in_Log (e_Info e) = l \<and> id_ListenerID (e_ID e) = None"
  using assms
  by (auto simp: enrichMatched_def mkEvent_def enrichTransaction_def Let_def
      split: prod.splits sum.splits option.splits if_splits)

lemma logNumbers_Inr:
  "logNumbers l = Inr cp \<longleftrightarrow>
     fitsInt64 (lg_BlockNumber l) \<and> fitsInt64 (lg_TransactionIndex l) \<and> fitsInt64 (lg_LogIndex l) \<and>
     cp = \<lparr>cp_Block = uint (lg_BlockNumber l), cp_TransactionIndex = uint (lg_TransactionIndex l),
           cp_LogIndex = uint (lg_LogIndex l)\<rparr>"
  by (auto simp: logNumbers_def split: sum.split)

text \<open>A transaction that the node did not know once is not asked for again while it stays cached.\<close>

lemma missing_transaction_is_cached:
  assumes "lru_lawful (ce_txLru E)" and "getTransactionInfo E h c = (Inr None, c')"
  shows "fst (getTransactionInfo E h c') = Inr None"
proof -
  let ?L = "ce_txLru E" and ?k = "ce_hashString E h"
  obtain g cache where g: "lru_Get ?L ?k (c_txCache c) = (g, cache)" by fastforce
  have "fst (lru_Get ?L ?k (c_txCache c')) = Some None"
  proof (cases g)
    case None
    with assms(2) g lru_lawfulD(1) [OF assms(1)] show ?thesis
      by (auto simp: getTransactionInfo_def split: sum.splits)
  next
    case (Some t)
    with assms(2) g have "t = None" "c_txCache c' = cache" by (auto simp: getTransactionInfo_def)
    with lru_lawfulD(3) [OF assms(1), of ?k ?k "c_txCache c"] g Some show ?thesis by simp
  qed
  then show ?thesis by (auto simp: getTransactionInfo_def split: prod.splits)
qed

end
