(* ===== verification/EventListener.thy ===== *)
theory EventListener
  imports EventEnricher RetryUtil "HOL-Library.Option_ord"
begin

text \<open>
  \<open>internal/ethereum/event_listener.go\<close>: the state of one event listener and the operations on
  it. The high water mark, the last detected checkpoint and the head block of the stream only move
  forwards: they are three instances of the interface \<open>high_water\<close>.
\<close>

record listenerConfig =
  lc_name :: string
  lc_fromBlock :: string
  lc_options :: listenerOptions
  lc_filters :: "eventFilter list"
  lc_signature :: string

text \<open>\<open>ls_catchupLoopDone\<close> says whether the channel was made, that is, whether the catch-up loop of
  the listener was spawned. The enricher of a listener is determined by its options.\<close>

record listener =
  ls_id :: nat
  ls_hwmBlock :: int64
  ls_lastDetected :: "listenerCheckpoint option"
  ls_config :: listenerConfig
  ls_removed :: bool
  ls_catchup :: bool
  ls_catchupLoopDone :: bool

section \<open>Operations\<close>

definition getInitialBlock ::
  "'tc connEnv \<Rightarrow> string \<Rightarrow> 'tc ethConnector \<Rightarrow> u64 result \<times> 'tc ethConnector" where
  "getInitialBlock E fromBlockInstruction c =
     (if fromBlockInstruction = ce_fromBlockLatest E \<or> fromBlockInstruction = '''' then
        (case ce_highestBlock E (c_tick c) of
           None \<Rightarrow> Inl MsgTimedOutQueryingChainHead
         | Some chainHead \<Rightarrow> Inr chainHead, c_ticked c)
      else
        (case bigSetString fromBlockInstruction of
           None \<Rightarrow> Inl (MsgInvalidFromBlock fromBlockInstruction)
         | Some n \<Rightarrow> Inr (bigUint64 n), c))"

definition ensureHWM ::
  "'tc connEnv \<Rightarrow> listener \<Rightarrow> 'tc ethConnector \<Rightarrow> listener result result \<times> 'tc ethConnector" where
  "ensureHWM E l c =
     (if ls_hwmBlock l < 0 then
        (case getInitialBlock E (lc_fromBlock (ls_config l)) c of
           (Inl err, c1) \<Rightarrow> (Inr (Inl err), c1)
         | (Inr firstBlock, c1) \<Rightarrow>
             (case blockNumberToInt64 firstBlock of
                Inl e \<Rightarrow> Inl e
              | Inr n \<Rightarrow> Inr (Inr (l\<lparr>ls_hwmBlock := n\<rparr>)), c1))
      else (Inr (Inr l), c))"

definition checkReadyForLeadPackOrRemoved ::
  "int64 \<Rightarrow> 'tc ethConnector \<Rightarrow> listener \<Rightarrow> bool \<times> bool" where
  "checkReadyForLeadPackOrRemoved headBlock c l =
     (let blockGap = i64 (headBlock - ls_hwmBlock l) in
      (headBlock \<ge> 0 \<and> blockGap < c_catchupThreshold c, ls_removed l))"

definition getHWM :: "listener \<Rightarrow> listenerCheckpoint \<times> listenerCheckpoint option" where
  "getHWM l =
     (\<lparr>cp_Block = ls_hwmBlock l, cp_TransactionIndex = -1, cp_LogIndex = -1\<rparr>, ls_lastDetected l)"

definition markDetected :: "listenerCheckpoint \<Rightarrow> listener \<Rightarrow> listener" where
  "markDetected cp l =
     (if (case ls_lastDetected l of None \<Rightarrow> True | Some d \<Rightarrow> LessThan d cp)
      then l\<lparr>ls_lastDetected := Some cp\<rparr> else l)"

definition moveHWMForwards :: "int64 \<Rightarrow> listener \<Rightarrow> listener" where
  "moveHWMForwards hwmBlock l =
     (if hwmBlock > ls_hwmBlock l then l\<lparr>ls_hwmBlock := hwmBlock\<rparr> else l)"

definition getHWMBlock :: "listener \<Rightarrow> int64" where
  "getHWMBlock l = ls_hwmBlock l"

text \<open>The event of a log for a listener, unless the log lies below its high water mark or does not
  match; the outer summand is a panic, the inner one an error.\<close>

definition ls_filterEnrichEthLog ::
  "'tc connEnv \<Rightarrow> listener \<Rightarrow> eventFilter \<Rightarrow> LogJSONRPC \<Rightarrow> 'tc ethConnector \<Rightarrow>
   ListenerEvent option result result \<times> 'tc ethConnector" where
  "ls_filterEnrichEthLog E l f ethLog c =
     (case logNumbers ethLog of
        Inl e \<Rightarrow> (Inl e, c)
      | Inr cp \<Rightarrow>
          if cp_Block cp < ls_hwmBlock l then (Inr (Inr None), c)
          else (case ee_filterEnrichEthLog E (lo_Signer (lc_options (ls_config l))) f
                       (lo_Methods (lc_options (ls_config l))) ethLog c of
                  (Inl e, c1) \<Rightarrow> (Inl e, c1)
                | (Inr (e, matched, decoded, Some err), c1) \<Rightarrow> (Inr (Inl err), c1)
                | (Inr (Some e, True, decoded, None), c1) \<Rightarrow>
                    (Inr (Inr (Some
                       \<lparr>le_Checkpoint = cp,
                        le_Event = e\<lparr>e_ID := (e_ID e)\<lparr>id_ListenerID := Some (ls_id l)\<rparr>\<rparr>,
                        le_DetectedStable = False\<rparr>)), c1)
                | (Inr _, c1) \<Rightarrow> (Inr (Inr None), c1)))"

section \<open>High water marks\<close>

interpretation hwm: high_water ls_hwmBlock "\<lambda>b. b" moveHWMForwards "\<lambda>l b. True"
  by unfold_locales (auto simp: moveHWMForwards_def max_def)

interpretation detected: high_water ls_lastDetected Some markDetected "\<lambda>l cp. True"
  by unfold_locales
    (auto simp: markDetected_def LessThan_less max_def not_less split: option.split)

lemma moveHWMForwards_fields [simp]:
  "ls_id (moveHWMForwards b l) = ls_id l" "ls_lastDetected (moveHWMForwards b l) = ls_lastDetected l"
  "ls_config (moveHWMForwards b l) = ls_config l" "ls_removed (moveHWMForwards b l) = ls_removed l"
  "ls_catchup (moveHWMForwards b l) = ls_catchup l"
  "ls_catchupLoopDone (moveHWMForwards b l) = ls_catchupLoopDone l"
  by (simp_all add: moveHWMForwards_def)

lemma markDetected_fields [simp]:
  "ls_id (markDetected cp l) = ls_id l" "ls_hwmBlock (markDetected cp l) = ls_hwmBlock l"
  "ls_config (markDetected cp l) = ls_config l" "ls_removed (markDetected cp l) = ls_removed l"
  "ls_catchup (markDetected cp l) = ls_catchup l"
  "ls_catchupLoopDone (markDetected cp l) = ls_catchupLoopDone l"
  by (simp_all add: markDetected_def)

lemma moveHWMForwards_max: "ls_hwmBlock (moveHWMForwards b l) = max (ls_hwmBlock l) b"
  by (rule hwm.step_max) simp

section \<open>Facts\<close>

lemma ls_filterEnrichEthLog_same:
  "ls_filterEnrichEthLog E l f g c = (r, c') \<Longrightarrow> same_settings c c'"
  by (auto simp: ls_filterEnrichEthLog_def
      split: sum.splits if_splits prod.splits option.splits bool.splits dest!: ee_filterEnrichEthLog_same)

text \<open>The event of a log: its checkpoint is that of the log, at or above the high water mark.\<close>

lemma ls_filterEnrichEthLog_event:
  assumes "ls_filterEnrichEthLog E l f g c = (Inr (Inr (Some ev)), c')"
  shows "logNumbers g = Inr (le_Checkpoint ev)" "ls_hwmBlock l \<le> cp_Block (le_Checkpoint ev)"
    "id_ListenerID (e_ID (le_Event ev)) = Some (ls_id l)" "in_Log (e_Info (le_Event ev)) = g"
    "filterMatches f g = Inr True" "id_BlockNumber (e_ID (le_Event ev)) = lg_BlockNumber g"
  using assms
  by (auto simp: ls_filterEnrichEthLog_def ee_filterEnrichEthLog_def Let_def
      split: sum.splits if_splits prod.splits option.splits bool.splits dest!: enrichMatched_event)

lemma getInitialBlock_decimal:
  "n < 2 ^ 64 \<Longrightarrow> showNat n \<noteq> ce_fromBlockLatest E \<Longrightarrow>
     getInitialBlock E (showNat n) c = (Inr (of_nat n), c)"
  by (simp add: getInitialBlock_def bigUint64_def)

end
