(* ===== verification/EventStream.thy ===== *)
theory EventStream
  imports EventListener
begin

text \<open>
  \<open>internal/ethereum/event_stream.go\<close>: the state of an event stream, the listeners it aggregates,
  the query and dispatch of events, and the life cycle of listeners.

  A listener is shared: the map of the stream, the aggregated listener of the lead group and its own
  catch-up loop hold pointers to it, and an aggregated listener can outlive the removal of a listener
  from the map. The listeners are therefore kept in a store, \<open>es_heap\<close>, and a pointer is an index
  into it. The map of listeners is an association list; Go visits a map in an order of its own, the
  model in the order of the list. \<open>es_events\<close> is what was sent to the channel of the stream, and
  \<open>es_catchupLoops\<close> the listeners whose catch-up loop is running.

  Results are nested where both happen: the outer left summand is a panic, the inner one an error.
\<close>

section \<open>State\<close>

record eventStream =
  es_listeners :: "(nat \<times> nat) list"
  es_heap :: "listener list"
  es_updateCount :: int
  es_headBlock :: int64
  es_catchup :: bool
  es_events :: "ListenerEvent list"
  es_catchupLoops :: "nat list"

record aggregatedListener =
  ag_signatureSet :: "hexbytes list"
  ag_listenersByTopic0 :: "string \<rightharpoonup> nat list"
  ag_listenersByID :: "nat \<rightharpoonup> nat"
  ag_listeners :: "nat list"

definition updListener :: "nat \<Rightarrow> (listener \<Rightarrow> listener) \<Rightarrow> eventStream \<Rightarrow> eventStream" where
  "updListener p f es = es\<lparr>es_heap := (es_heap es)[p := f (es_heap es ! p)]\<rparr>"

section \<open>Filters\<close>

definition parseEventFilter ::
  "'tc connEnv \<Rightarrow> string \<Rightarrow> (eventFilter \<times> string) result result" where
  "parseEventFilter E f =
     (case ce_parseFilter E f of
        None \<Rightarrow> Inr (Inl MsgInvalidEventFilter)
      | Some None \<Rightarrow> Inl PanicNilDereference
      | Some (Some (None, addr)) \<Rightarrow> Inr (Inl MsgMissingEventFilter)
      | Some (Some (Some ev, addr)) \<Rightarrow>
          (case ce_signatureHash E ev of
             Inl e \<Rightarrow> Inr (Inl MsgInvalidEventFilter)
           | Inr topic0 \<Rightarrow>
               Inr (Inr (\<lparr>ef_Event = ev, ef_Address = addr, ef_Topic0 = topic0,
                          ef_Signature = ce_entryString E ev\<rparr>,
                         (case addr of None \<Rightarrow> ''*'' | Some a \<Rightarrow> ce_addressString E a) @
                         '':'' @ ce_entryString E ev))))"

fun parseEach :: "'tc connEnv \<Rightarrow> string list \<Rightarrow> (eventFilter \<times> string) list result result" where
  "parseEach E [] = Inr (Inr [])"
| "parseEach E (f # fs) =
     (case parseEventFilter E f of
        Inl e \<Rightarrow> Inl e
      | Inr (Inl e) \<Rightarrow> Inr (Inl e)
      | Inr (Inr x) \<Rightarrow>
          (case parseEach E fs of
             Inl e \<Rightarrow> Inl e
           | Inr (Inl e) \<Rightarrow> Inr (Inl e)
           | Inr (Inr xs) \<Rightarrow> Inr (Inr (x # xs))))"

fun joinComma :: "string list \<Rightarrow> string" where
  "joinComma [] = ''''"
| "joinComma [s] = s"
| "joinComma (s # ss) = s @ '','' @ joinComma ss"

definition parseEventFilters ::
  "'tc connEnv \<Rightarrow> string list \<Rightarrow> (string \<times> eventFilter list) result result" where
  "parseEventFilters E filters =
     (if filters = [] then Inr (Inl MsgMissingEventFilter)
      else case parseEach E filters of
        Inl e \<Rightarrow> Inl e
      | Inr (Inl e) \<Rightarrow> Inr (Inl e)
      | Inr (Inr xs) \<Rightarrow>
          Inr (Inr (case map snd xs of [s] \<Rightarrow> s | ss \<Rightarrow> ''['' @ joinComma ss @ '']'',
                    map fst xs)))"

definition parseListenerOptions ::
  "'tc connEnv \<Rightarrow> string option \<Rightarrow> listenerOptions result" where
  "parseListenerOptions E o' =
     (case o' of
        None \<Rightarrow> Inr \<lparr>lo_Methods = [], lo_Signer = False\<rparr>
      | Some s \<Rightarrow> (case ce_parseOptions E s of
                      None \<Rightarrow> Inl MsgInvalidListenerOptions
                    | Some opts \<Rightarrow> Inr opts))"

section \<open>Listeners\<close>

record EventListenerAddRequest =
  rq_ListenerID :: nat
  rq_Name :: string
  rq_FromBlock :: string
  rq_Filters :: "string list"
  rq_Options :: "string option"
  rq_Checkpoint :: "listenerCheckpoint option"

text \<open>The listener of a request, before its high water mark is established.\<close>

definition newListener ::
  "'tc connEnv \<Rightarrow> EventListenerAddRequest \<Rightarrow> listener result result" where
  "newListener E req =
     (case (parseEventFilters E (rq_Filters req), rq_Options req) of
        (Inl e, _) \<Rightarrow> Inl e
      | (Inr (Inl e), _) \<Rightarrow> Inr (Inl MsgInvalidListenerOptions)
      | (Inr (Inr _), None) \<Rightarrow> Inr (Inl MsgInvalidListenerOptions)
      | (Inr (Inr (signature, filters)), Some _) \<Rightarrow>
          (case parseListenerOptions E (rq_Options req) of
             Inl e \<Rightarrow> Inr (Inl e)
           | Inr options \<Rightarrow>
               Inr (Inr \<lparr>ls_id = rq_ListenerID req,
                    ls_hwmBlock = (case rq_Checkpoint req of None \<Rightarrow> -1 | Some cp \<Rightarrow> cp_Block cp),
                    ls_lastDetected = None,
                    ls_config = \<lparr>lc_name = rq_Name req, lc_fromBlock = rq_FromBlock req,
                                 lc_options = options, lc_filters = filters,
                                 lc_signature = signature\<rparr>,
                    ls_removed = False, ls_catchup = True, ls_catchupLoopDone = False\<rparr>)))"

definition addEventListener ::
  "'tc connEnv \<Rightarrow> EventListenerAddRequest \<Rightarrow> eventStream \<Rightarrow> 'tc ethConnector \<Rightarrow>
   nat result result \<times> eventStream \<times> 'tc ethConnector" where
  "addEventListener E req es c =
     (if map_of (es_listeners es) (rq_ListenerID req) \<noteq> None
      then (Inr (Inl (MsgListenerAlreadyStarted (rq_ListenerID req))), es, c)
      else (case newListener E req of
              Inl e \<Rightarrow> (Inl e, es, c)
            | Inr (Inl e) \<Rightarrow> (Inr (Inl e), es, c)
            | Inr (Inr l) \<Rightarrow>
                (case ensureHWM E l c of
                   (Inl e, c1) \<Rightarrow> (Inl e, es, c1)
                 | (Inr (Inl e), c1) \<Rightarrow> (Inr (Inl e), es, c1)
                 | (Inr (Inr l1), c1) \<Rightarrow>
                     (Inr (Inr (length (es_heap es))),
                      es\<lparr>es_listeners := es_listeners es @ [(rq_ListenerID req, length (es_heap es))],
                         es_heap := es_heap es @ [l1]\<rparr>, c1))))"

definition startEventListener ::
  "nat \<Rightarrow> 'tc ethConnector \<Rightarrow> eventStream \<Rightarrow> eventStream" where
  "startEventListener p c es =
     (let l = es_heap es ! p;
          (readyForLead, removed) = checkReadyForLeadPackOrRemoved (es_headBlock es) c l;
          startCatchupLoop = \<not> readyForLead \<and> \<not> removed \<and> \<not> ls_catchupLoopDone l;
          es1 = (if readyForLead \<and> ls_catchup l
                 then (updListener p (\<lambda>l. l\<lparr>ls_catchup := False\<rparr>) es)
                        \<lparr>es_updateCount := es_updateCount es + 1\<rparr>
                 else es)
      in if startCatchupLoop
         then (updListener p (\<lambda>l. l\<lparr>ls_catchupLoopDone := True\<rparr>) es1)
                \<lparr>es_catchupLoops := es_catchupLoops es1 @ [p]\<rparr>
         else es1)"

definition removeEventListener :: "nat \<Rightarrow> eventStream \<Rightarrow> eventStream" where
  "removeEventListener listenerID es =
     (case map_of (es_listeners es) listenerID of
        None \<Rightarrow> es
      | Some p \<Rightarrow>
          updListener p (\<lambda>l. l\<lparr>ls_removed := True\<rparr>)
            (es\<lparr>es_updateCount := es_updateCount es + 1,
                es_listeners := filter (\<lambda>(i, q). i \<noteq> listenerID) (es_listeners es)\<rparr>))"

definition catchupCeiling :: "eventStream \<Rightarrow> int64 \<times> bool" where
  "catchupCeiling es = (es_headBlock es, es_headBlock es \<ge> 0)"

definition rejoinLeadGroup :: "nat \<Rightarrow> eventStream \<Rightarrow> eventStream" where
  "rejoinLeadGroup p es =
     updListener p (\<lambda>l. l\<lparr>ls_catchup := False\<rparr>)
       (es\<lparr>es_updateCount := es_updateCount es + 1\<rparr>)"

text \<open>The optimistic update of the head block: the list holds what another goroutine stores between
  the load and the compare-and-swap of each round (\<open>None\<close>: nothing).\<close>

fun casLoop :: "int64 \<Rightarrow> int64 option list \<Rightarrow> int64 \<Rightarrow> int64" where
  "casLoop newHeadBlock [] current = (if newHeadBlock \<le> current then current else newHeadBlock)"
| "casLoop newHeadBlock (other # others) current =
     (if newHeadBlock \<le> current then current
      else case other of
        None \<Rightarrow> newHeadBlock
      | Some v \<Rightarrow> if v = current then newHeadBlock else casLoop newHeadBlock others v)"

definition storeHeadBlockForward :: "int64 \<Rightarrow> eventStream \<Rightarrow> eventStream" where
  "storeHeadBlockForward newHeadBlock es =
     es\<lparr>es_headBlock := casLoop newHeadBlock [] (es_headBlock es)\<rparr>"

section \<open>The aggregated listener\<close>

fun addFilterTopics ::
  "'tc connEnv \<Rightarrow> nat \<Rightarrow> eventFilter list \<Rightarrow> string list \<Rightarrow> aggregatedListener \<Rightarrow> aggregatedListener" where
  "addFilterTopics E p [] addedTopics ag = ag"
| "addFilterTopics E p (f # fs) addedTopics ag =
     (let sigStr = ce_hashString E (ef_Topic0 f) in
      if sigStr \<in> set addedTopics then addFilterTopics E p fs addedTopics ag
      else addFilterTopics E p fs (sigStr # addedTopics)
        (case ag_listenersByTopic0 ag sigStr of
           None \<Rightarrow> ag\<lparr>ag_signatureSet := ag_signatureSet ag @ [ef_Topic0 f],
                      ag_listenersByTopic0 := (ag_listenersByTopic0 ag)(sigStr \<mapsto> [p])\<rparr>
         | Some topicListeners \<Rightarrow>
             ag\<lparr>ag_listenersByTopic0 := (ag_listenersByTopic0 ag)(sigStr \<mapsto> topicListeners @ [p])\<rparr>))"

definition addToAggregate ::
  "'tc connEnv \<Rightarrow> eventStream \<Rightarrow> nat \<Rightarrow> aggregatedListener \<Rightarrow> aggregatedListener" where
  "addToAggregate E es p ag =
     addFilterTopics E p (lc_filters (ls_config (es_heap es ! p))) []
       (ag\<lparr>ag_listenersByID := (ag_listenersByID ag)(ls_id (es_heap es ! p) \<mapsto> p)\<rparr>)"

definition buildAggregatedListener ::
  "'tc connEnv \<Rightarrow> eventStream \<Rightarrow> nat list \<Rightarrow> aggregatedListener" where
  "buildAggregatedListener E es listeners =
     fold (addToAggregate E es) listeners
       \<lparr>ag_signatureSet = [], ag_listenersByTopic0 = Map.empty, ag_listenersByID = Map.empty,
        ag_listeners = listeners\<rparr>"

definition leadGroup :: "eventStream \<Rightarrow> nat list" where
  "leadGroup es = filter (\<lambda>p. \<not> ls_catchup (es_heap es ! p)) (map snd (es_listeners es))"

definition buildReuseLeadGroupListener ::
  "'tc connEnv \<Rightarrow> eventStream \<Rightarrow> int \<Rightarrow> aggregatedListener \<Rightarrow> bool \<times> int \<times> aggregatedListener" where
  "buildReuseLeadGroupListener E es lastUpdate ag =
     (if lastUpdate \<noteq> es_updateCount es
      then (True, es_updateCount es, buildAggregatedListener E es (leadGroup es))
      else (False, lastUpdate, ag))"

section \<open>Events\<close>

fun firstMatch ::
  "'tc connEnv \<Rightarrow> listener \<Rightarrow> eventFilter list \<Rightarrow> LogJSONRPC \<Rightarrow> 'tc ethConnector \<Rightarrow>
   ListenerEvent option result result \<times> 'tc ethConnector" where
  "firstMatch E l [] ethLog c = (Inr (Inr None), c)"
| "firstMatch E l (f # fs) ethLog c =
     (case ls_filterEnrichEthLog E l f ethLog c of
        (Inr (Inr None), c1) \<Rightarrow> firstMatch E l fs ethLog c1
      | (r, c1) \<Rightarrow> (r, c1))"

fun matchListeners ::
  "'tc connEnv \<Rightarrow> eventStream \<Rightarrow> nat list \<Rightarrow> LogJSONRPC \<Rightarrow> 'tc ethConnector \<Rightarrow>
   ListenerEvent list result result \<times> 'tc ethConnector" where
  "matchListeners E es [] ethLog c = (Inr (Inr []), c)"
| "matchListeners E es (p # ps) ethLog c =
     (case firstMatch E (es_heap es ! p) (lc_filters (ls_config (es_heap es ! p))) ethLog c of
        (Inl e, c1) \<Rightarrow> (Inl e, c1)
      | (Inr (Inl e), c1) \<Rightarrow> (Inr (Inl e), c1)
      | (Inr (Inr lu), c1) \<Rightarrow>
          (case matchListeners E es ps ethLog c1 of
             (Inr (Inr rest), c2) \<Rightarrow>
               (Inr (Inr ((case lu of None \<Rightarrow> [] | Some u \<Rightarrow> [u]) @ rest)), c2)
           | (r, c2) \<Rightarrow> (r, c2)))"

fun matchLogs ::
  "'tc connEnv \<Rightarrow> aggregatedListener \<Rightarrow> eventStream \<Rightarrow> LogJSONRPC list \<Rightarrow> 'tc ethConnector \<Rightarrow>
   ListenerEvent list result result \<times> 'tc ethConnector" where
  "matchLogs E ag es [] c = (Inr (Inr []), c)"
| "matchLogs E ag es (ethLog # logs) c =
     (case lg_Topics ethLog of
        [] \<Rightarrow> (Inl PanicIndexOutOfRange, c)
      | topic0 # _ \<Rightarrow>
          (case matchListeners E es
                  (case ag_listenersByTopic0 ag (ce_hashString E topic0) of None \<Rightarrow> [] | Some ps \<Rightarrow> ps)
                  ethLog c of
             (Inr (Inr updates), c1) \<Rightarrow>
               (case matchLogs E ag es logs c1 of
                  (Inr (Inr rest), c2) \<Rightarrow> (Inr (Inr (updates @ rest)), c2)
                | (r, c2) \<Rightarrow> (r, c2))
           | (r, c1) \<Rightarrow> (r, c1)))"

definition filterEnrichSort ::
  "'tc connEnv \<Rightarrow> aggregatedListener \<Rightarrow> eventStream \<Rightarrow> LogJSONRPC list \<Rightarrow> 'tc ethConnector \<Rightarrow>
   ListenerEvent list result result \<times> 'tc ethConnector" where
  "filterEnrichSort E ag es ethLogs c =
     (case matchLogs E ag es ethLogs c of
        (Inr (Inr updates), c1) \<Rightarrow> (Inr (Inr (ce_sortEvents E updates)), c1)
      | (r, c1) \<Rightarrow> (r, c1))"

definition rangeFilter ::
  "aggregatedListener \<Rightarrow> eventStream \<Rightarrow> int64 \<Rightarrow> int64 \<Rightarrow> LogFilterJSONRPC" where
  "rangeFilter ag es fromBlock toBlock =
     \<lparr>lf_FromBlock = Some fromBlock, lf_ToBlock = Some toBlock,
      lf_Address =
        (case ag_listeners ag of
           [p] \<Rightarrow> (case lc_filters (ls_config (es_heap es ! p)) of
                     [f] \<Rightarrow> (case ef_Address f of None \<Rightarrow> [] | Some a \<Rightarrow> [a])
                   | _ \<Rightarrow> [])
         | _ \<Rightarrow> []),
      lf_Topics = [ag_signatureSet ag]\<rparr>"

definition getBlockRangeLogs ::
  "'tc connEnv \<Rightarrow> aggregatedListener \<Rightarrow> eventStream \<Rightarrow> int64 \<Rightarrow> int64 \<Rightarrow> 'tc ethConnector \<Rightarrow>
   LogJSONRPC list result \<times> 'tc ethConnector" where
  "getBlockRangeLogs E ag es fromBlock toBlock c =
     (case ce_getLogs E (c_tick c) (rangeFilter ag es fromBlock toBlock) of
        Inl e \<Rightarrow> Inl (RPCFailure e)
      | Inr ethLogs \<Rightarrow> Inr ethLogs, c_ticked c)"

definition getBlockRangeEvents ::
  "'tc connEnv \<Rightarrow> aggregatedListener \<Rightarrow> eventStream \<Rightarrow> int64 \<Rightarrow> int64 \<Rightarrow> 'tc ethConnector \<Rightarrow>
   ListenerEvent list result result \<times> 'tc ethConnector" where
  "getBlockRangeEvents E ag es fromBlock toBlock c =
     (case getBlockRangeLogs E ag es fromBlock toBlock c of
        (Inl e, c1) \<Rightarrow> (Inr (Inl e), c1)
      | (Inr ethLogs, c1) \<Rightarrow> filterEnrichSort E ag es ethLogs c1)"

section \<open>Dispatch\<close>

definition detectedStable ::
  "'tc connEnv \<Rightarrow> ListenerEvent \<Rightarrow> 'tc ethConnector \<Rightarrow> bool \<times> 'tc ethConnector" where
  "detectedStable E event c =
     (if \<not> lightMode c then (False, c)
      else (case ce_highestBlock E (c_tick c) of
              None \<Rightarrow> False
            | Some h \<Rightarrow> id_BlockNumber (e_ID (le_Event event)) + word_of_int (c_checkpointBlockGap c) < h,
            c_ticked c))"

definition markDetectedAndDispatch ::
  "'tc connEnv \<Rightarrow> aggregatedListener \<Rightarrow> ListenerEvent \<Rightarrow> eventStream \<Rightarrow> 'tc ethConnector \<Rightarrow>
   bool result \<times> eventStream \<times> 'tc ethConnector" where
  "markDetectedAndDispatch E ag event es c =
     (let (stable, c1) = detectedStable E event c;
          event1 = event\<lparr>le_DetectedStable := stable\<rparr> in
      case Option.bind (id_ListenerID (e_ID (le_Event event))) (ag_listenersByID ag) of
        None \<Rightarrow> (Inl PanicNilDereference, es, c1)
      | Some p \<Rightarrow>
          (let es1 = updListener p (markDetected (le_Checkpoint event)) es in
           if ce_eventSent E (c_tick c1)
           then (Inr False, es1\<lparr>es_events := es_events es1 @ [event1]\<rparr>, c_ticked c1)
           else (Inr True, es1, c_ticked c1)))"

fun dispatchEvents ::
  "'tc connEnv \<Rightarrow> aggregatedListener \<Rightarrow> ListenerEvent list \<Rightarrow> eventStream \<Rightarrow> 'tc ethConnector \<Rightarrow>
   bool result \<times> eventStream \<times> 'tc ethConnector" where
  "dispatchEvents E ag [] es c = (Inr False, es, c)"
| "dispatchEvents E ag (event # events) es c =
     (case markDetectedAndDispatch E ag event es c of
        (Inr False, es1, c1) \<Rightarrow> dispatchEvents E ag events es1 c1
      | r \<Rightarrow> r)"

definition dispatchSetHWMCheckExit ::
  "'tc connEnv \<Rightarrow> aggregatedListener \<Rightarrow> ListenerEvent list \<Rightarrow> int64 \<Rightarrow> eventStream \<Rightarrow>
   'tc ethConnector \<Rightarrow> bool result \<times> eventStream \<times> 'tc ethConnector" where
  "dispatchSetHWMCheckExit E ag events hwm es c =
     (if events = [] \<and> ce_ctxDone E (c_tick c) then (Inr True, es, c_ticked c)
      else (case dispatchEvents E ag events es c of
              (Inr False, es1, c1) \<Rightarrow>
                (Inr False, fold (\<lambda>p. updListener p (moveHWMForwards hwm)) (ag_listeners ag) es1,
                 if events = [] then c_ticked c1 else c1)
            | r \<Rightarrow> r))"

definition getListenerHWM ::
  "nat \<Rightarrow> eventStream \<Rightarrow>
   (listenerCheckpoint \<times> listenerCheckpoint option \<times> bool) result" where
  "getListenerHWM listenerID es =
     (case map_of (es_listeners es) listenerID of
        None \<Rightarrow> Inl (MsgListenerNotStarted listenerID)
      | Some p \<Rightarrow>
          (let l = es_heap es ! p; (scanned, lastDetected) = getHWM l in
           Inr (scanned, lastDetected, ls_catchup l \<or> es_catchup es)))"

section \<open>Establishing the head\<close>

definition maxHWM :: "eventStream \<Rightarrow> int64" where
  "maxHWM es =
     fold (\<lambda>(i, p) headBlock. if ls_hwmBlock (es_heap es ! p) > headBlock
                               then ls_hwmBlock (es_heap es ! p) else headBlock)
       (es_listeners es) (-1)"

definition preStartProcessing ::
  "'tc connEnv \<Rightarrow> eventStream \<Rightarrow> 'tc ethConnector \<Rightarrow> eventStream result \<times> 'tc ethConnector" where
  "preStartProcessing E es c =
     (case ce_highestBlock E (c_tick c) of
        None \<Rightarrow> (Inr es, c_ticked c)
      | Some chainHead \<Rightarrow>
          (case blockNumberToInt64 chainHead of
             Inl e \<Rightarrow> (Inl e, c_ticked c)
           | Inr n \<Rightarrow>
               (let safe = i64 (n - c_checkpointBlockGap c);
                    safeHead = (if safe < 0 then 0 else safe);
                    headBlock = maxHWM es;
                    headBlock1 = (if headBlock < 0 \<or> headBlock > safeHead then safeHead
                                  else headBlock)
                in (Inr (fold (\<lambda>(i, p). startEventListener p c) (es_listeners es)
                           (es\<lparr>es_headBlock := headBlock1\<rparr>)), c_ticked c))))"

end
