(* ===== verification/ScanPosition.thy ===== *)
theory ScanPosition
  imports EventTypes "HOL-Library.AList"
begin

text \<open>
  The poll position of \<open>internal/ethereum/event_stream_getlogs.go\<close>: where the client-side scan of
  logs is up to, what full mode remembers to detect a re-org behind that position, and what light
  mode remembers to deliver a version of a block only once.

  The conversion of a block number to \<open>int64\<close> panics when it does not fit, so these operations
  return a \<open>result\<close>. The map of delivered blocks is an association list keyed by the bytes of the
  hash; the empty list is also the nil map.
\<close>

record getLogsPollState =
  ps_fromBlock :: int64
  ps_polledChain :: "BlockInfoJSONRPC list"
  ps_deliveredBlocks :: "(8 word list \<times> int64) list"

definition ps_reset :: "int64 \<Rightarrow> getLogsPollState \<Rightarrow> getLogsPollState" where
  "ps_reset fromBlock ps =
     ps\<lparr>ps_fromBlock := fromBlock, ps_polledChain := [], ps_deliveredBlocks := []\<rparr>"

definition filterDelivered :: "getLogsPollState \<Rightarrow> LogJSONRPC list \<Rightarrow> LogJSONRPC list" where
  "filterDelivered ps logs =
     (if ps_deliveredBlocks ps = [] then logs
      else filter (\<lambda>l. map_of (ps_deliveredBlocks ps) (bytesOf (lg_BlockHash l)) = None) logs)"

section \<open>Light mode\<close>

fun recordDelivered ::
  "LogJSONRPC list \<Rightarrow> (8 word list \<times> int64) list \<Rightarrow> (8 word list \<times> int64) list result" where
  "recordDelivered [] m = Inr m"
| "recordDelivered (l # ls) m =
     (case trimUint64 (lg_BlockNumber l) of
        Inl e \<Rightarrow> Inl e
      | Inr n \<Rightarrow> recordDelivered ls (AList.update (bytesOf (lg_BlockHash l)) n m))"

definition advanceRescan ::
  "LogJSONRPC list \<Rightarrow> int64 \<Rightarrow> getLogsPollState \<Rightarrow> getLogsPollState result" where
  "advanceRescan newLogs newBase ps =
     (case recordDelivered newLogs (ps_deliveredBlocks ps) of
        Inl e \<Rightarrow> Inl e
      | Inr m \<Rightarrow> Inr (ps\<lparr>ps_fromBlock := newBase,
                         ps_deliveredBlocks := filter (\<lambda>(h, n). \<not> n < newBase) m\<rparr>))"

section \<open>Full mode\<close>

fun blockHashInHeadChain :: "BlockInfoJSONRPC list \<Rightarrow> int64 \<Rightarrow> hexbytes result" where
  "blockHashInHeadChain [] blockNumber = Inr None"
| "blockHashInHeadChain (bi # bis) blockNumber =
     (case blockNumberToInt64 (bi_Number bi) of
        Inl e \<Rightarrow> Inl e
      | Inr n \<Rightarrow> if n = blockNumber then Inr (bi_Hash bi) else blockHashInHeadChain bis blockNumber)"

text \<open>The records that have not aged out below the base of the window.\<close>

fun pruneRecords :: "int64 \<Rightarrow> BlockInfoJSONRPC list \<Rightarrow> BlockInfoJSONRPC list result" where
  "pruneRecords baseBlock [] = Inr []"
| "pruneRecords baseBlock (p # ps) =
     (case blockNumberToInt64 (bi_Number p) of
        Inl e \<Rightarrow> Inl e
      | Inr n \<Rightarrow> if n < baseBlock then pruneRecords baseBlock ps else Inr (p # ps))"

text \<open>The records before the first one whose hash is no longer canonical, and its number.\<close>

fun firstDivergence ::
  "BlockInfoJSONRPC list \<Rightarrow> BlockInfoJSONRPC list \<Rightarrow>
   (BlockInfoJSONRPC list \<times> int64 option) result" where
  "firstDivergence headChain [] = Inr ([], None)"
| "firstDivergence headChain (polled # ps) =
     (case blockNumberToInt64 (bi_Number polled) of
        Inl e \<Rightarrow> Inl e
      | Inr polledNumber \<Rightarrow>
          (case blockHashInHeadChain headChain polledNumber of
             Inl e \<Rightarrow> Inl e
           | Inr canonicalHash \<Rightarrow>
               if canonicalHash \<noteq> None \<and> \<not> hexEquals canonicalHash (bi_Hash polled)
               then Inr ([], Some polledNumber)
               else (case firstDivergence headChain ps of
                       Inl e \<Rightarrow> Inl e
                     | Inr (kept, d) \<Rightarrow> Inr (polled # kept, d))))"

definition checkReorgRewind ::
  "BlockInfoJSONRPC list \<Rightarrow> getLogsPollState \<Rightarrow> getLogsPollState result" where
  "checkReorgRewind headChain ps =
     (if headChain = [] \<or> ps_polledChain ps = [] then Inr ps
      else case blockNumberToInt64 (bi_Number (hd headChain)) of
        Inl e \<Rightarrow> Inl e
      | Inr baseBlock \<Rightarrow>
          (case pruneRecords baseBlock (ps_polledChain ps) of
             Inl e \<Rightarrow> Inl e
           | Inr records \<Rightarrow>
               (case firstDivergence headChain records of
                  Inl e \<Rightarrow> Inl e
                | Inr (kept, None) \<Rightarrow> Inr (ps\<lparr>ps_polledChain := records\<rparr>)
                | Inr (kept, Some polledNumber) \<Rightarrow>
                    Inr (ps\<lparr>ps_fromBlock := polledNumber, ps_polledChain := kept\<rparr>))))"

text \<open>The blocks of the snapshot whose numbers lie in a range.\<close>

fun blocksBetween ::
  "int64 \<Rightarrow> int64 \<Rightarrow> BlockInfoJSONRPC list \<Rightarrow> BlockInfoJSONRPC list result" where
  "blocksBetween fromBlock toBlock [] = Inr []"
| "blocksBetween fromBlock toBlock (bi # bis) =
     (case blockNumberToInt64 (bi_Number bi) of
        Inl e \<Rightarrow> Inl e
      | Inr n \<Rightarrow>
          (case blocksBetween fromBlock toBlock bis of
             Inl e \<Rightarrow> Inl e
           | Inr rest \<Rightarrow> Inr (if n \<ge> fromBlock \<and> n \<le> toBlock then bi # rest else rest)))"

definition advance ::
  "BlockInfoJSONRPC list \<Rightarrow> int64 \<Rightarrow> getLogsPollState \<Rightarrow> getLogsPollState result" where
  "advance headChain toBlock ps =
     (case blocksBetween (ps_fromBlock ps) toBlock headChain of
        Inl e \<Rightarrow> Inl e
      | Inr polled \<Rightarrow> Inr (ps\<lparr>ps_polledChain := ps_polledChain ps @ polled,
                              ps_fromBlock := i64 (toBlock + 1)\<rparr>))"

definition steadyStateScanCeiling ::
  "bool \<Rightarrow> int64 \<Rightarrow> int64 \<Rightarrow> BlockInfoJSONRPC list \<Rightarrow> int64 result" where
  "steadyStateScanCeiling light chainHead stableHead headChain =
     (if light then Inr chainHead
      else
        (case (if headChain = [] then Inr stableHead
               else case blockNumberToInt64 (bi_Number (last headChain)) of
                 Inl e \<Rightarrow> Inl e
               | Inr snapTop \<Rightarrow> Inr (if snapTop > stableHead then snapTop else stableHead)) of
           Inl e \<Rightarrow> Inl e
         | Inr verifiableTo \<Rightarrow>
             Inr (if chainHead < verifiableTo then chainHead else verifiableTo)))"

section \<open>Facts\<close>

abbreviation num :: "BlockInfoJSONRPC \<Rightarrow> int" where
  "num b \<equiv> uint (bi_Number b)"

definition fits_all :: "BlockInfoJSONRPC list \<Rightarrow> bool" where
  "fits_all bs \<longleftrightarrow> (\<forall>b \<in> set bs. fitsInt64 (bi_Number b))"

definition ascending :: "BlockInfoJSONRPC list \<Rightarrow> bool" where
  "ascending bs \<longleftrightarrow> sorted_wrt (\<lambda>a b. num a < num b) bs"

named_theorems scan_simps "what the operations on a poll position do to numbers that fit"

lemma fits_all_simps [simp]:
  "fits_all []" "fits_all (b # bs) \<longleftrightarrow> fitsInt64 (bi_Number b) \<and> fits_all bs"
  "fits_all (bs @ cs) \<longleftrightarrow> fits_all bs \<and> fits_all cs"
  by (auto simp: fits_all_def)

lemma fits_all_mem: "fits_all bs \<Longrightarrow> b \<in> set bs \<Longrightarrow> fitsInt64 (bi_Number b)"
  by (simp add: fits_all_def)

lemma ascending_simps [simp]:
  "ascending []" "ascending (b # bs) \<longleftrightarrow> (\<forall>c \<in> set bs. num b < num c) \<and> ascending bs"
  by (auto simp: ascending_def)

lemma ascending_append:
  "ascending (bs @ cs) \<longleftrightarrow>
     ascending bs \<and> ascending cs \<and> (\<forall>b \<in> set bs. \<forall>c \<in> set cs. num b < num c)"
  by (auto simp: ascending_def sorted_wrt_append)

lemma ascending_inject:
  "ascending bs \<Longrightarrow> b \<in> set bs \<Longrightarrow> c \<in> set bs \<Longrightarrow> num b = num c \<Longrightarrow> b = c"
  by (induction bs) auto

lemma linked_ascending:
  assumes "linked bs" and "fits_all bs"
  shows "ascending bs"
  using assms
proof (induction bs)
  case (Cons b bs)
  show ?case
  proof (cases bs)
    case (Cons c cs)
    have l: "linked bs" and p: "bi_IsParentOf b c" using Cons.prems(1) Cons by simp_all
    have asc: "ascending bs" using Cons.IH l Cons.prems(2) by simp
    have "num c = num b + 1"
      using bi_IsParentOf_number [OF p] Cons.prems(2) fitsInt64_bounds [of "bi_Number b"]
      by (simp add: uint_word_ariths)
    with asc Cons show ?thesis by auto
  qed simp
qed simp

lemma blockHashInHeadChain_fits [scan_simps]:
  "fits_all hc \<Longrightarrow> blockHashInHeadChain hc n =
     Inr (case find (\<lambda>b. num b = n) hc of None \<Rightarrow> None | Some b \<Rightarrow> bi_Hash b)"
  by (induction hc) auto

lemma pruneRecords_fits [scan_simps]:
  "fits_all ps \<Longrightarrow> pruneRecords base ps = Inr (dropWhile (\<lambda>p. num p < base) ps)"
  by (induction ps) auto

lemma blocksBetween_fits [scan_simps]:
  "fits_all hc \<Longrightarrow> blocksBetween f t hc = Inr (filter (\<lambda>b. f \<le> num b \<and> num b \<le> t) hc)"
  by (induction hc) auto

text \<open>A record agrees with a snapshot when the snapshot has nothing else at its number.\<close>

definition agrees :: "BlockInfoJSONRPC list \<Rightarrow> BlockInfoJSONRPC \<Rightarrow> bool" where
  "agrees hc p \<longleftrightarrow>
     (case find (\<lambda>b. num b = num p) hc of
        None \<Rightarrow> True
      | Some b \<Rightarrow> bi_Hash b = None \<or> hexEquals (bi_Hash b) (bi_Hash p))"

lemma firstDivergence_fits [scan_simps]:
  "fits_all hc \<Longrightarrow> fits_all ps \<Longrightarrow> firstDivergence hc ps =
     Inr (takeWhile (agrees hc) ps,
          case dropWhile (agrees hc) ps of [] \<Rightarrow> None | p # _ \<Rightarrow> Some (num p))"
  by (induction ps) (auto simp: agrees_def scan_simps split: option.splits)

lemma agreesD:
  assumes "agrees hc p" and "b \<in> set hc" and "ascending hc" and "num b = num p"
    and "bi_Hash b \<noteq> None"
  shows "hexEquals (bi_Hash b) (bi_Hash p)"
proof -
  obtain b' where f: "find (\<lambda>b. num b = num p) hc = Some b'"
    using assms(2,4) by (cases "find (\<lambda>b. num b = num p) hc") (auto simp: find_None_iff)
  then have "b' \<in> set hc" "num b' = num p" by (auto simp: find_Some_iff)
  then have "b' = b" using ascending_inject [OF assms(3) _ assms(2)] assms(4) by simp
  with assms(1,5) f show ?thesis by (auto simp: agrees_def)
qed

end
