(* ===== verification/ConnectorConfig.thy ===== *)
theory ConnectorConfig
  imports EventTypes
begin

text \<open>
  \<open>internal/ethereum/ethereum.go\<close>: the construction of the connector from its configuration, with
  the checks and overrides of the page size of catch-up, and the page size that shrinks at run time.

  A configuration is a record of the values that are read; the library calls that can fail (the LRU
  cache, \<open>regexp.Compile\<close>) are given by their outcome. The probe of light mode
  (\<open>verifyLightModeRangeErrors\<close>) is advisory: it makes up to two calls and only logs.
\<close>

section \<open>Construction\<close>

record ('bc, 'rc, 'tc) config =
  cf_ChainTrackingMode :: string
  cf_EventsFilterPollingMode :: string
  cf_EventsCatchupPageSize :: int64
  cf_EventsCatchupThreshold :: int64
  cf_EventsCheckpointBlockGap :: int64
  cf_EventsBlockTimestamps :: bool
  cf_TraceTXForRevertReason :: bool
  cf_DataFormat :: string
  cf_HederaCompatibilityMode :: bool
  cf_UseGetBlockReceipts :: bool
  cf_ReceiptCacheEnabled :: bool
  cf_newTxCache :: "'tc option"
  cf_regexCompiles :: bool
  cf_newBlockCache :: "'bc option"
  cf_newReceiptCache :: "'rc option"

definition chainTrackingMode :: "string \<Rightarrow> ChainTrackingMode option" where
  "chainTrackingMode s =
     (if s = '''' \<or> s = ''full'' then Some ChainTrackingModeFull
      else if s = ''light'' then Some ChainTrackingModeLight else None)"

definition eventFilterPollingMode :: "string \<Rightarrow> FilterPollingMode option" where
  "eventFilterPollingMode s =
     (if s = '''' \<or> s = ''server'' then Some FilterPollingModeServer
      else if s = ''client'' then Some FilterPollingModeClient else None)"

definition withDeprecatedConfFallback ::
  "(string \<Rightarrow> bool) \<Rightarrow> (string \<Rightarrow> 'a) \<Rightarrow> string \<Rightarrow> string \<Rightarrow> 'a" where
  "withDeprecatedConfFallback IsSet getter deprecatedKey newKey =
     (if \<not> IsSet deprecatedKey \<or> (IsSet deprecatedKey \<and> IsSet newKey) then getter newKey
      else getter deprecatedKey)"

text \<open>The number of calls of the probe: the second one is made when the first one is answered.\<close>

definition verifyLightModeRangeErrors :: "(nat \<Rightarrow> string + int) \<Rightarrow> nat \<Rightarrow> nat" where
  "verifyLightModeRangeErrors blockNumber t =
     (case blockNumber t of Inl e \<Rightarrow> Suc t | Inr hexHead \<Rightarrow> Suc (Suc t))"

definition NewEthereumConnectorWithRPC ::
  "('bc, 'rc, 'tc) config \<Rightarrow> (nat \<Rightarrow> string + int) \<Rightarrow>
   ('tc ethConnector \<times> ('bc, 'rc) blockListener) result" where
  "NewEthereumConnectorWithRPC cf blockNumber =
     (case chainTrackingMode (cf_ChainTrackingMode cf) of
        None \<Rightarrow> Inl (MsgInvalidChainTrackingMode (cf_ChainTrackingMode cf))
      | Some mode \<Rightarrow>
     (case eventFilterPollingMode (cf_EventsFilterPollingMode cf) of
        None \<Rightarrow> Inl (MsgInvalidFilterPollingMode (cf_EventsFilterPollingMode cf))
      | Some pollingMode \<Rightarrow>
     (let page = cf_EventsCatchupPageSize cf;
          gap = cf_EventsCheckpointBlockGap cf;
          threshold = (if cf_EventsCatchupThreshold cf < page then page
                       else cf_EventsCatchupThreshold cf) in
      if page < 1 then Inl (MsgCatchupPageSizeInvalid page)
      else if mode = ChainTrackingModeLight \<and> page < i64 (gap + 1)
      then Inl (MsgLightModeCatchupPageSizeInvalid page (i64 (gap + 1)))
      else
        (let t = (if mode = ChainTrackingModeLight then verifyLightModeRangeErrors blockNumber 0 else 0) in
         case cf_newTxCache cf of
           None \<Rightarrow> Inl (MsgCacheInitFail ''transaction'')
         | Some txCache \<Rightarrow>
             if \<not> cf_regexCompiles cf then Inl MsgInvalidRegex
             else if cf_DataFormat cf \<notin> {''map'', ''flat_array'', ''self_describing''}
             then Inl (MsgBadDataFormat (cf_DataFormat cf))
             else
               (case NewBlockListener gap (cf_HederaCompatibilityMode cf) False
                       (cf_UseGetBlockReceipts cf) (Some mode) (Some pollingMode)
                       (cf_newBlockCache cf) (cf_ReceiptCacheEnabled cf) (cf_newReceiptCache cf) of
                  Inl e \<Rightarrow> Inl e
                | Inr bl \<Rightarrow>
                    Inr (\<lparr>c_chainTrackingMode = mode, c_catchupPageSize = page,
                          c_catchupThreshold = threshold, c_checkpointBlockGap = gap,
                          c_eventBlockTimestamps = cf_EventsBlockTimestamps cf,
                          c_eventFilterPollingMode = pollingMode,
                          c_traceTXForRevertReason = cf_TraceTXForRevertReason cf,
                          c_chainID = '''', c_txCache = txCache, c_lightModeDrift = [],
                          c_tick = t\<rparr>, bl))))))"

section \<open>The page size\<close>

definition getCatchupPageSize :: "'tc ethConnector \<Rightarrow> int64" where
  "getCatchupPageSize c = c_catchupPageSize c"

definition downscaleCatchupPageSize :: "'tc ethConnector \<Rightarrow> 'tc ethConnector" where
  "downscaleCatchupPageSize c =
     (let current = getCatchupPageSize c;
          newSize = current div 2;
          floor = i64 (c_checkpointBlockGap c + 1) in
      if current \<le> 1 then c
      else if lightMode c \<and> newSize < floor then
        (if current \<le> floor then c else c\<lparr>c_catchupPageSize := floor\<rparr>)
      else c\<lparr>c_catchupPageSize := newSize\<rparr>)"

text \<open>What every connector in use satisfies: pages are not empty, the threshold allows a page, and in
  light mode one page covers the unstable window.\<close>

definition connector_ok :: "'tc ethConnector \<Rightarrow> bool" where
  "connector_ok c \<longleftrightarrow>
     1 \<le> c_catchupPageSize c \<and> c_catchupPageSize c \<le> c_catchupThreshold c \<and>
     c_catchupPageSize c < 2 ^ 63 \<and>
     0 < c_checkpointBlockGap c \<and> c_checkpointBlockGap c < 2 ^ 63 - 1 \<and>
     (lightMode c \<longrightarrow> c_checkpointBlockGap c + 1 \<le> c_catchupPageSize c)"

lemma connector_ok_floor: "connector_ok c \<Longrightarrow> i64 (c_checkpointBlockGap c + 1) = c_checkpointBlockGap c + 1"
  by (rule i64_id) (auto simp: connector_ok_def)

lemma NewEthereumConnector_ok:
  assumes "NewEthereumConnectorWithRPC cf blockNumber = Inr (c, bl)"
    and "cf_EventsCatchupPageSize cf < 2 ^ 63" and "cf_EventsCheckpointBlockGap cf < 2 ^ 63 - 1"
  shows "connector_ok c \<and> GetMonitoredHeadLength bl = c_checkpointBlockGap c \<and>
    cfg_ChainTrackingMode (conf bl) = c_chainTrackingMode c \<and>
    cfg_FilterPollingMode (conf bl) = c_eventFilterPollingMode c"
proof -
  have "0 < cf_EventsCheckpointBlockGap cf"
    using assms(1) by (auto simp: NewEthereumConnectorWithRPC_def NewBlockListener_def Let_def
        split: option.splits if_splits)
  moreover from this have "i64 (cf_EventsCheckpointBlockGap cf + 1) = cf_EventsCheckpointBlockGap cf + 1"
    using assms(3) by (intro i64_id) auto
  ultimately show ?thesis using assms
    by (auto simp: NewEthereumConnectorWithRPC_def NewBlockListener_def Let_def connector_ok_def
        lightMode_def GetMonitoredHeadLength_def split: option.splits if_splits)
qed

lemma downscale_ok:
  assumes "connector_ok c"
  shows "connector_ok (downscaleCatchupPageSize c)"
    and "c_catchupPageSize (downscaleCatchupPageSize c) \<le> c_catchupPageSize c"
  using assms connector_ok_floor [OF assms]
  by (auto simp: downscaleCatchupPageSize_def connector_ok_def getCatchupPageSize_def lightMode_def Let_def)

text \<open>Repeated halving reaches the smallest page that the mode allows.\<close>

definition smallestPage :: "'tc ethConnector \<Rightarrow> int64" where
  "smallestPage c = (if lightMode c then c_checkpointBlockGap c + 1 else 1)"

lemma downscale_fields [simp]:
  "c_chainTrackingMode (downscaleCatchupPageSize c) = c_chainTrackingMode c"
  "c_checkpointBlockGap (downscaleCatchupPageSize c) = c_checkpointBlockGap c"
  "c_catchupThreshold (downscaleCatchupPageSize c) = c_catchupThreshold c"
  "lightMode (downscaleCatchupPageSize c) = lightMode c"
  "smallestPage (downscaleCatchupPageSize c) = smallestPage c"
  by (simp_all add: downscaleCatchupPageSize_def smallestPage_def lightMode_def Let_def)

lemma downscale_progress:
  assumes "connector_ok c" and "c_catchupPageSize c \<noteq> smallestPage c"
  shows "smallestPage c \<le> c_catchupPageSize (downscaleCatchupPageSize c) \<and>
    c_catchupPageSize (downscaleCatchupPageSize c) < c_catchupPageSize c"
  using assms connector_ok_floor [OF assms(1)]
  by (auto simp: downscaleCatchupPageSize_def connector_ok_def getCatchupPageSize_def
      smallestPage_def Let_def)

lemma downscale_reaches_smallest:
  assumes "connector_ok c"
  shows "\<exists>n. c_catchupPageSize ((downscaleCatchupPageSize ^^ n) c) = smallestPage c"
  using assms
proof (induction "nat (c_catchupPageSize c)" arbitrary: c rule: less_induct)
  case less
  show ?case
  proof (cases "c_catchupPageSize c = smallestPage c")
    case True
    then show ?thesis by (intro exI [of _ 0]) simp
  next
    case False
    note p = downscale_progress [OF less.prems False]
    have "nat (c_catchupPageSize (downscaleCatchupPageSize c)) < nat (c_catchupPageSize c)"
      using p less.prems by (simp add: connector_ok_def)
    from less.hyps [OF this downscale_ok(1) [OF less.prems]] obtain n where
      "c_catchupPageSize ((downscaleCatchupPageSize ^^ n) (downscaleCatchupPageSize c)) = smallestPage c"
      by auto
    then show ?thesis by (intro exI [of _ "Suc n"]) (simp add: funpow_swap1)
  qed
qed

end
