(* ===== verification/StreamLoops.thy ===== *)
theory StreamLoops
  imports EventStream ScanPosition ConnectorConfig
begin

text \<open>
  The loops of an event stream (\<open>event_stream.go\<close>, \<open>event_stream_getlogs.go\<close> and
  \<open>event_listener.go\<close>): the catch-up of the lead group, its two steady states, the catch-up of a
  single listener, and the stream loop around them. One pass of a loop is one definition; its outcome
  says whether the loop goes on, is left (the Go function returns false), or the stream exits
  (it returns true). The local variables of the lead group's loops are the record \<open>leadLoop\<close>. The
  outer summand of a result is a panic.
\<close>

datatype loopOutcome = LoopAgain | LoopLeaves | LoopExits

record leadLoop =
  lp_lastUpdate :: int
  lp_ag :: aggregatedListener
  lp_failCount :: int
  lp_poll :: getLogsPollState
  lp_filter :: string
  lp_filterResetRequired :: bool
  lp_filterRPCMethodToUse :: string

type_synonym 'tc loopState = "leadLoop \<times> eventStream \<times> 'tc ethConnector"

definition emptyAggregate :: aggregatedListener where
  "emptyAggregate = \<lparr>ag_signatureSet = [], ag_listenersByTopic0 = Map.empty,
     ag_listenersByID = Map.empty, ag_listeners = []\<rparr>"

text \<open>The local variables when a loop is entered.\<close>

definition enterLoop :: leadLoop where
  "enterLoop = \<lparr>lp_lastUpdate = -1, lp_ag = emptyAggregate, lp_failCount = 0,
     lp_poll = \<lparr>ps_fromBlock = -1, ps_polledChain = [], ps_deliveredBlocks = []\<rparr>,
     lp_filter = '''', lp_filterResetRequired = False, lp_filterRPCMethodToUse = ''''\<rparr>"

section \<open>Shared steps\<close>

definition loopDelayExits :: "'tc connEnv \<Rightarrow> int \<Rightarrow> 'tc ethConnector \<Rightarrow> bool" where
  "loopDelayExits E failCount c =
     delay_exits (DoFailureDelay (ce_retry E) (ce_ctxDone E (c_tick c)) failCount)"

definition waitPollingInterval :: "'tc connEnv \<Rightarrow> 'tc ethConnector \<Rightarrow> bool" where
  "waitPollingInterval E c = ce_ctxDone E (c_tick c)"

text \<open>The end of a pass: the failure count is reset, and the loop sleeps unless it pages on.\<close>

definition endPass :: "'tc connEnv \<Rightarrow> bool \<Rightarrow> 'tc loopState \<Rightarrow> loopOutcome \<times> 'tc loopState" where
  "endPass E sleeps st =
     (case st of (lp, es, c) \<Rightarrow>
        (if sleeps \<and> waitPollingInterval E c then LoopExits else LoopAgain,
         lp\<lparr>lp_failCount := 0\<rparr>, es, c_ticked c))"

definition failPass :: "'tc loopState \<Rightarrow> loopOutcome \<times> 'tc loopState" where
  "failPass st =
     (case st of (lp, es, c) \<Rightarrow> (LoopAgain, lp\<lparr>lp_failCount := lp_failCount lp + 1\<rparr>, es, c))"

definition earliestHWM :: "eventStream \<Rightarrow> nat list \<Rightarrow> int64" where
  "earliestHWM es listeners =
     fold (\<lambda>p fromBlock. let lHWM = getHWMBlock (es_heap es ! p) in
             if fromBlock < 0 \<or> lHWM < fromBlock then lHWM else fromBlock) listeners (-1)"

text \<open>The end of a page, for a page size.\<close>

definition pageEnd :: "int64 \<Rightarrow> 'tc ethConnector \<Rightarrow> int64" where
  "pageEnd fromBlock c = i64 (i64 (fromBlock + getCatchupPageSize c) - 1)"

definition stableThreshold :: "int64 \<Rightarrow> 'tc ethConnector \<Rightarrow> int64" where
  "stableThreshold chainHead c =
     (let s = i64 (chainHead - c_checkpointBlockGap c) in if s < 0 then 0 else s)"

definition rangeQueryFailed :: "bool \<Rightarrow> 'tc ethConnector \<Rightarrow> bool \<times> 'tc ethConnector" where
  "rangeQueryFailed aboveStableHead c =
     (if \<not> lightMode c then (False, c)
      else if aboveStableHead
      then (True, c\<lparr>c_lightModeDrift := c_lightModeDrift c @ [''range_ahead'']\<rparr>)
      else (False, c\<lparr>c_lightModeDrift := c_lightModeDrift c @ [''drift_violation'']\<rparr>))"

definition rebuildAggregate ::
  "'tc connEnv \<Rightarrow> leadLoop \<Rightarrow> eventStream \<Rightarrow> bool \<times> leadLoop" where
  "rebuildAggregate E lp es =
     (case buildReuseLeadGroupListener E es (lp_lastUpdate lp) (lp_ag lp) of
        (changed, u, ag) \<Rightarrow> (changed, lp\<lparr>lp_lastUpdate := u, lp_ag := ag\<rparr>))"

section \<open>Catch-up of the lead group\<close>

definition catchupPage ::
  "'tc connEnv \<Rightarrow> int64 \<Rightarrow> int64 \<Rightarrow> 'tc loopState \<Rightarrow> (loopOutcome \<times> 'tc loopState) result" where
  "catchupPage E fromBlock toBlock st =
     (case st of (lp, es, c) \<Rightarrow>
        (case getBlockRangeEvents E (lp_ag lp) es fromBlock toBlock c of
           (Inl e, c1) \<Rightarrow> Inl e
         | (Inr (Inl err), c1) \<Rightarrow> Inr (failPass (lp, es, snd (rangeQueryFailed False c1)))
         | (Inr (Inr events), c1) \<Rightarrow>
             (case dispatchSetHWMCheckExit E (lp_ag lp) events (i64 (toBlock + 1)) es c1 of
                (Inl e, es1, c2) \<Rightarrow> Inl e
              | (Inr True, es1, c2) \<Rightarrow> Inr (LoopExits, lp, es1, c2)
              | (Inr False, es1, c2) \<Rightarrow> Inr (LoopAgain, lp\<lparr>lp_failCount := 0\<rparr>, es1, c2))))"

definition leadGroupCatchupPass ::
  "'tc connEnv \<Rightarrow> 'tc loopState \<Rightarrow> (loopOutcome \<times> 'tc loopState) result" where
  "leadGroupCatchupPass E st =
     (case st of (lp, es, c) \<Rightarrow>
        if loopDelayExits E (lp_failCount lp) c then Inr (LoopExits, lp, es, c_ticked c)
        else let c1 = c_ticked c in
          (case ce_highestBlock E (c_tick c1) of
             None \<Rightarrow> Inr (LoopExits, lp, es, c_ticked c1)
           | Some chainHeadBlock \<Rightarrow>
               (let c2 = c_ticked c1; lp1 = snd (rebuildAggregate E lp es) in
                if ag_listeners (lp_ag lp1) = [] then Inr (LoopLeaves, lp1, es, c2)
                else (case blockNumberToInt64 chainHeadBlock of
                  Inl e \<Rightarrow> Inl e
                | Inr chainHead \<Rightarrow>
                    (let fromBlock = earliestHWM es (ag_listeners (lp_ag lp1));
                         pollableHead = stableThreshold chainHead c2 in
                     if i64 (pollableHead - fromBlock) < c_catchupThreshold c2
                     then Inr (LoopLeaves, lp1, es, c2)
                     else catchupPage E fromBlock
                            (if pageEnd fromBlock c2 > pollableHead then pollableHead
                             else pageEnd fromBlock c2) (lp1, es, c2))))))"

section \<open>Steady state with client-side polling\<close>

text \<open>After a page was queried: filter and enrich, dispatch, move the marks and the poll position.\<close>

definition getLogsDeliver ::
  "'tc connEnv \<Rightarrow> BlockInfoJSONRPC list \<Rightarrow> int64 \<Rightarrow> int64 \<Rightarrow> bool \<Rightarrow> LogJSONRPC list \<Rightarrow>
   'tc loopState \<Rightarrow> (loopOutcome \<times> 'tc loopState) result" where
  "getLogsDeliver E headChain stableHead toBlock caughtUp ethLogs st =
     (case st of (lp, es, c) \<Rightarrow>
        let newLogs = (if lightMode c then filterDelivered (lp_poll lp) ethLogs else ethLogs) in
        (case filterEnrichSort E (lp_ag lp) es newLogs c of
           (Inl e, c1) \<Rightarrow> Inl e
         | (Inr (Inl err), c1) \<Rightarrow> Inr (failPass (lp, es, c1))
         | (Inr (Inr events), c1) \<Rightarrow>
             (let next = i64 (toBlock + 1);
                  hwm0 = (if stableHead < next then stableHead else next);
                  hwmBlock = (if lightMode c \<and> hwm0 < ps_fromBlock (lp_poll lp)
                              then ps_fromBlock (lp_poll lp) else hwm0) in
              (case dispatchSetHWMCheckExit E (lp_ag lp) events hwmBlock es c1 of
                 (Inl e, es1, c2) \<Rightarrow> Inl e
               | (Inr True, es1, c2) \<Rightarrow> Inr (LoopExits, lp, es1, c2)
               | (Inr False, es1, c2) \<Rightarrow>
                   (case (if lightMode c then advanceRescan newLogs hwmBlock (lp_poll lp)
                          else advance headChain toBlock (lp_poll lp)) of
                      Inl e \<Rightarrow> Inl e
                    | Inr poll \<Rightarrow>
                        Inr (endPass E caughtUp
                          (lp\<lparr>lp_poll := poll\<rparr>, storeHeadBlockForward hwmBlock es1, c2)))))))"

definition getLogsPage ::
  "'tc connEnv \<Rightarrow> BlockInfoJSONRPC list \<Rightarrow> int64 \<Rightarrow> int64 \<Rightarrow> int64 \<Rightarrow> bool \<Rightarrow> 'tc loopState \<Rightarrow>
   (loopOutcome \<times> 'tc loopState) result" where
  "getLogsPage E headChain stableHead scanFrom toBlock caughtUp st =
     (case st of (lp, es, c) \<Rightarrow>
        (case getBlockRangeLogs E (lp_ag lp) es scanFrom toBlock c of
           (Inl err, c1) \<Rightarrow>
             (case rangeQueryFailed (toBlock > stableHead) c1 of
                (True, c2) \<Rightarrow>
                  Inr (if waitPollingInterval E c2 then LoopExits else LoopAgain, lp, es, c_ticked c2)
              | (False, c2) \<Rightarrow> Inr (failPass (lp, es, c2)))
         | (Inr ethLogs, c1) \<Rightarrow>
             getLogsDeliver E headChain stableHead toBlock caughtUp ethLogs (lp, es, c1)))"

text \<open>The scan of a pass, with the poll position established.\<close>

definition getLogsScan ::
  "'tc connEnv \<Rightarrow> int64 \<Rightarrow> 'tc loopState \<Rightarrow> (loopOutcome \<times> 'tc loopState) result" where
  "getLogsScan E chainHead st =
     (case st of (lp, es, c) \<Rightarrow>
        let stableHead = stableThreshold chainHead c in
        if i64 (stableHead - ps_fromBlock (lp_poll lp)) > c_catchupThreshold c
        then Inr (LoopLeaves, lp, es, c)
        else
          (let headChain = (if lightMode c then [] else ce_headChain E (c_tick c)) in
           case (if lightMode c then Inr (lp_poll lp) else checkReorgRewind headChain (lp_poll lp)) of
             Inl e \<Rightarrow> Inl e
           | Inr poll \<Rightarrow>
               (let lp1 = lp\<lparr>lp_poll := poll\<rparr>; c1 = c_ticked c; scanFrom = ps_fromBlock poll in
                case steadyStateScanCeiling (lightMode c) chainHead stableHead headChain of
                  Inl e \<Rightarrow> Inl e
                | Inr ceiling \<Rightarrow>
                    (let capped = ceiling > pageEnd scanFrom c;
                         toBlock = (if capped then pageEnd scanFrom c else ceiling) in
                     if toBlock \<ge> scanFrom
                     then getLogsPage E headChain stableHead scanFrom toBlock (\<not> capped) (lp1, es, c1)
                     else Inr (endPass E (\<not> capped) (lp1, es, c1))))))"

definition leadGroupSteadyStateGetLogsPass ::
  "'tc connEnv \<Rightarrow> 'tc loopState \<Rightarrow> (loopOutcome \<times> 'tc loopState) result" where
  "leadGroupSteadyStateGetLogsPass E st =
     (case st of (lp, es, c) \<Rightarrow>
        if loopDelayExits E (lp_failCount lp) c then Inr (LoopExits, lp, es, c_ticked c)
        else
          (case rebuildAggregate E lp es of
             (listenerChanged, lp1) \<Rightarrow>
               let c1 = c_ticked c in
               if ag_signatureSet (lp_ag lp1) = [] then Inr (endPass E True (lp1, es, c1))
               else (case ce_highestBlock E (c_tick c1) of
                 None \<Rightarrow> Inr (LoopExits, lp1, es, c_ticked c1)
               | Some chainHeadBlock \<Rightarrow>
                   (case blockNumberToInt64 chainHeadBlock of
                      Inl e \<Rightarrow> Inl e
                    | Inr chainHead \<Rightarrow>
                        getLogsScan E chainHead
                          (if ps_fromBlock (lp_poll lp1) < 0 \<or> listenerChanged
                           then lp1\<lparr>lp_poll := ps_reset (earliestHWM es (ag_listeners (lp_ag lp1)))
                                                     (lp_poll lp1)\<rparr>
                           else lp1, es, c_ticked c1)))))"

section \<open>Steady state with a filter of the node\<close>

text \<open>The answer to \<open>eth_uninstallFilter\<close> is only logged.\<close>

definition uninstallFilter :: "string \<Rightarrow> 'tc ethConnector \<Rightarrow> string \<times> 'tc ethConnector" where
  "uninstallFilter f c = (if f \<noteq> '''' then ('''', c_ticked c) else (f, c))"

definition filterDeliver ::
  "'tc connEnv \<Rightarrow> int64 \<Rightarrow> LogJSONRPC list \<Rightarrow> 'tc loopState \<Rightarrow>
   (loopOutcome \<times> 'tc loopState) result" where
  "filterDeliver E hwmBlock ethLogs st =
     (case st of (lp, es, c) \<Rightarrow>
        (case filterEnrichSort E (lp_ag lp) es ethLogs c of
           (Inl e, c1) \<Rightarrow> Inl e
         | (Inr (Inl err), c1) \<Rightarrow> Inr (failPass (lp\<lparr>lp_filterResetRequired := True\<rparr>, es, c1))
         | (Inr (Inr events), c1) \<Rightarrow>
             (case dispatchSetHWMCheckExit E (lp_ag lp) events hwmBlock es c1 of
                (Inl e, es1, c2) \<Rightarrow> Inl e
              | (Inr True, es1, c2) \<Rightarrow> Inr (LoopExits, lp, es1, c2)
              | (Inr False, es1, c2) \<Rightarrow>
                  Inr (endPass E True (lp, storeHeadBlockForward hwmBlock es1, c2)))))"

definition filterQuery ::
  "'tc connEnv \<Rightarrow> int64 \<Rightarrow> 'tc loopState \<Rightarrow> (loopOutcome \<times> 'tc loopState) result" where
  "filterQuery E hwmBlock st =
     (case st of (lp, es, c) \<Rightarrow>
        (case (if lp_filterRPCMethodToUse lp = ''eth_getFilterLogs''
               then ce_getFilterLogs E (c_tick c) (lp_filter lp)
               else ce_getFilterChanges E (c_tick c) (lp_filter lp)) of
           Inl e \<Rightarrow>
             Inr (failPass (if MapError FilterRPCMethods e = ErrorReasonNotFound
                            then lp\<lparr>lp_filter := ''''\<rparr> else lp, es, c_ticked c))
         | Inr ethLogs \<Rightarrow>
             filterDeliver E hwmBlock ethLogs
               (lp\<lparr>lp_filterRPCMethodToUse := ''eth_getFilterChanges''\<rparr>, es, c_ticked c)))"

text \<open>A filter is (re-)established: the old one is uninstalled, and the new one covers everything from
  the earliest high water mark; \<open>None\<close> means that the loop goes back to catch-up.\<close>

definition establishFilter ::
  "'tc connEnv \<Rightarrow> 'tc loopState \<Rightarrow> (bool option \<times> 'tc loopState) result" where
  "establishFilter E st =
     (case st of (lp, es, c) \<Rightarrow>
        let (f, c1) = uninstallFilter (lp_filter lp) c;
            lp1 = lp\<lparr>lp_filter := f, lp_filterResetRequired := False,
                     lp_filterRPCMethodToUse := ''eth_getFilterLogs''\<rparr>;
            fromBlock = earliestHWM es (ag_listeners (lp_ag lp1)) in
        (case blockNumberToInt64 (case ce_highestBlock E (c_tick c1) of None \<Rightarrow> 0 | Some h \<Rightarrow> h) of
           Inl e \<Rightarrow> Inl e
         | Inr chainHead \<Rightarrow>
             (let c2 = c_ticked c1 in
              if i64 (i64 (chainHead - c_checkpointBlockGap c2) - fromBlock) > c_catchupThreshold c2
              then Inr (None, lp1, es, c2)
              else (case ce_newFilter E (c_tick c2)
                           \<lparr>lf_FromBlock = Some fromBlock, lf_ToBlock = None, lf_Address = [],
                            lf_Topics = [ag_signatureSet (lp_ag lp1)]\<rparr> of
                      Inl e \<Rightarrow> Inr (Some False, lp1, es, c_ticked c2)
                    | Inr f \<Rightarrow> Inr (Some True, lp1\<lparr>lp_filter := f\<rparr>, es, c_ticked c2)))))"

definition leadGroupSteadyStatePass ::
  "'tc connEnv \<Rightarrow> 'tc loopState \<Rightarrow> (loopOutcome \<times> 'tc loopState) result" where
  "leadGroupSteadyStatePass E st =
     (case st of (lp, es, c) \<Rightarrow>
        if loopDelayExits E (lp_failCount lp) c then Inr (LoopExits, lp, es, c_ticked c)
        else
          (case rebuildAggregate E lp es of
             (changed, lp1) \<Rightarrow>
               let c1 = c_ticked c; listenerChanged = (changed \<or> lp_filterResetRequired lp) in
               if ag_signatureSet (lp_ag lp1) = [] then Inr (endPass E True (lp1, es, c1))
               else (case blockNumberToInt64
                            (case ce_highestBlock E (c_tick c1) of None \<Rightarrow> 0 | Some h \<Rightarrow> h) of
                 Inl e \<Rightarrow> Inl e
               | Inr bh \<Rightarrow>
                   (let c2 = c_ticked c1; hwmBlock = stableThreshold bh c2 in
                    if lp_filter lp1 = '''' \<or> listenerChanged then
                      (case establishFilter E (lp1, es, c2) of
                         Inl e \<Rightarrow> Inl e
                       | Inr (None, st1) \<Rightarrow> Inr (LoopLeaves, st1)
                       | Inr (Some False, st1) \<Rightarrow> Inr (failPass st1)
                       | Inr (Some True, st1) \<Rightarrow> filterQuery E hwmBlock st1)
                    else filterQuery E hwmBlock (lp1, es, c2)))))"

section \<open>Catch-up of one listener\<close>

text \<open>The first half of a pass: what the loop does next, from what it reads at this moment.\<close>

datatype catchupPlan = CatchupExit | CatchupWait | CatchupScan int64 int64

definition planCatchup ::
  "nat \<Rightarrow> eventStream \<Rightarrow> 'tc ethConnector \<Rightarrow> catchupPlan \<times> eventStream" where
  "planCatchup p es c =
     (case checkReadyForLeadPackOrRemoved (es_headBlock es) c (es_heap es ! p) of
        (_, True) \<Rightarrow> (CatchupExit, es)
      | (True, False) \<Rightarrow> (CatchupExit, rejoinLeadGroup p es)
      | (False, False) \<Rightarrow>
          (let (headBlock, established) = catchupCeiling es;
               fromBlock = getHWMBlock (es_heap es ! p);
               toBlock = (if established \<and> pageEnd fromBlock c \<ge> headBlock
                          then i64 (headBlock - 1) else pageEnd fromBlock c)
           in (if \<not> established \<or> fromBlock > toBlock then CatchupWait
               else CatchupScan fromBlock toBlock, es)))"

text \<open>The second half: the query and the dispatch of a page.\<close>

definition scanCatchup ::
  "'tc connEnv \<Rightarrow> nat \<Rightarrow> aggregatedListener \<Rightarrow> int64 \<Rightarrow> int64 \<Rightarrow> int \<Rightarrow> eventStream \<Rightarrow> 'tc ethConnector \<Rightarrow>
   (bool \<times> int \<times> eventStream \<times> 'tc ethConnector) result" where
  "scanCatchup E p al fromBlock toBlock failCount es c =
     (case getBlockRangeEvents E al es fromBlock toBlock c of
        (Inl e, c1) \<Rightarrow> Inl e
      | (Inr (Inl err), c1) \<Rightarrow>
          Inr (False, failCount + 1, es,
            (case ce_downscaleRegex E of
               Some matches \<Rightarrow>
                 (if matches (ce_errorText E err) then downscaleCatchupPageSize c1
                  else snd (rangeQueryFailed False c1))
             | None \<Rightarrow> snd (rangeQueryFailed False c1)))
      | (Inr (Inr events), c1) \<Rightarrow>
          (case dispatchEvents E al events es c1 of
             (Inl e, es1, c2) \<Rightarrow> Inl e
           | (Inr True, es1, c2) \<Rightarrow> Inr (True, failCount, es1, c2)
           | (Inr False, es1, c2) \<Rightarrow>
               Inr (False, 0, updListener p (moveHWMForwards (i64 (toBlock + 1))) es1, c2)))"

text \<open>A whole pass of \<open>listenerCatchupLoop\<close>: whether the loop exits, and the failure count.\<close>

definition listenerCatchupPass ::
  "'tc connEnv \<Rightarrow> nat \<Rightarrow> aggregatedListener \<Rightarrow> int \<Rightarrow> eventStream \<Rightarrow> 'tc ethConnector \<Rightarrow>
   (bool \<times> int \<times> eventStream \<times> 'tc ethConnector) result" where
  "listenerCatchupPass E p al failCount es c =
     (if loopDelayExits E failCount c then Inr (True, failCount, es, c_ticked c)
      else let c1 = c_ticked c in
        (case planCatchup p es c1 of
           (CatchupExit, es1) \<Rightarrow> Inr (True, failCount, es1, c1)
         | (CatchupWait, es1) \<Rightarrow> Inr (ce_ctxDone E (c_tick c1), failCount, es1, c_ticked c1)
         | (CatchupScan f t, es1) \<Rightarrow> scanCatchup E p al f t failCount es1 c1))"

section \<open>The stream loop\<close>

datatype phase = Catchup | SteadyState | Stopped

text \<open>One pass of whichever loop of \<open>streamLoop\<close> is running, and what follows it: a loop that is left
  hands over to the other one with fresh local variables. The filter is uninstalled when the steady
  state is left in either way (\<open>defer\<close>).\<close>

definition steadyStatePass ::
  "'tc connEnv \<Rightarrow> 'tc loopState \<Rightarrow> (loopOutcome \<times> 'tc loopState) result" where
  "steadyStatePass E st =
     (case st of (lp, es, c) \<Rightarrow>
        if c_eventFilterPollingMode c = FilterPollingModeClient
        then leadGroupSteadyStateGetLogsPass E st
        else (case leadGroupSteadyStatePass E st of
                Inl e \<Rightarrow> Inl e
              | Inr (LoopAgain, st1) \<Rightarrow> Inr (LoopAgain, st1)
              | Inr (r, lp1, es1, c1) \<Rightarrow>
                  (case uninstallFilter (lp_filter lp1) c1 of
                     (f, c2) \<Rightarrow> Inr (r, lp1\<lparr>lp_filter := f\<rparr>, es1, c2))))"

definition streamLoopStep ::
  "'tc connEnv \<Rightarrow> phase \<times> 'tc loopState \<Rightarrow> (phase \<times> 'tc loopState) result" where
  "streamLoopStep E pst =
     (case pst of
        (Stopped, st) \<Rightarrow> Inr (Stopped, st)
      | (Catchup, st) \<Rightarrow>
          (case leadGroupCatchupPass E st of
             Inl e \<Rightarrow> Inl e
           | Inr (LoopAgain, st1) \<Rightarrow> Inr (Catchup, st1)
           | Inr (LoopLeaves, lp1, es1, c1) \<Rightarrow>
               Inr (SteadyState, enterLoop, es1\<lparr>es_catchup := False\<rparr>, c1)
           | Inr (LoopExits, lp1, es1, c1) \<Rightarrow> Inr (Stopped, lp1, es1\<lparr>es_catchup := False\<rparr>, c1))
      | (SteadyState, st) \<Rightarrow>
          (case steadyStatePass E st of
             Inl e \<Rightarrow> Inl e
           | Inr (LoopAgain, st1) \<Rightarrow> Inr (SteadyState, st1)
           | Inr (LoopLeaves, lp1, es1, c1) \<Rightarrow>
               Inr (Catchup, enterLoop, es1\<lparr>es_catchup := True\<rparr>, c1)
           | Inr (LoopExits, st1) \<Rightarrow> Inr (Stopped, st1)))"

end
