(* ===== verification/StreamProofs.thy ===== *)
theory StreamProofs
  imports StreamLoops "HOL-Library.Sublist"
begin

text \<open>
  Everything in an event stream moves forwards: the high water mark and the last detected checkpoint
  of a listener, the head block, the events that were sent. \<open>stream_le\<close> is this order on states, and
  every operation and every pass of a loop respects it.
\<close>

section \<open>The order on states\<close>

definition listener_le :: "listener \<Rightarrow> listener \<Rightarrow> bool" where
  "listener_le l l' \<longleftrightarrow>
     ls_id l' = ls_id l \<and> ls_config l' = ls_config l \<and> ls_hwmBlock l \<le> ls_hwmBlock l' \<and>
     ls_lastDetected l \<le> ls_lastDetected l' \<and> (ls_removed l \<longrightarrow> ls_removed l') \<and>
     (ls_catchup l' \<longrightarrow> ls_catchup l) \<and> (ls_catchupLoopDone l \<longrightarrow> ls_catchupLoopDone l')"

definition stream_le :: "eventStream \<Rightarrow> eventStream \<Rightarrow> bool" where
  "stream_le es es' \<longleftrightarrow>
     length (es_heap es) \<le> length (es_heap es') \<and>
     (\<forall>p < length (es_heap es). listener_le (es_heap es ! p) (es_heap es' ! p)) \<and>
     es_headBlock es \<le> es_headBlock es' \<and> es_updateCount es \<le> es_updateCount es' \<and>
     prefix (es_events es) (es_events es')"

lemma listener_le_refl [simp, intro]: "listener_le l l"
  by (simp add: listener_le_def)

lemma listener_le_trans: "listener_le a b \<Longrightarrow> listener_le b c \<Longrightarrow> listener_le a c"
  by (auto simp: listener_le_def)

lemma stream_le_refl [simp, intro]: "stream_le es es"
  by (simp add: stream_le_def)

lemma stream_le_trans [trans]: "stream_le a b \<Longrightarrow> stream_le b c \<Longrightarrow> stream_le a c"
  unfolding stream_le_def by (meson le_trans less_le_trans listener_le_trans order_trans prefix_order.trans)

lemma updListener_le:
  "(\<And>l. listener_le l (f l)) \<Longrightarrow> stream_le es (updListener p f es)"
  by (cases "p < length (es_heap es)")
     (auto simp: stream_le_def updListener_def nth_list_update)

lemma listener_le_updates [intro]:
  "listener_le l (l\<lparr>ls_catchup := False\<rparr>)" "listener_le l (l\<lparr>ls_removed := True\<rparr>)"
  "listener_le l (l\<lparr>ls_catchupLoopDone := True\<rparr>)"
  by (simp_all add: listener_le_def)

lemma moveHWMForwards_le [intro]: "listener_le l (moveHWMForwards b l)"
  by (simp add: listener_le_def moveHWMForwards_max)

lemma markDetected_le [intro]: "listener_le l (markDetected cp l)"
proof -
  have "ls_lastDetected (markDetected cp l) = max (ls_lastDetected l) (Some cp)"
    by (rule detected.step_max) simp
  then show ?thesis by (simp add: listener_le_def)
qed

lemma stream_le_fields:
  "stream_le es (es\<lparr>es_listeners := x\<rparr>)" "stream_le es (es\<lparr>es_catchupLoops := y\<rparr>)"
  "stream_le es (es\<lparr>es_catchup := z\<rparr>)" "stream_le es (es\<lparr>es_events := es_events es @ evs\<rparr>)"
  "k \<ge> es_updateCount es \<Longrightarrow> stream_le es (es\<lparr>es_updateCount := k\<rparr>)"
  by (simp_all add: stream_le_def)

text \<open>The fields that an update of a listener leaves alone.\<close>

lemma updListener_fields [simp]:
  "es_listeners (updListener p f es) = es_listeners es"
  "es_headBlock (updListener p f es) = es_headBlock es"
  "es_updateCount (updListener p f es) = es_updateCount es"
  "es_events (updListener p f es) = es_events es"
  "es_catchup (updListener p f es) = es_catchup es"
  "es_catchupLoops (updListener p f es) = es_catchupLoops es"
  "length (es_heap (updListener p f es)) = length (es_heap es)"
  by (simp_all add: updListener_def)

lemma updListener_heap:
  "q < length (es_heap es) \<Longrightarrow> es_heap (updListener p f es) ! q =
     (if q = p then f (es_heap es ! p) else es_heap es ! q)"
  by (simp add: updListener_def nth_list_update)

section \<open>Operations\<close>

lemma addEventListener_le:
  assumes "addEventListener E req es c = (r, es', c')"
  shows "stream_le es es'"
  using assms
  by (auto simp: addEventListener_def stream_le_def nth_append split: if_splits sum.splits prod.splits)

lemma startEventListener_le: "stream_le es (startEventListener p c es)"
proof -
  have a: "stream_le es ((updListener p (\<lambda>l. l\<lparr>ls_catchup := False\<rparr>) es)\<lparr>es_updateCount := es_updateCount es + 1\<rparr>)"
    by (rule stream_le_trans [OF updListener_le stream_le_fields(5)]) auto
  have b: "stream_le es' ((updListener p (\<lambda>l. l\<lparr>ls_catchupLoopDone := True\<rparr>) es')\<lparr>es_catchupLoops := y\<rparr>)" for es' y
    by (rule stream_le_trans [OF updListener_le stream_le_fields(2)]) auto
  show ?thesis
    using a b b [THEN stream_le_trans [OF a]]
    by (auto simp: startEventListener_def Let_def split: prod.split)
qed

lemma removeEventListener_le: "stream_le es (removeEventListener i es)"
proof -
  have "stream_le es (updListener p (\<lambda>l. l\<lparr>ls_removed := True\<rparr>)
      (es\<lparr>es_updateCount := es_updateCount es + 1, es_listeners := x\<rparr>))" for p x
    by (rule stream_le_trans [OF _ updListener_le]) (auto simp: stream_le_def)
  then show ?thesis by (auto simp: removeEventListener_def split: option.split)
qed

lemma rejoinLeadGroup_le: "stream_le es (rejoinLeadGroup p es)"
  unfolding rejoinLeadGroup_def
  by (rule stream_le_trans [OF stream_le_fields(5) updListener_le]) auto

text \<open>The compare-and-swap loop: it never lowers the head, ends at or above the new one, and, without
  interference, ends at the maximum.\<close>

lemma casLoop_nil: "casLoop n [] h = max h n"
  by simp

lemma casLoop_forward:
  "n \<le> casLoop n others h"
  "successively (\<le>) (h # map the (filter (\<lambda>x. x \<noteq> None) others)) \<Longrightarrow> h \<le> casLoop n others h"
proof -
  show "n \<le> casLoop n others h" by (induction n others h rule: casLoop.induct) (auto split: option.split)
  show "successively (\<le>) (h # map the (filter (\<lambda>x. x \<noteq> None) others)) \<Longrightarrow> h \<le> casLoop n others h"
  proof (induction n others h rule: casLoop.induct)
    case (2 n other others h)
    then show ?case by (cases other) (auto intro: order_trans)
  qed simp
qed

interpretation headMark: high_water es_headBlock "\<lambda>b. b" storeHeadBlockForward "\<lambda>es b. True"
  by unfold_locales (auto simp: storeHeadBlockForward_def max_def)

lemma storeHeadBlockForward_le: "stream_le es (storeHeadBlockForward b es)"
  by (simp add: stream_le_def storeHeadBlockForward_def)

lemma storeHeadBlockForward_fields [simp]:
  "es_heap (storeHeadBlockForward b es) = es_heap es"
  "es_listeners (storeHeadBlockForward b es) = es_listeners es"
  "es_events (storeHeadBlockForward b es) = es_events es"
  "es_catchupLoops (storeHeadBlockForward b es) = es_catchupLoops es"
  "es_updateCount (storeHeadBlockForward b es) = es_updateCount es"
  "es_headBlock (storeHeadBlockForward b es) = max (es_headBlock es) b"
  by (simp_all add: storeHeadBlockForward_def casLoop_nil del: casLoop.simps)

section \<open>The passes keep the listeners\<close>

text \<open>The passes of the loops neither add nor remove a listener, nor start a loop.\<close>

definition stream_keeps :: "eventStream \<Rightarrow> eventStream \<Rightarrow> bool" where
  "stream_keeps es es' \<longleftrightarrow>
     stream_le es es' \<and> es_listeners es' = es_listeners es \<and>
     es_catchupLoops es' = es_catchupLoops es \<and> length (es_heap es') = length (es_heap es) \<and>
     es_updateCount es' = es_updateCount es"

lemma stream_keeps_refl [simp, intro]: "stream_keeps es es"
  by (simp add: stream_keeps_def)

lemma stream_keeps_trans [trans]: "stream_keeps a b \<Longrightarrow> stream_keeps b c \<Longrightarrow> stream_keeps a c"
  unfolding stream_keeps_def by (auto intro: stream_le_trans)

lemma updListener_keeps:
  "(\<And>l. listener_le l (f l)) \<Longrightarrow> stream_keeps es (updListener p f es)"
  by (simp add: stream_keeps_def updListener_le)

lemma storeHeadBlockForward_keeps: "stream_keeps es (storeHeadBlockForward b es)"
  by (simp add: stream_keeps_def storeHeadBlockForward_le)

lemma stream_keeps_catchup: "stream_keeps es (es\<lparr>es_catchup := z\<rparr>)"
  by (simp add: stream_keeps_def stream_le_fields)

section \<open>Dispatch\<close>

lemma markDetectedAndDispatch_keeps:
  "markDetectedAndDispatch E ag ev es c = (r, es', c') \<Longrightarrow> stream_keeps es es'"
proof -
  have a: "stream_keeps es (updListener p (markDetected cp) es)" for p cp
    by (rule updListener_keeps) blast
  have "stream_keeps es ((updListener p (markDetected cp) es)\<lparr>es_events := es_events es @ evs\<rparr>)" for p cp evs
    using a [of p cp] by (auto simp: stream_keeps_def stream_le_def)
  then show "markDetectedAndDispatch E ag ev es c = (r, es', c') \<Longrightarrow> stream_keeps es es'"
    using a by (auto simp: markDetectedAndDispatch_def Let_def split: prod.splits option.splits if_splits)
qed

lemma dispatchEvents_keeps: "dispatchEvents E ag evs es c = (r, es', c') \<Longrightarrow> stream_keeps es es'"
proof (induction evs arbitrary: es c)
  case (Cons ev evs)
  obtain r1 es1 c1 where m: "markDetectedAndDispatch E ag ev es c = (r1, es1, c1)"
    by (metis prod_cases3)
  have "stream_keeps es es1" by (rule markDetectedAndDispatch_keeps [OF m])
  moreover have "stream_keeps es1 es'"
    using Cons m by (auto split: sum.splits bool.splits)
  ultimately show ?case by (rule stream_keeps_trans)
qed simp

lemma fold_moveHWM_keeps: "stream_keeps es (fold (\<lambda>p. updListener p (moveHWMForwards b)) ps es)"
proof (induction ps arbitrary: es)
  case (Cons p ps)
  have "stream_keeps es (updListener p (moveHWMForwards b) es)" by (rule updListener_keeps) blast
  also note Cons.IH
  finally show ?case by simp
qed simp

lemma dispatchSetHWM_keeps:
  assumes "dispatchSetHWMCheckExit E ag evs b es c = (r, es', c')"
  shows "stream_keeps es es'"
proof (cases "evs = [] \<and> ce_ctxDone E (c_tick c)")
  case True
  with assms show ?thesis by (simp add: dispatchSetHWMCheckExit_def)
next
  case False
  obtain r1 es1 c1 where d: "dispatchEvents E ag evs es c = (r1, es1, c1)" by (metis prod_cases3)
  have "stream_keeps es es1" by (rule dispatchEvents_keeps [OF d])
  moreover have "stream_keeps es1 es'"
    using assms False d by (auto simp: dispatchSetHWMCheckExit_def fold_moveHWM_keeps
        split: sum.splits bool.splits)
  ultimately show ?thesis by (rule stream_keeps_trans)
qed

section \<open>Passes\<close>

lemma catchupPage_keeps:
  assumes "catchupPage E f t (lp, es, c) = Inr (r, lp', es', c')"
  shows "stream_keeps es es'"
  using assms
  by (auto simp: catchupPage_def failPass_def split: prod.splits sum.splits bool.splits
      dest: dispatchSetHWM_keeps)

lemma leadGroupCatchupPass_keeps:
  "leadGroupCatchupPass E (lp, es, c) = Inr (r, lp', es', c') \<Longrightarrow> stream_keeps es es'"
  by (auto simp: leadGroupCatchupPass_def Let_def split: if_splits option.splits sum.splits
      dest: catchupPage_keeps)

lemma getLogsDeliver_keeps:
  "getLogsDeliver E hc s t k logs (lp, es, c) = Inr (r, lp', es', c') \<Longrightarrow> stream_keeps es es'"
  by (auto simp: getLogsDeliver_def Let_def failPass_def endPass_def
      split: if_splits prod.splits sum.splits bool.splits
      dest!: dispatchSetHWM_keeps intro: stream_keeps_trans storeHeadBlockForward_keeps)

lemma getLogsScan_keeps:
  "getLogsScan E h (lp, es, c) = Inr (r, lp', es', c') \<Longrightarrow> stream_keeps es es'"
  by (auto simp: getLogsScan_def getLogsPage_def Let_def failPass_def endPass_def
      split: if_splits prod.splits sum.splits bool.splits dest!: getLogsDeliver_keeps)

lemma getLogsPass_keeps:
  "leadGroupSteadyStateGetLogsPass E (lp, es, c) = Inr (r, lp', es', c') \<Longrightarrow> stream_keeps es es'"
  by (auto simp: leadGroupSteadyStateGetLogsPass_def Let_def endPass_def
      split: if_splits prod.splits option.splits sum.splits dest!: getLogsScan_keeps)

lemma filterQuery_keeps:
  "filterQuery E b (lp, es, c) = Inr (r, lp', es', c') \<Longrightarrow> stream_keeps es es'"
  by (auto simp: filterQuery_def filterDeliver_def failPass_def endPass_def
      split: sum.splits prod.splits bool.splits
      dest!: dispatchSetHWM_keeps intro: stream_keeps_trans storeHeadBlockForward_keeps)

lemma establishFilter_es:
  "establishFilter E (lp, es, c) = Inr (r, lp', es', c') \<Longrightarrow> es' = es"
  by (auto simp: establishFilter_def Let_def split: prod.splits sum.splits if_splits)

lemma leadGroupSteadyStatePass_keeps:
  "leadGroupSteadyStatePass E (lp, es, c) = Inr (r, lp', es', c') \<Longrightarrow> stream_keeps es es'"
  by (auto simp: leadGroupSteadyStatePass_def Let_def endPass_def failPass_def
      split: if_splits prod.splits sum.splits option.splits bool.splits
      dest!: filterQuery_keeps dest: establishFilter_es)

lemma steadyStatePass_keeps:
  "steadyStatePass E (lp, es, c) = Inr (r, lp', es', c') \<Longrightarrow> stream_keeps es es'"
  by (auto simp: steadyStatePass_def split: if_splits sum.splits loopOutcome.splits prod.splits
      dest!: getLogsPass_keeps leadGroupSteadyStatePass_keeps)

lemma streamLoopStep_keeps:
  assumes "streamLoopStep E (ph, lp, es, c) = Inr (ph', lp', es', c')"
  shows "stream_keeps es es'"
proof -
  have c: "stream_keeps es (x\<lparr>es_catchup := z\<rparr>)" if "stream_keeps es x" for x z
    using that by (auto intro: stream_keeps_trans stream_keeps_catchup)
  from assms show ?thesis
    by (auto simp: streamLoopStep_def split: phase.splits sum.splits loopOutcome.splits
        dest!: leadGroupCatchupPass_keeps steadyStatePass_keeps intro: c)
qed

lemma scanCatchup_keeps:
  "scanCatchup E p al f t n es c = Inr (x, n', es', c') \<Longrightarrow> stream_keeps es es'"
  by (auto simp: scanCatchup_def split: sum.splits prod.splits bool.splits option.splits
      dest!: dispatchEvents_keeps intro: stream_keeps_trans updListener_keeps)


lemma planCatchup_le: "planCatchup p es c = (plan, es') \<Longrightarrow> stream_le es es'"
  by (auto simp: planCatchup_def Let_def split: prod.splits bool.splits intro: rejoinLeadGroup_le)

end
