(* ===== verification/StreamSteps.thy ===== *)
theory StreamSteps
  imports StreamProofs
begin

text \<open>
  An event stream as a transition system. Three kinds of goroutines work on one stream: the stream
  loop, one catch-up loop per listener that is behind, and the calls of the API that add, start and
  remove listeners. \<open>stream_step\<close> interleaves them; a catch-up loop takes two steps per pass, because
  it reads the head of the stream, and only later, with the lead group having moved on, delivers the
  page it planned then.
\<close>

section \<open>The transitions\<close>

record 'tc streamWorld =
  w_started :: bool
  w_phase :: phase
  w_lp :: leadLoop
  w_es :: eventStream
  w_conn :: "'tc ethConnector"
  w_pending :: "nat \<rightharpoonup> int64 \<times> int64" \<comment> \<open>the page that a catch-up loop is scanning\<close>

text \<open>The stream of \<open>EventStreamStart\<close>, before its listeners are added.\<close>

definition newStream :: eventStream where
  "newStream = \<lparr>es_listeners = [], es_heap = [], es_updateCount = 0, es_headBlock = -1,
     es_catchup = False, es_events = [], es_catchupLoops = []\<rparr>"

definition newWorld :: "'tc ethConnector \<Rightarrow> 'tc streamWorld" where
  "newWorld c = \<lparr>w_started = False, w_phase = Catchup, w_lp = enterLoop, w_es = newStream,
     w_conn = c, w_pending = Map.empty\<rparr>"

definition planned :: "catchupPlan \<Rightarrow> (int64 \<times> int64) option" where
  "planned plan = (case plan of CatchupScan f t \<Rightarrow> Some (f, t) | _ \<Rightarrow> None)"

definition endLoop :: "nat \<Rightarrow> bool \<Rightarrow> eventStream \<Rightarrow> eventStream" where
  "endLoop p exits es =
     (if exits then es\<lparr>es_catchupLoops := filter (\<lambda>q. q \<noteq> p) (es_catchupLoops es)\<rparr> else es)"

inductive stream_step :: "'tc connEnv \<Rightarrow> 'tc streamWorld \<Rightarrow> 'tc streamWorld \<Rightarrow> bool"
  for E :: "'tc connEnv" where
  pre_start: "\<not> w_started w \<Longrightarrow> preStartProcessing E (w_es w) (w_conn w) = (Inr es, c) \<Longrightarrow>
    stream_step E w (w\<lparr>w_started := True, w_es := es\<lparr>es_catchup := True\<rparr>, w_conn := c\<rparr>)"
| lead: "w_started w \<Longrightarrow>
    streamLoopStep E (w_phase w, w_lp w, w_es w, w_conn w) = Inr (ph, lp, es, c) \<Longrightarrow>
    stream_step E w (w\<lparr>w_phase := ph, w_lp := lp, w_es := es, w_conn := c\<rparr>)"
| add: "addEventListener E req (w_es w) (w_conn w) = (Inr r, es, c) \<Longrightarrow>
    stream_step E w (w\<lparr>w_es := es, w_conn := c\<rparr>)"
| start: "p \<in> snd ` set (es_listeners (w_es w)) \<Longrightarrow>
    stream_step E w (w\<lparr>w_es := startEventListener p (w_conn w) (w_es w)\<rparr>)"
| remove: "stream_step E w (w\<lparr>w_es := removeEventListener i (w_es w)\<rparr>)"
| plan: "p \<in> set (es_catchupLoops (w_es w)) \<Longrightarrow> w_pending w p = None \<Longrightarrow>
    planCatchup p (w_es w) (w_conn w) = (pl, es) \<Longrightarrow>
    stream_step E w (w\<lparr>w_es := endLoop p (pl = CatchupExit) es,
                       w_pending := (w_pending w)(p := planned pl)\<rparr>)"
| scan: "w_pending w p = Some (f, t) \<Longrightarrow>
    scanCatchup E p (buildAggregatedListener E (w_es w) [p]) f t n (w_es w) (w_conn w) =
      Inr (exits, n', es, c) \<Longrightarrow>
    stream_step E w (w\<lparr>w_es := endLoop p exits es, w_conn := c,
                       w_pending := (w_pending w)(p := None)\<rparr>)"

abbreviation stream_run :: "'tc connEnv \<Rightarrow> 'tc streamWorld \<Rightarrow> 'tc streamWorld \<Rightarrow> bool" where
  "stream_run E \<equiv> (stream_step E)\<^sup>*\<^sup>*"

section \<open>The invariant\<close>

definition listener_at :: "eventStream \<Rightarrow> nat \<Rightarrow> nat \<Rightarrow> bool" where
  "listener_at es i p \<longleftrightarrow> p < length (es_heap es) \<and> ls_id (es_heap es ! p) = i"

definition loop_at :: "eventStream \<Rightarrow> nat \<Rightarrow> bool" where
  "loop_at es p \<longleftrightarrow> p < length (es_heap es) \<and> ls_catchupLoopDone (es_heap es ! p)"

definition es_ok :: "eventStream \<Rightarrow> bool" where
  "es_ok es \<longleftrightarrow>
     distinct (map fst (es_listeners es)) \<and> (\<forall>(i, p) \<in> set (es_listeners es). listener_at es i p) \<and>
     distinct (es_catchupLoops es) \<and> (\<forall>p \<in> set (es_catchupLoops es). loop_at es p)"

definition page_ok :: "eventStream \<Rightarrow> nat \<Rightarrow> int64 \<times> int64 \<Rightarrow> bool" where
  "page_ok es p page \<longleftrightarrow>
     p \<in> set (es_catchupLoops es) \<and> fst page \<le> snd page \<and> snd page < es_headBlock es \<and>
     - (2 ^ 63) \<le> snd page"

definition world_ok :: "'tc streamWorld \<Rightarrow> bool" where
  "world_ok w \<longleftrightarrow>
     es_ok (w_es w) \<and> (\<forall>p page. w_pending w p = Some page \<longrightarrow> page_ok (w_es w) p page) \<and>
     (\<not> w_started w \<longrightarrow> es_headBlock (w_es w) = -1 \<and> w_pending w = Map.empty)"

lemma stream_le_listener:
  "stream_le es es' \<Longrightarrow> p < length (es_heap es) \<Longrightarrow> listener_le (es_heap es ! p) (es_heap es' ! p)"
  by (simp add: stream_le_def)

lemma stream_le_refs:
  assumes "stream_le es es'"
  shows "listener_at es i p \<Longrightarrow> listener_at es' i p" "loop_at es p \<Longrightarrow> loop_at es' p"
  using stream_le_listener [OF assms, of p] assms
  by (auto simp: listener_at_def loop_at_def listener_le_def stream_le_def)

lemma es_ok_step:
  assumes "es_ok es" and le: "stream_le es es'"
    and "set (es_listeners es') \<subseteq> set (es_listeners es)" "distinct (map fst (es_listeners es'))"
    and "set (es_catchupLoops es') \<subseteq> set (es_catchupLoops es)" "distinct (es_catchupLoops es')"
  shows "es_ok es'"
proof -
  have "\<forall>(i, p) \<in> set (es_listeners es'). listener_at es' i p"
    using assms(1,3) stream_le_refs(1) [OF le] by (fastforce simp: es_ok_def)
  moreover have "\<forall>p \<in> set (es_catchupLoops es'). loop_at es' p"
    using assms(1,5) stream_le_refs(2) [OF le] by (fastforce simp: es_ok_def)
  ultimately show ?thesis using assms(4,6) by (simp add: es_ok_def)
qed

lemma es_ok_keeps: "es_ok es \<Longrightarrow> stream_keeps es es' \<Longrightarrow> es_ok es'"
  by (rule es_ok_step) (auto simp: stream_keeps_def es_ok_def)

lemma page_ok_keeps: "page_ok es p page \<Longrightarrow> stream_keeps es es' \<Longrightarrow> page_ok es' p page"
  by (auto simp: page_ok_def stream_keeps_def stream_le_def)

lemma page_ok_step:
  "page_ok es p page \<Longrightarrow> stream_le es es' \<Longrightarrow> p \<in> set (es_catchupLoops es') \<Longrightarrow> page_ok es' p page"
  by (auto simp: page_ok_def stream_le_def)

section \<open>Every operation keeps it\<close>

lemma addEventListener_cases:
  assumes "addEventListener E req es c = (r, es', c')"
  obtains "es' = es" | l where "es' = es\<lparr>es_listeners := es_listeners es @ [(rq_ListenerID req, length (es_heap es))],
      es_heap := es_heap es @ [l]\<rparr>" "ls_id l = rq_ListenerID req"
      "map_of (es_listeners es) (rq_ListenerID req) = None"
proof -
  have id: "ls_id l1 = rq_ListenerID req"
    if "newListener E req = Inr (Inr l)" "ensureHWM E l c = (Inr (Inr l1), c1)" for l l1 c1
    using that by (auto simp: newListener_def ensureHWM_def split: sum.splits prod.splits option.splits if_splits)
  from assms have "es' = es \<or> (\<exists>l. es' = es\<lparr>es_listeners := es_listeners es @ [(rq_ListenerID req, length (es_heap es))],
      es_heap := es_heap es @ [l]\<rparr> \<and> ls_id l = rq_ListenerID req \<and>
      map_of (es_listeners es) (rq_ListenerID req) = None)"
    by (auto simp: addEventListener_def dest: id split: if_splits sum.splits prod.splits)
  with that show thesis by blast
qed

lemma add_ok:
  assumes "addEventListener E req es c = (r, es', c')" and "es_ok es"
  shows "es_ok es'"
  using assms(1)
proof (cases rule: addEventListener_cases)
  case 1
  with assms show ?thesis by simp
next
  case (2 l)
  have "listener_at es i p \<Longrightarrow> listener_at es' i p" "loop_at es p \<Longrightarrow> loop_at es' p" for i p
    using stream_le_refs [OF addEventListener_le [OF assms(1)]] by auto
  then show ?thesis using 2 assms(2)
    by (fastforce simp: es_ok_def map_of_eq_None_iff listener_at_def)
qed

lemma start_fields [simp]:
  "es_listeners (startEventListener p c es) = es_listeners es"
  "es_headBlock (startEventListener p c es) = es_headBlock es"
  by (auto simp: startEventListener_def Let_def split: prod.split)

lemma start_loops:
  "es_catchupLoops (startEventListener p c es) = es_catchupLoops es \<or>
   es_catchupLoops (startEventListener p c es) = es_catchupLoops es @ [p] \<and>
     \<not> ls_catchupLoopDone (es_heap es ! p) \<and>
     (p < length (es_heap es) \<longrightarrow> loop_at (startEventListener p c es) p)"
  by (auto simp: startEventListener_def Let_def loop_at_def updListener_heap split: prod.split)

lemma start_ok:
  assumes "es_ok es" and "p \<in> snd ` set (es_listeners es)"
  shows "es_ok (startEventListener p c es)"
proof -
  let ?es = "startEventListener p c es"
  have p: "p < length (es_heap es)" using assms by (auto simp: es_ok_def listener_at_def)
  have refs: "listener_at es i q \<Longrightarrow> listener_at ?es i q" "loop_at es q \<Longrightarrow> loop_at ?es q" for i q
    using stream_le_refs [OF startEventListener_le [of es p c]] by auto
  have "\<forall>(i, q) \<in> set (es_listeners ?es). listener_at ?es i q"
    using assms(1) refs(1) by (auto simp: es_ok_def)
  moreover have "distinct (es_catchupLoops ?es) \<and> (\<forall>q \<in> set (es_catchupLoops ?es). loop_at ?es q)"
    using start_loops [of p c es] assms(1) refs(2) p by (auto simp: es_ok_def loop_at_def)
  ultimately show ?thesis using assms(1) by (simp add: es_ok_def)
qed

lemma remove_ok: "es_ok es \<Longrightarrow> es_ok (removeEventListener i es)"
  by (rule es_ok_step [OF _ removeEventListener_le])
     (auto simp: removeEventListener_def es_ok_def distinct_map inj_on_def split: option.split)

lemma remove_page: "page_ok es p page \<Longrightarrow> page_ok (removeEventListener i es) p page"
  by (auto simp: removeEventListener_def page_ok_def split: option.split)

lemma endLoop_fields [simp]:
  "es_listeners (endLoop p b es) = es_listeners es" "es_headBlock (endLoop p b es) = es_headBlock es"
  "es_heap (endLoop p b es) = es_heap es" "es_events (endLoop p b es) = es_events es"
  "es_updateCount (endLoop p b es) = es_updateCount es"
  by (simp_all add: endLoop_def)

lemma endLoop_le: "stream_le es (endLoop p b es)"
  by (simp add: stream_le_def)

lemma endLoop_ok: "es_ok es \<Longrightarrow> es_ok (endLoop p b es)"
  by (rule es_ok_step [OF _ endLoop_le]) (auto simp: endLoop_def es_ok_def)

lemma endLoop_page: "page_ok es q page \<Longrightarrow> p \<noteq> q \<Longrightarrow> page_ok (endLoop p b es) q page"
  by (simp add: page_ok_def endLoop_def)

lemma planCatchup_cases:
  assumes "planCatchup p es c = (pl, es')"
  obtains "es' = es" | "es' = rejoinLeadGroup p es" "pl = CatchupExit"
  using assms by (auto simp: planCatchup_def Let_def split: prod.splits bool.splits)

lemma rejoin_fields [simp]:
  "es_listeners (rejoinLeadGroup p es) = es_listeners es"
  "es_headBlock (rejoinLeadGroup p es) = es_headBlock es"
  "es_catchupLoops (rejoinLeadGroup p es) = es_catchupLoops es"
  by (simp_all add: rejoinLeadGroup_def)

lemma rejoin_ok: "es_ok es \<Longrightarrow> es_ok (rejoinLeadGroup p es)"
  by (rule es_ok_step [OF _ rejoinLeadGroup_le]) (auto simp: es_ok_def)

lemma plan_ok: "planCatchup p es c = (pl, es') \<Longrightarrow> es_ok es \<Longrightarrow> es_ok es'"
  by (erule planCatchup_cases) (auto intro: rejoin_ok)

text \<open>The page that is planned ends below the head of the stream.\<close>

lemma plan_below_head:
  assumes "planCatchup p es c = (CatchupScan f t, es')"
  shows "es' = es" "f \<le> t" "t < es_headBlock es" "- (2 ^ 63) \<le> t" "0 \<le> es_headBlock es"
proof -
  have *: "i64 (es_headBlock es - 1) < es_headBlock es" if "0 \<le> es_headBlock es"
    using i64_le [of "es_headBlock es - 1"] that by simp
  show "es' = es" "f \<le> t" "t < es_headBlock es" "- (2 ^ 63) \<le> t" "0 \<le> es_headBlock es"
    using assms * i64_range
    by (auto simp: planCatchup_def catchupCeiling_def Let_def pageEnd_def
        split: prod.splits bool.splits if_splits)
qed

text \<open>The establishment of the head: from an unestablished one it moves forwards, and it is never
  negative afterwards.\<close>

lemma fold_start_le:
  "stream_le es (fold (\<lambda>(i, p). startEventListener p c) xs es)"
proof (induction xs arbitrary: es)
  case (Cons x xs)
  have "stream_le es (startEventListener (snd x) c es)" by (rule startEventListener_le)
  also note Cons.IH
  finally show ?case by (simp add: split_beta)
qed simp

lemma fold_start_ok:
  "es_ok es \<Longrightarrow> set xs \<subseteq> set (es_listeners es) \<Longrightarrow>
     es_ok (fold (\<lambda>(i, p). startEventListener p c) xs es)"
proof (induction xs arbitrary: es)
  case (Cons x xs)
  then have "es_ok (startEventListener (snd x) c es)" by (auto intro!: start_ok)
  with Cons show ?case by (simp add: split_beta)
qed simp

lemma fold_start_fields [simp]:
  "es_listeners (fold (\<lambda>(i, p). startEventListener p c) xs es) = es_listeners es"
  "es_headBlock (fold (\<lambda>(i, p). startEventListener p c) xs es) = es_headBlock es"
  by (induction xs arbitrary: es) (auto simp: split_beta)

lemma preStart_facts:
  assumes "preStartProcessing E es c = (Inr es', c')" and "es_headBlock es = -1"
  shows "stream_le es es'" and "es_ok es \<Longrightarrow> es_ok es'"
proof -
  show "stream_le es es'"
  proof (cases "ce_highestBlock E (c_tick c)")
    case None
    with assms show ?thesis by (simp add: preStartProcessing_def)
  next
    case (Some h)
    then obtain b where "es' = fold (\<lambda>(i, p). startEventListener p c) (es_listeners es) (es\<lparr>es_headBlock := b\<rparr>)"
      "0 \<le> b"
      using assms by (auto simp: preStartProcessing_def Let_def split: sum.splits if_splits)
    moreover from this have "stream_le es (es\<lparr>es_headBlock := b\<rparr>)"
      using assms(2) by (simp add: stream_le_def)
    ultimately show ?thesis using fold_start_le stream_le_trans by blast
  qed
  have ok: "es_ok (es\<lparr>es_headBlock := b\<rparr>)" if "es_ok es" for b
    using that by (simp add: es_ok_def listener_at_def loop_at_def)
  show "es_ok es \<Longrightarrow> es_ok es'"
    using assms by (auto simp: preStartProcessing_def Let_def ok intro!: fold_start_ok
        split: option.splits sum.splits)
qed

lemma preStart_head:
  "preStartProcessing E es c = (Inr es', c') \<Longrightarrow> ce_highestBlock E (c_tick c) = Some h \<Longrightarrow>
     0 \<le> es_headBlock es'"
  by (auto simp: preStartProcessing_def Let_def split: sum.splits if_splits)

section \<open>Runs\<close>

lemma es_ok_catchup [simp]: "es_ok (es\<lparr>es_catchup := b\<rparr>) = es_ok es"
  by (simp add: es_ok_def listener_at_def loop_at_def)

lemma world_page: "world_ok w \<Longrightarrow> w_pending w q = Some page \<Longrightarrow> page_ok (w_es w) q page"
  by (simp add: world_ok_def del: split_paired_All)

lemma stream_step_ok:
  assumes "stream_step E w w'" and ok: "world_ok w"
  shows "world_ok w' \<and> stream_le (w_es w) (w_es w')"
  using assms(1)
proof cases
  case (pre_start es c)
  have head: "es_headBlock (w_es w) = -1" using ok pre_start(2) by (simp add: world_ok_def)
  note f = preStart_facts [OF pre_start(3) head]
  have "stream_le es (es\<lparr>es_catchup := True\<rparr>)" by (rule stream_le_fields)
  with f(1) have "stream_le (w_es w) (es\<lparr>es_catchup := True\<rparr>)" by (rule stream_le_trans)
  then show ?thesis using ok pre_start f(2) by (simp add: world_ok_def)
next
  case (lead ph lp es c)
  note k = streamLoopStep_keeps [OF lead(3)]
  show ?thesis using ok lead es_ok_keeps [OF _ k] page_ok_keeps [OF _ k] k
    by (auto simp: world_ok_def stream_keeps_def)
next
  case (add req r es c)
  note le = addEventListener_le [OF add(2)] and ok' = add_ok [OF add(2)]
  have "es_catchupLoops es = es_catchupLoops (w_es w) \<and> es_headBlock es = es_headBlock (w_es w)"
    using add(2) by (auto elim: addEventListener_cases)
  then show ?thesis using ok add(1) le ok' by (auto simp: world_ok_def page_ok_def)
next
  case (start p)
  have "set (es_catchupLoops (w_es w)) \<subseteq> set (es_catchupLoops (w_es w'))"
    using start_loops [of p "w_conn w" "w_es w"] start(1) by auto
  then show ?thesis using ok start start_ok [OF _ start(2), of "w_conn w"] startEventListener_le
    by (auto simp: world_ok_def page_ok_def)
next
  case (remove i)
  then show ?thesis using ok remove_ok remove_page removeEventListener_le
    by (auto simp: world_ok_def removeEventListener_def split: option.split)
next
  case (plan p pl es)
  have le: "stream_le (w_es w) es" by (rule planCatchup_le [OF plan(4)])
  have same: "es_headBlock es = es_headBlock (w_es w) \<and> es_catchupLoops es = es_catchupLoops (w_es w)"
    using plan(4) by (auto elim: planCatchup_cases)
  have ok_es: "es_ok es" using plan_ok [OF plan(4)] ok by (simp add: world_ok_def)
  have own: "page_ok (endLoop p (pl = CatchupExit) es) p page" if page: "planned pl = Some page" for page
  proof -
    obtain f t where pl: "pl = CatchupScan f t" "page = (f, t)"
      using page by (auto simp: planned_def split: catchupPlan.splits)
    with plan(4) have "f \<le> t" "t < es_headBlock (w_es w)" "- (2 ^ 63) \<le> t"
      using plan_below_head [of p "w_es w" "w_conn w" f t es] by auto
    with pl same plan(2) show ?thesis by (simp add: page_ok_def endLoop_def)
  qed
  have others: "page_ok (endLoop p (pl = CatchupExit) es) q page"
    if "w_pending w q = Some page" "q \<noteq> p" for q page
  proof -
    have "page_ok (w_es w) q page" using that world_page [OF ok] by simp
    with same page_ok_step [OF _ le, of q page] have "page_ok es q page" by (simp add: page_ok_def)
    with that show ?thesis by (simp add: endLoop_page)
  qed
  have "planned pl = None" if "es_headBlock (w_es w) = -1"
    using that plan(4) plan_below_head(5) [of p "w_es w" "w_conn w" _ _ es]
    by (auto simp: planned_def split: catchupPlan.split)
  then have "\<not> w_started w' \<longrightarrow> es_headBlock (w_es w') = -1 \<and> w_pending w' = Map.empty"
    using ok plan(1) same by (auto simp: world_ok_def)
  moreover have "page_ok (w_es w') q page" if "w_pending w' q = Some page" for q page
    using that plan(1) own others by (auto split: if_splits)
  ultimately show ?thesis using ok_es endLoop_ok stream_le_trans [OF le endLoop_le] plan(1)
    by (simp add: world_ok_def del: split_paired_All)
next
  case (scan p f t n exits n' es c)
  note k = scanCatchup_keeps [OF scan(3)]
  have le: "stream_le (w_es w) es" using k by (simp add: stream_keeps_def)
  have "w_started w" using ok scan(2) by (auto simp: world_ok_def)
  moreover have "page_ok (endLoop p exits es) q page" if "w_pending w q = Some page" "q \<noteq> p" for q page
    using that page_ok_keeps [OF world_page [OF ok] k] by (intro endLoop_page) auto
  then have "page_ok (w_es w') q page" if "w_pending w' q = Some page" for q page
    using that scan(1) by (auto split: if_splits)
  moreover have "es_ok (w_es w')" using ok scan(1) es_ok_keeps [OF _ k] endLoop_ok by (simp add: world_ok_def)
  ultimately show ?thesis using stream_le_trans [OF le endLoop_le] scan(1)
    by (simp add: world_ok_def del: split_paired_All)
qed

lemma newWorld_ok [simp]: "world_ok (newWorld c)"
  by (simp add: world_ok_def newWorld_def newStream_def es_ok_def)

lemma stream_run_ok:
  assumes "stream_run E w w'" and "world_ok w"
  shows "world_ok w' \<and> stream_le (w_es w) (w_es w')"
  using assms(1)
proof (induction rule: rtranclp_induct)
  case base
  with assms(2) show ?case by simp
next
  case (step y z)
  with stream_step_ok [OF step(2)] show ?case using stream_le_trans by blast
qed

text \<open>What a catch-up loop that scans does to the mark of its listener: it stays below the head.\<close>

lemma dispatchEvents_hwm:
  "dispatchEvents E ag evs es c = (r, es', c') \<Longrightarrow> p < length (es_heap es) \<Longrightarrow>
     ls_hwmBlock (es_heap es' ! p) = ls_hwmBlock (es_heap es ! p)"
proof (induction evs arbitrary: es c)
  case (Cons ev evs)
  obtain r1 es1 c1 where m: "markDetectedAndDispatch E ag ev es c = (r1, es1, c1)"
    by (metis prod_cases3)
  have "ls_hwmBlock (es_heap es1 ! p) = ls_hwmBlock (es_heap es ! p)"
    using m Cons.prems(2)
    by (auto simp: markDetectedAndDispatch_def Let_def updListener_heap
        split: prod.splits option.splits if_splits)
  moreover have "p < length (es_heap es1)"
    using markDetectedAndDispatch_keeps [OF m] Cons.prems(2) by (simp add: stream_keeps_def)
  ultimately show ?case using Cons m by (auto split: sum.splits bool.splits)
qed simp

lemma scanCatchup_hwm:
  assumes "scanCatchup E p al f t n es c = Inr (exits, n', es', c')" and "q < length (es_heap es)"
  shows "ls_hwmBlock (es_heap es' ! q) = ls_hwmBlock (es_heap es ! q) \<or>
     q = p \<and> ls_hwmBlock (es_heap es' ! q) = max (ls_hwmBlock (es_heap es ! q)) (i64 (t + 1))"
proof -
  have d: "ls_hwmBlock (es_heap es1 ! q) = ls_hwmBlock (es_heap es ! q) \<and> q < length (es_heap es1)"
    if "dispatchEvents E al evs es c1 = (r, es1, c2)" for evs c1 r es1 c2
    using dispatchEvents_keeps [OF that] dispatchEvents_hwm [OF that assms(2)] assms(2)
    by (simp add: stream_keeps_def)
  from assms(1) show ?thesis
    by (auto simp: scanCatchup_def updListener_heap moveHWMForwards_max dest!: d
        split: sum.splits prod.splits bool.splits if_splits)
qed

end
