(* ===== verification/EventQueryProofs.thy ===== *)
theory EventQueryProofs
  imports EventStream "HOL-Library.Multiset"
begin

text \<open>
  What a query for events delivers. The aggregated listener indexes its listeners by the first topic
  of their filters, and the logs that a node returns are matched through this index; the reference is
  the plain definition \<open>wanted\<close>, which looks at every filter of every listener. The two agree, and a
  query delivers exactly one event per log and listener that wants it, in the order of the checkpoints.
\<close>

section \<open>The aggregated listener\<close>

definition topicsOf :: "'tc connEnv \<Rightarrow> eventFilter list \<Rightarrow> string set" where
  "topicsOf E fs = (\<lambda>f. ce_hashString E (ef_Topic0 f)) ` set fs"

definition filtersAt :: "eventStream \<Rightarrow> nat \<Rightarrow> eventFilter list" where
  "filtersAt es p = lc_filters (ls_config (es_heap es ! p))"

definition topicListeners :: "aggregatedListener \<Rightarrow> string \<Rightarrow> nat list" where
  "topicListeners ag h = (case ag_listenersByTopic0 ag h of None \<Rightarrow> [] | Some ps \<Rightarrow> ps)"

text \<open>The signatures that a query asks for are the topics of the index, each of them once.\<close>

definition signatures_ok :: "'tc connEnv \<Rightarrow> aggregatedListener \<Rightarrow> bool" where
  "signatures_ok E ag \<longleftrightarrow>
     distinct (map (ce_hashString E) (ag_signatureSet ag)) \<and>
     set (map (ce_hashString E) (ag_signatureSet ag)) = dom (ag_listenersByTopic0 ag)"

lemma topicListeners_simps:
  "ag_listenersByTopic0 ag h = None \<Longrightarrow> topicListeners ag h = []"
  "ag_listenersByTopic0 ag h = Some ps \<Longrightarrow> topicListeners ag h = ps"
  "topicListeners (ag\<lparr>ag_listenersByTopic0 := (ag_listenersByTopic0 ag)(h \<mapsto> ps)\<rparr>) h' =
     (if h' = h then ps else topicListeners ag h')"
  "topicListeners (ag\<lparr>ag_signatureSet := x, ag_listenersByTopic0 := (ag_listenersByTopic0 ag)(h \<mapsto> ps)\<rparr>) h' =
     (if h' = h then ps else topicListeners ag h')"
  by (simp_all add: topicListeners_def)

lemma addFilterTopics_topics:
  "topicListeners (addFilterTopics E p fs added ag) h =
     topicListeners ag h @ (if h \<in> topicsOf E fs \<and> h \<notin> set added then [p] else [])"
proof (induction E p fs added ag rule: addFilterTopics.induct)
  case (2 E p f fs added ag)
  let ?t = "ce_hashString E (ef_Topic0 f)"
  show ?case
  proof (cases "?t \<in> set added")
    case True
    with 2(1) show ?thesis by (auto simp: topicsOf_def)
  next
    case False
    with 2(2) show ?thesis
      by (cases "ag_listenersByTopic0 ag ?t") (auto simp: topicsOf_def topicListeners_simps Let_def split: if_splits)
  qed
qed (simp add: topicsOf_def)

lemma signatures_ok_topic:
  assumes "signatures_ok E ag"
  shows "ag_listenersByTopic0 ag (ce_hashString E t) = None \<Longrightarrow>
      signatures_ok E (ag\<lparr>ag_signatureSet := ag_signatureSet ag @ [t],
        ag_listenersByTopic0 := (ag_listenersByTopic0 ag)(ce_hashString E t \<mapsto> ps)\<rparr>)"
    and "ag_listenersByTopic0 ag h = Some qs \<Longrightarrow>
      signatures_ok E (ag\<lparr>ag_listenersByTopic0 := (ag_listenersByTopic0 ag)(h \<mapsto> ps)\<rparr>)"
  using assms by (auto simp: signatures_ok_def)

lemma addFilterTopics_signatures:
  "signatures_ok E ag \<Longrightarrow> signatures_ok E (addFilterTopics E p fs added ag)"
  by (induction E p fs added ag rule: addFilterTopics.induct)
     (auto simp: Let_def signatures_ok_topic split: option.splits)

lemma addFilterTopics_fields [simp]:
  "ag_listenersByID (addFilterTopics E p fs added ag) = ag_listenersByID ag"
  "ag_listeners (addFilterTopics E p fs added ag) = ag_listeners ag"
  by (induction E p fs added ag rule: addFilterTopics.induct) (auto simp: Let_def split: option.split)

lemma addToAggregate_topics:
  "topicListeners (addToAggregate E es p ag) h =
     topicListeners ag h @ (if h \<in> topicsOf E (filtersAt es p) then [p] else [])"
  by (simp add: addToAggregate_def addFilterTopics_topics filtersAt_def) (simp add: topicListeners_def)

lemma addToAggregate_signatures: "signatures_ok E ag \<Longrightarrow> signatures_ok E (addToAggregate E es p ag)"
  unfolding addToAggregate_def by (rule addFilterTopics_signatures) (simp add: signatures_ok_def)

lemma fold_addToAggregate:
  "topicListeners (fold (addToAggregate E es) ps ag) h =
     topicListeners ag h @ filter (\<lambda>p. h \<in> topicsOf E (filtersAt es p)) ps"
  "signatures_ok E ag \<Longrightarrow> signatures_ok E (fold (addToAggregate E es) ps ag)"
  "ag_listeners (fold (addToAggregate E es) ps ag) = ag_listeners ag"
  "ag_listenersByID (fold (addToAggregate E es) ps ag) =
     ag_listenersByID ag ++ map_of (rev (map (\<lambda>p. (ls_id (es_heap es ! p), p)) ps))"
  by (induction ps arbitrary: ag)
     (auto simp: addToAggregate_topics addToAggregate_signatures, auto simp: addToAggregate_def)

lemma buildAggregatedListener_spec:
  "topicListeners (buildAggregatedListener E es ps) h =
     filter (\<lambda>p. h \<in> topicsOf E (filtersAt es p)) ps"
  "signatures_ok E (buildAggregatedListener E es ps)"
  "ag_listeners (buildAggregatedListener E es ps) = ps"
  "ag_listenersByID (buildAggregatedListener E es ps) =
     map_of (rev (map (\<lambda>p. (ls_id (es_heap es ! p), p)) ps))"
proof -
  have "topicListeners \<lparr>ag_signatureSet = [], ag_listenersByTopic0 = Map.empty,
      ag_listenersByID = Map.empty, ag_listeners = ps\<rparr> h = []"
    by (simp add: topicListeners_def)
  moreover have "signatures_ok E \<lparr>ag_signatureSet = [], ag_listenersByTopic0 = Map.empty,
      ag_listenersByID = Map.empty, ag_listeners = ps\<rparr>"
    by (simp add: signatures_ok_def)
  ultimately show
    "topicListeners (buildAggregatedListener E es ps) h = filter (\<lambda>p. h \<in> topicsOf E (filtersAt es p)) ps"
    "signatures_ok E (buildAggregatedListener E es ps)"
    "ag_listeners (buildAggregatedListener E es ps) = ps"
    "ag_listenersByID (buildAggregatedListener E es ps) =
       map_of (rev (map (\<lambda>p. (ls_id (es_heap es ! p), p)) ps))"
    by (simp_all add: buildAggregatedListener_def fold_addToAggregate)
qed

section \<open>Matching\<close>

definition matchesSome :: "eventFilter list \<Rightarrow> LogJSONRPC \<Rightarrow> bool" where
  "matchesSome fs g \<longleftrightarrow> (\<exists>f \<in> set fs. filterMatches f g = Inr True)"

definition wanted :: "eventStream \<Rightarrow> LogJSONRPC \<Rightarrow> nat \<Rightarrow> bool" where
  "wanted es g p \<longleftrightarrow>
     ls_hwmBlock (es_heap es ! p) \<le> uint (lg_BlockNumber g) \<and> matchesSome (filtersAt es p) g"

definition eventKey :: "ListenerEvent \<Rightarrow> LogJSONRPC \<times> nat option" where
  "eventKey ev = (in_Log (e_Info (le_Event ev)), id_ListenerID (e_ID (le_Event ev)))"

definition wantedKeys :: "eventStream \<Rightarrow> nat list \<Rightarrow> LogJSONRPC \<Rightarrow> (LogJSONRPC \<times> nat option) list" where
  "wantedKeys es ps g = map (\<lambda>p. (g, Some (ls_id (es_heap es ! p)))) (filter (wanted es g) ps)"

text \<open>A listener passes over a log in two cases only.\<close>

lemma ls_filterEnrichEthLog_none:
  assumes "ls_filterEnrichEthLog E l f g c = (Inr (Inr None), c')"
  shows "uint (lg_BlockNumber g) < ls_hwmBlock l \<or> filterMatches f g = Inr False"
  using assms
  by (auto simp: ls_filterEnrichEthLog_def ee_filterEnrichEthLog_def Let_def logNumbers_Inr
      split: sum.splits if_splits prod.splits option.splits bool.splits)

lemma firstMatch_spec:
  assumes "firstMatch E l fs g c = (Inr (Inr r), c')"
  shows "(r \<noteq> None) = (fs \<noteq> [] \<and> ls_hwmBlock l \<le> uint (lg_BlockNumber g) \<and> matchesSome fs g)"
    and "r = Some ev \<Longrightarrow> eventKey ev = (g, Some (ls_id l)) \<and> logNumbers g = Inr (le_Checkpoint ev)"
proof -
  have "((r \<noteq> None) = (fs \<noteq> [] \<and> ls_hwmBlock l \<le> uint (lg_BlockNumber g) \<and> matchesSome fs g)) \<and>
    (\<forall>ev. r = Some ev \<longrightarrow> eventKey ev = (g, Some (ls_id l)) \<and> logNumbers g = Inr (le_Checkpoint ev))"
    using assms
  proof (induction fs arbitrary: c)
    case (Cons f fs)
    obtain r1 c1 where f: "ls_filterEnrichEthLog E l f g c = (Inr (Inr r1), c1)"
      using Cons.prems by (auto split: prod.splits sum.splits option.splits)
    show ?case
    proof (cases r1)
      case None
      from ls_filterEnrichEthLog_none [OF f [unfolded None]] Cons f None show ?thesis
        by (fastforce simp: matchesSome_def)
    next
      case (Some ev)
      with f Cons.prems have "r = Some ev" by simp
      with ls_filterEnrichEthLog_event [OF f [unfolded Some]] show ?thesis
        by (auto simp: matchesSome_def eventKey_def logNumbers_Inr)
    qed
  qed (simp add: matchesSome_def)
  then show "(r \<noteq> None) = (fs \<noteq> [] \<and> ls_hwmBlock l \<le> uint (lg_BlockNumber g) \<and> matchesSome fs g)"
    and "r = Some ev \<Longrightarrow> eventKey ev = (g, Some (ls_id l)) \<and> logNumbers g = Inr (le_Checkpoint ev)"
    by blast+
qed

definition checkpointed :: "ListenerEvent \<Rightarrow> bool" where
  "checkpointed ev \<longleftrightarrow> logNumbers (in_Log (e_Info (le_Event ev))) = Inr (le_Checkpoint ev)"

lemma matchListeners_spec:
  "matchListeners E es ps g c = (Inr (Inr evs), c') \<Longrightarrow>
     map eventKey evs = wantedKeys es ps g \<and> (\<forall>ev \<in> set evs. checkpointed ev)"
proof (induction ps arbitrary: c evs)
  case Nil
  then show ?case by (simp add: wantedKeys_def)
next
  case (Cons p ps)
  obtain r c1 where f: "firstMatch E (es_heap es ! p) (filtersAt es p) g c = (Inr (Inr r), c1)"
    using Cons.prems by (auto simp: filtersAt_def split: prod.splits sum.splits)
  moreover from this obtain rest where rest: "matchListeners E es ps g c1 = (Inr (Inr rest), c')"
    "evs = (case r of None \<Rightarrow> [] | Some u \<Rightarrow> [u]) @ rest"
    using Cons.prems by (auto simp: filtersAt_def split: prod.splits sum.splits)
  ultimately show ?case
    using Cons.IH [OF rest(1)] firstMatch_spec(1) [OF f] firstMatch_spec(2) [OF f]
    by (cases r)
       (auto simp: wantedKeys_def wanted_def matchesSome_def eventKey_def checkpointed_def)
qed

lemma matchLogs_spec:
  "matchLogs E ag es logs c = (Inr (Inr evs), c') \<Longrightarrow>
     map eventKey evs =
       concat (map (\<lambda>g. wantedKeys es (topicListeners ag (ce_hashString E (hd (lg_Topics g)))) g) logs) \<and>
     (\<forall>ev \<in> set evs. checkpointed ev) \<and> (\<forall>g \<in> set logs. lg_Topics g \<noteq> [])"
proof (induction logs arbitrary: c evs)
  case (Cons g logs)
  obtain t ts where t: "lg_Topics g = t # ts" using Cons.prems by (cases "lg_Topics g") auto
  obtain us c1 where m: "matchListeners E es (topicListeners ag (ce_hashString E t)) g c = (Inr (Inr us), c1)"
    using Cons.prems t by (auto simp: topicListeners_def split: prod.splits sum.splits)
  moreover from this obtain rest where "matchLogs E ag es logs c1 = (Inr (Inr rest), c')" "evs = us @ rest"
    using Cons.prems t by (auto simp: topicListeners_def split: prod.splits sum.splits)
  ultimately show ?case using Cons.IH matchListeners_spec [OF m] t by auto
qed simp

section \<open>The query as a whole\<close>

text \<open>What the code relies on: the hash of equal byte slices is the same string, and \<open>sort.Sort\<close> on
  the events returns a permutation that is ordered by \<open>LessThan\<close> on their checkpoints.\<close>

definition hashes_bytes :: "'tc connEnv \<Rightarrow> bool" where
  "hashes_bytes E \<longleftrightarrow> (\<forall>a b. hexEquals a b \<longrightarrow> ce_hashString E a = ce_hashString E b)"

definition sorts_events :: "'tc connEnv \<Rightarrow> bool" where
  "sorts_events E \<longleftrightarrow>
     (\<forall>evs. mset (ce_sortEvents E evs) = mset evs \<and>
        sorted_wrt (\<lambda>a b. \<not> LessThan (le_Checkpoint b) (le_Checkpoint a)) (ce_sortEvents E evs))"

lemma wanted_has_topic:
  assumes "hashes_bytes E" and "wanted es g p" and "lg_Topics g \<noteq> []"
  shows "ce_hashString E (hd (lg_Topics g)) \<in> topicsOf E (filtersAt es p)"
proof -
  obtain f where f: "f \<in> set (filtersAt es p)" "filterMatches f g = Inr True"
    using assms(2) by (auto simp: wanted_def matchesSome_def)
  then have "hexEquals (hd (lg_Topics g)) (ef_Topic0 f)"
    by (auto simp: filterMatches_def Let_def split: list.splits option.splits)
  with assms(1) have "ce_hashString E (hd (lg_Topics g)) = ce_hashString E (ef_Topic0 f)"
    unfolding hashes_bytes_def by blast
  with f(1) show ?thesis by (simp add: topicsOf_def)
qed

lemma wantedKeys_indexed:
  assumes "hashes_bytes E" and "lg_Topics g \<noteq> []"
  shows "wantedKeys es (topicListeners (buildAggregatedListener E es ps)
           (ce_hashString E (hd (lg_Topics g)))) g = wantedKeys es ps g"
proof -
  have "filter (wanted es g) (topicListeners (buildAggregatedListener E es ps)
           (ce_hashString E (hd (lg_Topics g)))) = filter (wanted es g) ps"
    unfolding buildAggregatedListener_spec filter_filter
    using wanted_has_topic [OF assms(1) _ assms(2)] by (intro filter_cong) auto
  then show ?thesis by (simp add: wantedKeys_def)
qed

lemma filterEnrichSort_spec:
  assumes "hashes_bytes E" and "sorts_events E"
    and "filterEnrichSort E (buildAggregatedListener E es ps) es logs c = (Inr (Inr evs), c')"
  shows "image_mset eventKey (mset evs) = mset (concat (map (wantedKeys es ps) logs))"
    and "sorted (map le_Checkpoint evs)" and "\<forall>ev \<in> set evs. checkpointed ev"
proof -
  obtain us where us: "matchLogs E (buildAggregatedListener E es ps) es logs c = (Inr (Inr us), c')"
    "evs = ce_sortEvents E us"
    using assms(3) by (auto simp: filterEnrichSort_def split: prod.splits sum.splits)
  note m = matchLogs_spec [OF us(1)]
  have keys: "map eventKey us = concat (map (wantedKeys es ps) logs)"
    using m wantedKeys_indexed [OF assms(1)] by (auto intro!: arg_cong [where f = concat])
  have sort: "mset evs = mset us" using assms(2) us(2) by (simp add: sorts_events_def)
  then show "image_mset eventKey (mset evs) = mset (concat (map (wantedKeys es ps) logs))"
    unfolding keys [symmetric] by simp
  show "sorted (map le_Checkpoint evs)"
    using assms(2) us(2) by (simp add: sorts_events_def LessThan_less not_less sorted_wrt_map)
  show "\<forall>ev \<in> set evs. checkpointed ev" using m sort by (metis mset_eq_setD)
qed

end
