(* ===== verification/CatchupProofs.thy ===== *)
theory CatchupProofs
  imports StreamSteps EventQueryProofs
begin

text \<open>
  Catching up comes to an end. \<open>leadGroupCatchup\<close> and \<open>listenerCatchupLoop\<close> are loops that leave only
  when they are near their target, or when the context is cancelled; the interface \<open>paging\<close> says why
  such a loop returns: every pass that goes on comes strictly closer.
\<close>

section \<open>Loops that page\<close>

locale paging =
  fixes pass :: "'s \<Rightarrow> ('o \<times> 's) result"
    and loop :: "'s \<Rightarrow> ('o \<times> 's) result option"
    and again :: "'o \<Rightarrow> bool"
    and inv :: "'s \<Rightarrow> bool"
    and distance :: "'s \<Rightarrow> nat"
  assumes unfold: "loop s = (case pass s of
      Inl e \<Rightarrow> Some (Inl e)
    | Inr (r, s') \<Rightarrow> if again r then loop s' else Some (Inr (r, s')))"
    and progress: "inv s \<Longrightarrow> \<exists>r s'. pass s = Inr (r, s') \<and> (again r \<longrightarrow> inv s' \<and> distance s' < distance s)"
begin

lemma returns: "inv s \<Longrightarrow> \<exists>r s' t. inv t \<and> pass t = Inr (r, s') \<and> loop s = Some (Inr (r, s')) \<and> \<not> again r"
proof (induction "distance s" arbitrary: s rule: less_induct)
  case less
  from progress [OF less.prems] obtain r s' where
    p: "pass s = Inr (r, s')" "again r \<longrightarrow> inv s' \<and> distance s' < distance s" by blast
  show ?case
  proof (cases "again r")
    case True
    with p less.hyps [of s'] show ?thesis by (simp add: unfold [of s])
  next
    case False
    with p less.prems have "loop s = Some (Inr (r, s'))" by (simp add: unfold [of s])
    with p(1) False less.prems show ?thesis by blast
  qed
qed

end

section \<open>The two loops\<close>

partial_function (option) leadGroupCatchup ::
  "'tc connEnv \<Rightarrow> 'tc loopState \<Rightarrow> (loopOutcome \<times> 'tc loopState) result option" where
  "leadGroupCatchup E st =
     (case leadGroupCatchupPass E st of
        Inl e \<Rightarrow> Some (Inl e)
      | Inr (r, st1) \<Rightarrow> if r = LoopAgain then leadGroupCatchup E st1 else Some (Inr (r, st1)))"

text \<open>The loop of one listener: whether it exits, with the failure count and the states.\<close>

type_synonym 'tc catchupState = "int \<times> eventStream \<times> 'tc ethConnector"

definition catchupStep ::
  "'tc connEnv \<Rightarrow> nat \<Rightarrow> aggregatedListener \<Rightarrow> 'tc catchupState \<Rightarrow> (bool \<times> 'tc catchupState) result" where
  "catchupStep E p al st = (case st of (n, es, c) \<Rightarrow> listenerCatchupPass E p al n es c)"

partial_function (option) listenerCatchupLoop ::
  "'tc connEnv \<Rightarrow> nat \<Rightarrow> aggregatedListener \<Rightarrow> 'tc catchupState \<Rightarrow>
   (bool \<times> 'tc catchupState) result option" where
  "listenerCatchupLoop E p al st =
     (case catchupStep E p al st of
        Inl e \<Rightarrow> Some (Inl e)
      | Inr (exits, st1) \<Rightarrow> if \<not> exits then listenerCatchupLoop E p al st1 else Some (Inr (exits, st1)))"

section \<open>Marks after a page\<close>

lemma fold_moveHWM_hwm:
  "q < length (es_heap es) \<Longrightarrow>
     ls_hwmBlock (es_heap (fold (\<lambda>p. updListener p (moveHWMForwards b)) ps es) ! q) =
       (if q \<in> set ps then max (ls_hwmBlock (es_heap es ! q)) b else ls_hwmBlock (es_heap es ! q))"
  by (induction ps arbitrary: es) (auto simp: updListener_heap moveHWMForwards_max)

definition known_events :: "aggregatedListener \<Rightarrow> ListenerEvent list \<Rightarrow> bool" where
  "known_events ag evs \<longleftrightarrow>
     (\<forall>ev \<in> set evs. Option.bind (id_ListenerID (e_ID (le_Event ev))) (ag_listenersByID ag) \<noteq> None)"

lemma same_settings_conn [simp]: "same_settings c c' \<Longrightarrow> connector_ok c' = connector_ok c"
  by (simp add: same_settings_def connector_ok_def lightMode_def)

text \<open>The dispatch of events of known listeners does not panic.\<close>

lemma markDetectedAndDispatch_returns:
  assumes "Option.bind (id_ListenerID (e_ID (le_Event ev))) (ag_listenersByID ag) \<noteq> None"
  shows "\<exists>b es' c'. markDetectedAndDispatch E ag ev es c = (Inr b, es', c') \<and> same_settings c c'"
proof -
  obtain stable c1 where d: "detectedStable E ev c = (stable, c1)" by fastforce
  then have "same_settings c c1" by (auto simp: detectedStable_def split: if_splits)
  then have "same_settings c (c_ticked c1)" by (simp add: same_settings_def)
  with assms d show ?thesis by (auto simp: markDetectedAndDispatch_def Let_def)
qed

lemma dispatchEvents_returns:
  "known_events ag evs \<Longrightarrow>
     \<exists>b es' c'. dispatchEvents E ag evs es c = (Inr b, es', c') \<and> same_settings c c'"
proof (induction evs arbitrary: es c)
  case (Cons ev evs)
  obtain b es1 c1 where m: "markDetectedAndDispatch E ag ev es c = (Inr b, es1, c1)" "same_settings c c1"
    using Cons.prems markDetectedAndDispatch_returns [of ev ag E es c] unfolding known_events_def
    by (metis list.set_intros(1))
  have "known_events ag evs" using Cons.prems by (simp add: known_events_def)
  from Cons.IH [OF this, of es1 c1] m show ?case
    by (cases b) (auto intro: same_settings_trans)
qed auto

lemma dispatchSetHWM_returns:
  assumes "known_events ag evs"
  shows "\<exists>b es' c'. dispatchSetHWMCheckExit E ag evs h es c = (Inr b, es', c') \<and> same_settings c c' \<and>
    (\<not> b \<longrightarrow> (\<forall>q < length (es_heap es). ls_hwmBlock (es_heap es' ! q) =
       (if q \<in> set (ag_listeners ag) then max (ls_hwmBlock (es_heap es ! q)) h
        else ls_hwmBlock (es_heap es ! q))))"
proof (cases "evs = [] \<and> ce_ctxDone E (c_tick c)")
  case True
  then have "dispatchSetHWMCheckExit E ag evs h es c = (Inr True, es, c_ticked c)"
    by (simp add: dispatchSetHWMCheckExit_def)
  then show ?thesis by auto
next
  case False
  obtain b es1 c1 where d: "dispatchEvents E ag evs es c = (Inr b, es1, c1)" "same_settings c c1"
    using dispatchEvents_returns [OF assms] by blast
  have len: "length (es_heap es1) = length (es_heap es)"
    using dispatchEvents_keeps [OF d(1)] by (simp add: stream_keeps_def)
  have "ls_hwmBlock (es_heap es1 ! q) = ls_hwmBlock (es_heap es ! q)" if "q < length (es_heap es)" for q
    by (rule dispatchEvents_hwm [OF d(1) that])
  with d len show ?thesis
    by (cases b) (auto simp: dispatchSetHWMCheckExit_def False fold_moveHWM_hwm
        intro: same_settings_trans)
qed

section \<open>The earliest mark\<close>

lemma earliestHWM_fold:
  assumes "\<forall>p \<in> set ps. 0 \<le> ls_hwmBlock (es_heap es ! p)" and "0 \<le> m"
  shows "fold (\<lambda>p fromBlock. let lHWM = getHWMBlock (es_heap es ! p) in
             if fromBlock < 0 \<or> lHWM < fromBlock then lHWM else fromBlock) ps m =
    Min (insert m ((\<lambda>p. ls_hwmBlock (es_heap es ! p)) ` set ps))"
  using assms
proof (induction ps arbitrary: m)
  case (Cons p ps)
  let ?h = "\<lambda>p. ls_hwmBlock (es_heap es ! p)"
  have "min m (?h p) = Min {m, ?h p}" by simp
  then have "Min (insert (min m (?h p)) (?h ` set ps)) = Min (insert m (insert (?h p) (?h ` set ps)))"
    by (cases "ps = []") (auto simp: Min_insert min.assoc)
  moreover have "(let lHWM = getHWMBlock (es_heap es ! p) in
      if m < 0 \<or> lHWM < m then lHWM else m) = min m (?h p)"
    using Cons.prems by (auto simp: getHWMBlock_def Let_def)
  ultimately show ?case using Cons by simp
qed simp

lemma earliestHWM_Min:
  assumes "\<forall>p \<in> set ps. 0 \<le> ls_hwmBlock (es_heap es ! p)" and "ps \<noteq> []"
  shows "earliestHWM es ps = Min ((\<lambda>p. ls_hwmBlock (es_heap es ! p)) ` set ps)"
  using assms earliestHWM_fold [of "tl ps" es "ls_hwmBlock (es_heap es ! hd ps)"]
  by (cases ps) (auto simp: earliestHWM_def getHWMBlock_def Let_def)

section \<open>Queries\<close>

lemma firstMatch_same: "firstMatch E l fs g c = (r, c') \<Longrightarrow> same_settings c c'"
proof (induction fs arbitrary: c)
  case (Cons f fs)
  obtain r1 c1 where f: "ls_filterEnrichEthLog E l f g c = (r1, c1)" by fastforce
  have "same_settings c1 c'"
    using Cons.prems f Cons.IH by (auto split: sum.splits option.splits)
  with ls_filterEnrichEthLog_same [OF f] show ?case by (rule same_settings_trans)
qed simp

lemma matchListeners_same: "matchListeners E es ps g c = (r, c') \<Longrightarrow> same_settings c c'"
proof (induction ps arbitrary: c r)
  case (Cons p ps)
  obtain r1 c1 where f: "firstMatch E (es_heap es ! p) (lc_filters (ls_config (es_heap es ! p))) g c = (r1, c1)"
    by fastforce
  have "same_settings c1 c'"
    using Cons.prems f Cons.IH by (auto split: sum.splits prod.splits)
  with firstMatch_same [OF f] show ?case by (rule same_settings_trans)
qed simp

lemma matchLogs_same: "matchLogs E ag es gs c = (r, c') \<Longrightarrow> same_settings c c'"
proof (induction gs arbitrary: c r)
  case (Cons g gs)
  show ?case
  proof (cases "lg_Topics g")
    case Nil
    with Cons.prems show ?thesis by simp
  next
    case (Cons t ts)
    let ?ps = "case ag_listenersByTopic0 ag (ce_hashString E t) of None \<Rightarrow> [] | Some ps \<Rightarrow> ps"
    obtain r1 c1 where m: "matchListeners E es ?ps g c = (r1, c1)" by fastforce
    have "same_settings c1 c'"
      using Cons.prems Cons.IH Cons m by (auto split: sum.splits prod.splits)
    with matchListeners_same [OF m] show ?thesis by (rule same_settings_trans)
  qed
qed simp

lemma filterEnrichSort_same: "filterEnrichSort E ag es gs c = (r, c') \<Longrightarrow> same_settings c c'"
  by (auto simp: filterEnrichSort_def split: prod.splits sum.splits dest: matchLogs_same)

lemma getBlockRangeEvents_same:
  assumes "getBlockRangeEvents E ag es f t c = (r, c')"
  shows "same_settings c c'"
proof -
  have "same_settings (c_ticked c) c' \<Longrightarrow> same_settings c c'" by (simp add: same_settings_def)
  with assms show ?thesis
    by (auto simp: getBlockRangeEvents_def getBlockRangeLogs_def split: sum.splits
        dest: filterEnrichSort_same)
qed

text \<open>The events of a query belong to listeners of the aggregate, also when the stream has moved on
  since the aggregate was built.\<close>

lemma query_known:
  assumes "sorts_events E" and le: "stream_le es0 es" and ps: "\<forall>p \<in> set ps. p < length (es_heap es0)"
    and q: "getBlockRangeEvents E (buildAggregatedListener E es0 ps) es f t c = (Inr (Inr evs), c')"
  shows "known_events (buildAggregatedListener E es0 ps) evs"
proof -
  let ?ag = "buildAggregatedListener E es0 ps"
  obtain us c1 gs where us: "matchLogs E ?ag es gs c1 = (Inr (Inr us), c')" "evs = ce_sortEvents E us"
    using q by (auto simp: getBlockRangeEvents_def filterEnrichSort_def split: prod.splits sum.splits)
  have "set evs = set us" using assms(1) us(2) by (metis sorts_events_def mset_eq_setD)
  moreover have "Option.bind (id_ListenerID (e_ID (le_Event ev))) (ag_listenersByID ?ag) \<noteq> None"
    if "ev \<in> set us" for ev
  proof -
    have "eventKey ev \<in> set (map eventKey us)" using that by simp
    then obtain p where p: "p \<in> set ps" "id_ListenerID (e_ID (le_Event ev)) = Some (ls_id (es_heap es ! p))"
      using matchLogs_spec [OF us(1)]
      by (auto simp: wantedKeys_def eventKey_def buildAggregatedListener_spec)
    moreover have "ls_id (es_heap es ! p) = ls_id (es_heap es0 ! p)"
      using stream_le_listener [OF le] ps p(1) by (simp add: listener_le_def)
    ultimately show ?thesis
      by (simp add: buildAggregatedListener_spec(4) map_of_eq_None_iff image_image del: not_None_eq)
  qed
  ultimately show ?thesis by (simp add: known_events_def)
qed

text \<open>What is assumed of the node for the termination: the range queries of the loop succeed.\<close>

definition queries_answered :: "'tc connEnv \<Rightarrow> aggregatedListener \<Rightarrow> eventStream \<Rightarrow> bool" where
  "queries_answered E ag es \<longleftrightarrow>
     (\<forall>es' c f t. stream_keeps es es' \<longrightarrow>
        (\<exists>evs c'. getBlockRangeEvents E ag es' f t c = (Inr (Inr evs), c')))"

lemma queries_answered_keeps:
  "queries_answered E ag es \<Longrightarrow> stream_keeps es es' \<Longrightarrow> queries_answered E ag es'"
  unfolding queries_answered_def by (meson stream_keeps_trans)

definition marks_set :: "eventStream \<Rightarrow> bool" where
  "marks_set es \<longleftrightarrow>
     (\<forall>p < length (es_heap es). 0 \<le> ls_hwmBlock (es_heap es ! p) \<and> ls_hwmBlock (es_heap es ! p) < 2 ^ 63)"

section \<open>Catch-up of the lead group\<close>

definition rebuilt :: "'tc connEnv \<Rightarrow> leadLoop \<Rightarrow> eventStream \<Rightarrow> leadLoop" where
  "rebuilt E lp es = snd (rebuildAggregate E lp es)"

definition leadListeners :: "'tc connEnv \<Rightarrow> leadLoop \<Rightarrow> eventStream \<Rightarrow> nat list" where
  "leadListeners E lp es = ag_listeners (lp_ag (rebuilt E lp es))"

lemma rebuilt_again:
  "es_updateCount es' = es_updateCount es \<Longrightarrow> rebuilt E (rebuilt E lp es) es' = rebuilt E lp es"
  by (auto simp: rebuilt_def rebuildAggregate_def buildReuseLeadGroupListener_def)

lemma rebuilt_fields [simp]: "lp_failCount (rebuilt E lp es) = lp_failCount lp"
  by (auto simp: rebuilt_def rebuildAggregate_def buildReuseLeadGroupListener_def)

definition catchup_inv :: "'tc connEnv \<Rightarrow> eventStream \<Rightarrow> int64 \<Rightarrow> 'tc loopState \<Rightarrow> bool" where
  "catchup_inv E es0 H st \<longleftrightarrow>
     (case st of (lp, es, c) \<Rightarrow>
        connector_ok c \<and> lp_failCount lp = 0 \<and> marks_set es \<and>
        stream_keeps es0 es \<and> (\<forall>p \<in> set (leadGroup es0). p < length (es_heap es0)) \<and>
        lp_ag (rebuilt E lp es) = buildAggregatedListener E es0 (leadGroup es0) \<and>
        queries_answered E (lp_ag (rebuilt E lp es)) es \<and>
        sorts_events E \<and> H < 2 ^ 63 \<and> (\<forall>t h. ce_highestBlock E t = Some h \<longrightarrow> uint h \<le> H))"

text \<open>\<open>es0\<close> is the stream when the loop was entered.\<close>

definition catchup_distance :: "'tc connEnv \<Rightarrow> int64 \<Rightarrow> 'tc loopState \<Rightarrow> nat" where
  "catchup_distance E H st = (case st of (lp, es, c) \<Rightarrow> nat (H - earliestHWM es (leadListeners E lp es)))"

lemma earliestHWM_after:
  assumes "ps \<noteq> []" and "\<forall>p \<in> set ps. p < length (es_heap es) \<and> 0 \<le> ls_hwmBlock (es_heap es ! p)"
    and "\<forall>p \<in> set ps. ls_hwmBlock (es_heap es' ! p) = max (ls_hwmBlock (es_heap es ! p)) b"
  shows "max (earliestHWM es ps) b \<le> earliestHWM es' ps"
proof -
  have "earliestHWM es' ps = Min ((\<lambda>p. ls_hwmBlock (es_heap es' ! p)) ` set ps)"
    using assms by (intro earliestHWM_Min) auto
  moreover have "earliestHWM es ps = Min ((\<lambda>p. ls_hwmBlock (es_heap es ! p)) ` set ps)"
    using assms by (intro earliestHWM_Min) auto
  ultimately show ?thesis using assms by (auto intro: le_max_iff_disj [THEN iffD2])
qed

lemma earliestHWM_nonneg:
  assumes "ps \<noteq> []" and "\<forall>p \<in> set ps. 0 \<le> ls_hwmBlock (es_heap es ! p)"
  shows "0 \<le> earliestHWM es ps"
  using assms by (simp add: earliestHWM_Min)

text \<open>The arithmetic of one page: no 64-bit step wraps, and the page is not empty.\<close>

lemma page_arith:
  assumes "connector_ok c" and "0 \<le> f" "f < 2 ^ 63" and "0 \<le> P" "P < 2 ^ 63"
    and "\<not> i64 (P - f) < c_catchupThreshold c"
  defines "t \<equiv> (if pageEnd f c > P then P else pageEnd f c)"
  shows "t = f + c_catchupPageSize c - 1" "f \<le> t" "t < P" "i64 (t + 1) = t + 1"
proof -
  have ok: "1 \<le> c_catchupPageSize c" "c_catchupPageSize c \<le> c_catchupThreshold c"
    using assms(1) by (auto simp: connector_ok_def)
  have "i64 (P - f) = P - f" using assms by (intro i64_id) auto
  with assms(6) ok have b: "f + c_catchupPageSize c \<le> P" by simp
  have "i64 (f + c_catchupPageSize c) = f + c_catchupPageSize c"
    using assms b ok by (intro i64_id) auto
  moreover have "i64 (f + c_catchupPageSize c - 1) = f + c_catchupPageSize c - 1"
    using assms b ok by (intro i64_id) auto
  ultimately have e: "pageEnd f c = f + c_catchupPageSize c - 1"
    by (simp add: pageEnd_def getCatchupPageSize_def)
  with b show t: "t = f + c_catchupPageSize c - 1" by (simp add: t_def)
  show "f \<le> t" "t < P" using t b ok by auto
  show "i64 (t + 1) = t + 1" using t b ok assms by (intro i64_id) auto
qed

lemma stableThreshold_bounds:
  assumes "connector_ok c" and "0 \<le> h"
  shows "0 \<le> stableThreshold h c" "stableThreshold h c \<le> h"
  using assms i64_le [of "h - c_checkpointBlockGap c"]
  by (auto simp: stableThreshold_def Let_def connector_ok_def)

lemma loopDelay_first [simp]: "\<not> loopDelayExits E 0 c"
  by (simp add: loopDelayExits_def DoFailureDelay_def delay_exits_def)

text \<open>A page that is queried and dispatched: the marks of the lead group move to its end.\<close>

lemma catchupPage_returns:
  assumes built: "stream_keeps es0 es" "\<forall>p \<in> set ps. p < length (es_heap es0)"
      "lp_ag lp = buildAggregatedListener E es0 ps"
    and "queries_answered E (lp_ag lp) es" and "sorts_events E" and "i64 (t + 1) = t + 1"
  shows "\<exists>r lp' es' c'. catchupPage E f t (lp, es, c) = Inr (r, lp', es', c') \<and> same_settings c c' \<and>
    (r = LoopAgain \<longrightarrow> lp' = lp\<lparr>lp_failCount := 0\<rparr> \<and>
       (\<forall>q < length (es_heap es). ls_hwmBlock (es_heap es' ! q) =
         (if q \<in> set ps then max (ls_hwmBlock (es_heap es ! q)) (t + 1) else ls_hwmBlock (es_heap es ! q))))"
proof -
  obtain evs c1 where q: "getBlockRangeEvents E (lp_ag lp) es f t c = (Inr (Inr evs), c1)"
    using assms(4) unfolding queries_answered_def by blast
  have le: "stream_le es0 es" using built(1) by (simp add: stream_keeps_def)
  have "known_events (lp_ag lp) evs"
    using query_known [OF assms(5) le built(2)] q built(3) by simp
  then obtain b es1 c2 where d:
    "dispatchSetHWMCheckExit E (lp_ag lp) evs (t + 1) es c1 = (Inr b, es1, c2)" "same_settings c1 c2"
    "\<not> b \<longrightarrow> (\<forall>q < length (es_heap es). ls_hwmBlock (es_heap es1 ! q) =
       (if q \<in> set (ag_listeners (lp_ag lp)) then max (ls_hwmBlock (es_heap es ! q)) (t + 1)
        else ls_hwmBlock (es_heap es ! q)))"
    using dispatchSetHWM_returns by blast
  have "same_settings c c2"
    using getBlockRangeEvents_same [OF q] d(2) by (rule same_settings_trans)
  with q d built(3) assms(6) show ?thesis
    by (cases b) (auto simp: catchupPage_def buildAggregatedListener_spec(3))
qed

lemma leadGroupCatchupPass_cases:
  assumes "lp_failCount lp = 0" and "fitsInt64 h" and "ce_highestBlock E (Suc (c_tick c)) = Some h"
  shows "leadGroupCatchupPass E (lp, es, c) =
    (let lp1 = rebuilt E lp es; c2 = c_ticked (c_ticked c); ps = ag_listeners (lp_ag lp1);
         f = earliestHWM es ps; P = stableThreshold (uint h) c2 in
     if ps = [] \<or> i64 (P - f) < c_catchupThreshold c2 then Inr (LoopLeaves, lp1, es, c2)
     else catchupPage E f (if pageEnd f c2 > P then P else pageEnd f c2) (lp1, es, c2))"
  using assms by (simp add: leadGroupCatchupPass_def rebuilt_def Let_def)

lemma catchup_progress:
  assumes "catchup_inv E es0 H s"
  shows "\<exists>r s'. leadGroupCatchupPass E s = Inr (r, s') \<and>
    (r = LoopAgain \<longrightarrow> catchup_inv E es0 H s' \<and> catchup_distance E H s' < catchup_distance E H s)"
proof -
  obtain lp es c where s: "s = (lp, es, c)" by (cases s) auto
  let ?c = "c_ticked (c_ticked c)" and ?lp = "rebuilt E lp es"
  from assms s have ok: "connector_ok c" and fail: "lp_failCount lp = 0" and marks: "marks_set es"
    and q: "queries_answered E (lp_ag ?lp) es" and sort: "sorts_events E" and H: "H < 2 ^ 63"
    and high: "\<And>t h. ce_highestBlock E t = Some h \<Longrightarrow> uint h \<le> H"
    by (auto simp: catchup_inv_def)
  from assms s have es0: "stream_keeps es0 es" "\<forall>p \<in> set (leadGroup es0). p < length (es_heap es0)"
    "lp_ag ?lp = buildAggregatedListener E es0 (leadGroup es0)"
    by (auto simp: catchup_inv_def)
  let ?ps = "leadGroup es0"
  have ps: "ag_listeners (lp_ag ?lp) = ?ps" "leadListeners E lp es = ?ps"
    using es0(3) by (simp_all add: leadListeners_def buildAggregatedListener_spec(3))
  have len: "length (es_heap es) = length (es_heap es0)" using es0(1) by (simp add: stream_keeps_def)
  have okc: "connector_ok ?c" using ok by (simp add: connector_ok_def)
  show ?thesis
  proof (cases "ce_highestBlock E (Suc (c_tick c))")
    case None
    then show ?thesis using s fail by (simp add: leadGroupCatchupPass_def)
  next
    case (Some h)
    let ?f = "earliestHWM es ?ps" and ?P = "stableThreshold (uint h) ?c"
    let ?t = "if pageEnd ?f ?c > ?P then ?P else pageEnd ?f ?c"
    have h: "uint h \<le> H" "fitsInt64 h" using high [OF Some] H by (auto simp: fitsInt64_def maxInt64_def)
    note pass = leadGroupCatchupPass_cases [where es = es, OF fail h(2) Some, folded s, unfolded Let_def ps(1)]
    show ?thesis
    proof (cases "?ps = [] \<or> i64 (?P - ?f) < c_catchupThreshold ?c")
      case True
      then show ?thesis using pass s by auto
    next
      case False
      have psm: "\<forall>p \<in> set ?ps. p < length (es_heap es) \<and> 0 \<le> ls_hwmBlock (es_heap es ! p)"
        using es0(2) len marks by (auto simp: marks_set_def)
      have f0: "0 \<le> ?f" using False psm by (intro earliestHWM_nonneg) auto
      have fMin: "?f = Min ((\<lambda>p. ls_hwmBlock (es_heap es ! p)) ` set ?ps)"
        using False psm by (intro earliestHWM_Min) auto
      then have "?f \<in> (\<lambda>p. ls_hwmBlock (es_heap es ! p)) ` set ?ps"
        using False by (metis Min_in finite_imageI finite_set image_is_empty set_empty)
      then have f63: "?f < 2 ^ 63" using psm marks by (auto simp: marks_set_def)
      note P = stableThreshold_bounds [OF okc, of "uint h", simplified]
      have P63: "?P < 2 ^ 63" using P h(1) H by auto
      note a = page_arith [OF okc f0 f63 P(1) P63]
      have th: "\<not> i64 (?P - ?f) < c_catchupThreshold ?c" using False by blast
      note a = a [OF th]
      obtain r lp' es' c' where page: "catchupPage E ?f ?t (?lp, es, ?c) = Inr (r, lp', es', c')"
        "same_settings ?c c'"
        "r = LoopAgain \<longrightarrow> lp' = ?lp\<lparr>lp_failCount := 0\<rparr> \<and>
         (\<forall>q < length (es_heap es). ls_hwmBlock (es_heap es' ! q) =
           (if q \<in> set ?ps then max (ls_hwmBlock (es_heap es ! q)) (?t + 1) else ls_hwmBlock (es_heap es ! q)))"
        using catchupPage_returns [OF es0 q sort a(4)] by blast
      have fin: "leadGroupCatchupPass E s = Inr (r, lp', es', c')"
        using pass False page(1) by simp
      moreover have "catchup_inv E es0 H (lp', es', c') \<and>
          catchup_distance E H (lp', es', c') < catchup_distance E H s" if "r = LoopAgain"
      proof -
        note lp' = page(3) [rule_format, OF that, THEN conjunct1]
          and hwm = page(3) [rule_format, OF that, THEN conjunct2]
        have keeps: "stream_keeps es es'" using leadGroupCatchupPass_keeps fin s by blast
        have len': "length (es_heap es') = length (es_heap es)" using keeps by (simp add: stream_keeps_def)
        have "lp' = ?lp" using lp' fail by (simp add: leadLoop.equality)
        with keeps have reb: "lp_ag (rebuilt E lp' es') = lp_ag ?lp"
          by (simp add: stream_keeps_def rebuilt_again)
        have marks': "marks_set es'"
          using marks hwm len' a P63 f0 by (auto simp: marks_set_def max_def)
        have inv: "catchup_inv E es0 H (lp', es', c')"
          using okc page(2) lp' fail marks' reb es0 keeps q sort H high
          by (auto simp: catchup_inv_def intro: stream_keeps_trans queries_answered_keeps)
        have "max ?f (?t + 1) \<le> earliestHWM es' ?ps"
          using False psm hwm by (intro earliestHWM_after) auto
        moreover have "leadListeners E lp' es' = ?ps"
          using reb ps(1) by (simp add: leadListeners_def)
        ultimately have "catchup_distance E H (lp', es', c') < catchup_distance E H s"
          using a P h(1) s ps(2) by (simp add: catchup_distance_def)
        with inv show ?thesis by blast
      qed
      ultimately show ?thesis by blast
    qed
  qed
qed

interpretation lead_catchup: paging "leadGroupCatchupPass E" "leadGroupCatchup E" "\<lambda>r. r = LoopAgain"
    "catchup_inv E es0 H" "catchup_distance E H" for E es0 H
  by unfold_locales (subst leadGroupCatchup.simps, rule refl, erule catchup_progress)

lemma enterLoop_inv:
  assumes "es_ok es" and "connector_ok c" and "marks_set es" and "0 \<le> es_updateCount es"
    and "queries_answered E (buildAggregatedListener E es (leadGroup es)) es" and "sorts_events E"
    and "H < 2 ^ 63" and "\<forall>t h. ce_highestBlock E t = Some h \<longrightarrow> uint h \<le> H"
  shows "catchup_inv E es H (enterLoop, es, c)"
proof -
  have "lp_ag (rebuilt E enterLoop es) = buildAggregatedListener E es (leadGroup es)"
    using assms(4) by (simp add: rebuilt_def rebuildAggregate_def buildReuseLeadGroupListener_def enterLoop_def)
  moreover have "\<forall>p \<in> set (leadGroup es). p < length (es_heap es)"
    using assms(1) by (auto simp: leadGroup_def es_ok_def listener_at_def)
  ultimately show ?thesis using assms by (simp add: catchup_inv_def enterLoop_def)
qed

lemma leadGroupCatchup_returns:
  assumes "es_ok es" and "connector_ok c" and "marks_set es" and "0 \<le> es_updateCount es"
    and "queries_answered E (buildAggregatedListener E es (leadGroup es)) es" and "sorts_events E"
    and "H < 2 ^ 63" and "\<forall>t h. ce_highestBlock E t = Some h \<longrightarrow> uint h \<le> H"
  shows "\<exists>r lp' es' c'. leadGroupCatchup E (enterLoop, es, c) = Some (Inr (r, lp', es', c')) \<and> r \<noteq> LoopAgain \<and>
    (r = LoopLeaves \<longrightarrow> leadGroup es = [] \<or>
       (\<exists>t h. ce_highestBlock E t = Some h \<and>
          i64 (stableThreshold (uint h) c' - earliestHWM es' (leadGroup es)) < c_catchupThreshold c'))"
proof -
  from lead_catchup.returns [OF enterLoop_inv [OF assms]] obtain r s' t where
    t: "catchup_inv E es H t" "leadGroupCatchupPass E t = Inr (r, s')"
      "leadGroupCatchup E (enterLoop, es, c) = Some (Inr (r, s'))" "r \<noteq> LoopAgain"
    by blast
  obtain lp1 es1 c1 where t1: "t = (lp1, es1, c1)" by (cases t) auto
  obtain lp' es' c' where s': "s' = (lp', es', c')" by (cases s') auto
  have "leadGroup es = [] \<or> (\<exists>t h. ce_highestBlock E t = Some h \<and>
          i64 (stableThreshold (uint h) c' - earliestHWM es' (leadGroup es)) < c_catchupThreshold c')"
    if r: "r = LoopLeaves"
  proof -
    have fail: "lp_failCount lp1 = 0" and ps: "ag_listeners (lp_ag (rebuilt E lp1 es1)) = leadGroup es"
      using t(1) t1 by (auto simp: catchup_inv_def buildAggregatedListener_spec(3))
    obtain h where h: "ce_highestBlock E (Suc (c_tick c1)) = Some h"
      using t(2) t1 fail r by (cases "ce_highestBlock E (Suc (c_tick c1))") (auto simp: leadGroupCatchupPass_def)
    have fits: "fitsInt64 h" using assms(7,8) h by (fastforce simp: fitsInt64_def maxInt64_def)
    from t(2) show ?thesis
      unfolding t1 leadGroupCatchupPass_cases [OF fail fits h] Let_def ps s' using r h
      by (auto simp: catchupPage_def failPass_def split: if_splits prod.splits sum.splits bool.splits)
  qed
  with t s' show ?thesis by blast
qed

section \<open>Catch-up of one listener\<close>

lemma dispatchEvents_cancelled:
  "dispatchEvents E ag evs es c = (Inr True, es', c') \<Longrightarrow> \<exists>t. \<not> ce_eventSent E t"
proof (induction evs arbitrary: es c)
  case (Cons ev evs)
  obtain r1 es1 c1 where m: "markDetectedAndDispatch E ag ev es c = (r1, es1, c1)"
    by (metis prod_cases3)
  show ?case
  proof (cases r1)
    case (Inl e)
    with m Cons.prems show ?thesis by simp
  next
    case (Inr b)
    then show ?thesis
    proof (cases b)
      case True
      with m Inr show ?thesis
        by (auto simp: markDetectedAndDispatch_def Let_def split: prod.splits option.splits if_splits)
    next
      case False
      with m Inr Cons show ?thesis by simp
    qed
  qed
qed simp

lemma dispatchEvents_head:
  "dispatchEvents E ag evs es c = (r, es', c') \<Longrightarrow> es_headBlock es' = es_headBlock es"
proof (induction evs arbitrary: es c)
  case (Cons ev evs)
  obtain r1 es1 c1 where m: "markDetectedAndDispatch E ag ev es c = (r1, es1, c1)"
    by (metis prod_cases3)
  then have "es_headBlock es1 = es_headBlock es"
    by (auto simp: markDetectedAndDispatch_def Let_def split: prod.splits option.splits if_splits)
  with m Cons show ?case by (auto split: sum.splits bool.splits)
qed simp

definition solo_inv :: "'tc connEnv \<Rightarrow> nat \<Rightarrow> eventStream \<Rightarrow> 'tc catchupState \<Rightarrow> bool" where
  "solo_inv E p es0 st \<longleftrightarrow>
     (case st of (n, es, c) \<Rightarrow>
        n = 0 \<and> connector_ok c \<and> marks_set es \<and> stream_keeps es0 es \<and> p < length (es_heap es0) \<and>
        es_headBlock es = es_headBlock es0 \<and> 0 \<le> es_headBlock es0 \<and> es_headBlock es0 < 2 ^ 63 \<and>
        queries_answered E (buildAggregatedListener E es0 [p]) es \<and> sorts_events E)"

definition solo_distance :: "nat \<Rightarrow> 'tc catchupState \<Rightarrow> nat" where
  "solo_distance p st =
     (case st of (n, es, c) \<Rightarrow> nat (es_headBlock es - ls_hwmBlock (es_heap es ! p)))"

text \<open>What the plan of a pass is, for a listener whose mark is set and a head that is established.\<close>

lemma solo_plan:
  assumes "connector_ok c" and "0 \<le> es_headBlock es" "es_headBlock es < 2 ^ 63"
    and "0 \<le> ls_hwmBlock (es_heap es ! p)" "ls_hwmBlock (es_heap es ! p) < 2 ^ 63"
  shows "(\<exists>es'. planCatchup p es c = (CatchupExit, es') \<and>
            (es' = es \<and> ls_removed (es_heap es ! p) \<or> es' = rejoinLeadGroup p es)) \<or>
         (\<exists>t. planCatchup p es c = (CatchupScan (ls_hwmBlock (es_heap es ! p)) t, es) \<and>
            ls_hwmBlock (es_heap es ! p) \<le> t \<and> t < es_headBlock es \<and> i64 (t + 1) = t + 1)"
proof -
  let ?f = "ls_hwmBlock (es_heap es ! p)" and ?h = "es_headBlock es"
  have ok: "1 \<le> c_catchupPageSize c" "c_catchupPageSize c \<le> c_catchupThreshold c"
    using assms(1) by (auto simp: connector_ok_def)
  have gap: "i64 (?h - ?f) = ?h - ?f" using assms by (intro i64_id) auto
  show ?thesis
  proof (cases "ls_removed (es_heap es ! p) \<or> ?h - ?f < c_catchupThreshold c")
    case True
    then have "planCatchup p es c =
        (CatchupExit, if ls_removed (es_heap es ! p) then es else rejoinLeadGroup p es)"
      using assms(2) gap
      by (auto simp: planCatchup_def checkReadyForLeadPackOrRemoved_def Let_def split: bool.split)
    then show ?thesis by (cases "ls_removed (es_heap es ! p)") auto
  next
    case False
    then have b: "?f + c_catchupPageSize c \<le> ?h" using ok by simp
    have "i64 (?f + c_catchupPageSize c) = ?f + c_catchupPageSize c"
      using assms b ok by (intro i64_id) auto
    moreover have "i64 (?f + c_catchupPageSize c - 1) = ?f + c_catchupPageSize c - 1"
      using assms b ok by (intro i64_id) auto
    ultimately have e: "pageEnd ?f c = ?f + c_catchupPageSize c - 1"
      by (simp add: pageEnd_def getCatchupPageSize_def)
    have "i64 (?f + c_catchupPageSize c - 1 + 1) = ?f + c_catchupPageSize c - 1 + 1"
      using assms b ok by (intro i64_id) auto
    moreover have "planCatchup p es c = (CatchupScan ?f (?f + c_catchupPageSize c - 1), es)"
      using False assms(2) gap e b ok
      by (simp add: planCatchup_def checkReadyForLeadPackOrRemoved_def catchupCeiling_def getHWMBlock_def Let_def)
    ultimately show ?thesis using b ok by auto
  qed
qed

lemma scanCatchup_returns:
  assumes "stream_keeps es0 es" "p < length (es_heap es0)"
    and "queries_answered E (buildAggregatedListener E es0 [p]) es" and "sorts_events E"
    and "i64 (t + 1) = t + 1"
  shows "\<exists>b n' es' c'. scanCatchup E p (buildAggregatedListener E es0 [p]) f t n es c = Inr (b, n', es', c') \<and>
    same_settings c c' \<and> (b \<longrightarrow> (\<exists>k. \<not> ce_eventSent E k)) \<and>
    (\<not> b \<longrightarrow> n' = 0 \<and> es_headBlock es' = es_headBlock es \<and>
       (\<forall>q < length (es_heap es). ls_hwmBlock (es_heap es' ! q) =
         (if q = p then max (ls_hwmBlock (es_heap es ! q)) (t + 1) else ls_hwmBlock (es_heap es ! q))))"
proof -
  let ?al = "buildAggregatedListener E es0 [p]"
  obtain evs c1 where q: "getBlockRangeEvents E ?al es f t c = (Inr (Inr evs), c1)"
    using assms(1,3) unfolding queries_answered_def by blast
  have le: "stream_le es0 es" using assms(1) by (simp add: stream_keeps_def)
  have "known_events ?al evs" using query_known [OF assms(4) le _ q] assms(2) by simp
  then obtain b es1 c2 where d: "dispatchEvents E ?al evs es c1 = (Inr b, es1, c2)" "same_settings c1 c2"
    using dispatchEvents_returns by blast
  have same: "same_settings c c2"
    using getBlockRangeEvents_same [OF q] d(2) by (rule same_settings_trans)
  show ?thesis
  proof (cases b)
    case True
    with q d same dispatchEvents_cancelled show ?thesis by (fastforce simp: scanCatchup_def)
  next
    case False
    have len: "length (es_heap es1) = length (es_heap es)"
      using dispatchEvents_keeps [OF d(1)] by (simp add: stream_keeps_def)
    have "scanCatchup E p ?al f t n es c = Inr (False, 0, updListener p (moveHWMForwards (t + 1)) es1, c2)"
      using q d(1) False assms(5) by (simp add: scanCatchup_def)
    moreover have "\<forall>q < length (es_heap es). ls_hwmBlock (es_heap (updListener p (moveHWMForwards (t + 1)) es1) ! q) =
         (if q = p then max (ls_hwmBlock (es_heap es ! q)) (t + 1) else ls_hwmBlock (es_heap es ! q))"
      using dispatchEvents_hwm [OF d(1)] len by (auto simp: updListener_heap moveHWMForwards_max)
    moreover have "es_headBlock es1 = es_headBlock es" by (rule dispatchEvents_head [OF d(1)])
    ultimately show ?thesis using same by auto
  qed
qed

lemma solo_progress:
  assumes "solo_inv E p es0 s"
  shows "\<exists>b s'. catchupStep E p (buildAggregatedListener E es0 [p]) s = Inr (b, s') \<and>
    (\<not> b \<longrightarrow> solo_inv E p es0 s' \<and> solo_distance p s' < solo_distance p s)"
proof -
  let ?al = "buildAggregatedListener E es0 [p]"
  obtain n es c where s: "s = (n, es, c)" by (cases s) auto
  from assms s have n: "n = 0" and ok: "connector_ok c" and marks: "marks_set es"
    and keeps: "stream_keeps es0 es" and p: "p < length (es_heap es0)"
    and head: "es_headBlock es = es_headBlock es0" "0 \<le> es_headBlock es" "es_headBlock es < 2 ^ 63"
    and q: "queries_answered E ?al es" and sort: "sorts_events E"
    by (auto simp: solo_inv_def)
  have p': "p < length (es_heap es)" using p keeps by (simp add: stream_keeps_def)
  let ?h = "ls_hwmBlock (es_heap es ! p)"
  have h: "0 \<le> ?h" "?h < 2 ^ 63" using marks p' by (auto simp: marks_set_def)
  have okc: "connector_ok (c_ticked c)" using ok by (simp add: connector_ok_def)
  note pass = catchupStep_def [of E p ?al s, unfolded s, simplified, unfolded listenerCatchupPass_def n, simplified]
  have exit: ?thesis if "planCatchup p es (c_ticked c) = (CatchupExit, es')" for es'
    using that s n pass by (auto simp: Let_def)
  from solo_plan [OF okc head(2,3) h] show ?thesis
  proof (elim disjE exE conjE, goal_cases)
    case (3 t)
    then have pl: "planCatchup p es (c_ticked c) = (CatchupScan ?h t, es)"
      and t: "?h \<le> t" "t < es_headBlock es" "i64 (t + 1) = t + 1" by auto
    from scanCatchup_returns [OF keeps p q sort t(3)] obtain b n' es' c' where
      scan: "scanCatchup E p ?al ?h t n es (c_ticked c) = Inr (b, n', es', c')" "same_settings (c_ticked c) c'"
      "\<not> b \<longrightarrow> n' = 0 \<and> es_headBlock es' = es_headBlock es \<and>
       (\<forall>q < length (es_heap es). ls_hwmBlock (es_heap es' ! q) =
         (if q = p then max (ls_hwmBlock (es_heap es ! q)) (t + 1) else ls_hwmBlock (es_heap es ! q)))"
      by blast
    have fin: "catchupStep E p ?al s = Inr (b, n', es', c')"
      using s n pass pl scan(1) by (simp add: Let_def)
    moreover have "solo_inv E p es0 (n', es', c') \<and> solo_distance p (n', es', c') < solo_distance p s"
      if b: "\<not> b"
    proof -
      have k: "stream_keeps es es'" using scanCatchup_keeps [OF scan(1)] .
      then have len: "length (es_heap es') = length (es_heap es)" by (simp add: stream_keeps_def)
      have "marks_set es'" using scan(3) b marks len t head by (auto simp: marks_set_def max_def)
      moreover have "queries_answered E ?al es'" using q k by (rule queries_answered_keeps)
      moreover have "stream_keeps es0 es'" using keeps k by (rule stream_keeps_trans)
      ultimately show ?thesis
        using b scan(2,3) okc p p' head sort t s h by (auto simp: solo_inv_def solo_distance_def)
    qed
    ultimately show ?thesis by blast
  qed (rule exit, assumption)+
qed

interpretation solo_catchup: paging "catchupStep E p al" "listenerCatchupLoop E p al" "\<lambda>exits. \<not> exits"
    "\<lambda>s. solo_inv E p es0 s \<and> al = buildAggregatedListener E es0 [p]" "solo_distance p" for E p al es0
  by unfold_locales (subst listenerCatchupLoop.simps, rule refl, use solo_progress in blast)

lemma listenerCatchupLoop_returns:
  assumes "connector_ok c" and "marks_set es" and "p < length (es_heap es)"
    and "0 \<le> es_headBlock es" "es_headBlock es < 2 ^ 63"
    and "queries_answered E (buildAggregatedListener E es [p]) es" and "sorts_events E"
  shows "\<exists>n es' c'. listenerCatchupLoop E p (buildAggregatedListener E es [p]) (0, es, c) =
      Some (Inr (True, n, es', c')) \<and>
    (ls_removed (es_heap es' ! p) \<or> \<not> ls_catchup (es_heap es' ! p) \<or> (\<exists>t. \<not> ce_eventSent E t))"
proof -
  let ?al = "buildAggregatedListener E es [p]"
  have "solo_inv E p es (0, es, c) \<and> ?al = buildAggregatedListener E es [p]"
    using assms by (simp add: solo_inv_def)
  from solo_catchup.returns [OF this] obtain b s' t where
    t: "solo_inv E p es t" "catchupStep E p ?al t = Inr (b, s')" "b"
      "listenerCatchupLoop E p ?al (0, es, c) = Some (Inr (b, s'))"
    by blast
  obtain n es1 c1 where t1: "t = (n, es1, c1)" by (cases t) auto
  obtain n' es' c' where s': "s' = (n', es', c')" by (cases s') auto
  have n: "n = 0" and p': "p < length (es_heap es1)"
    using t(1) t1 by (auto simp: solo_inv_def stream_keeps_def)
  have okc: "connector_ok (c_ticked c1)" using t(1) t1 by (auto simp: solo_inv_def connector_ok_def)
  have head: "0 \<le> es_headBlock es1" "es_headBlock es1 < 2 ^ 63" using t(1) t1 by (auto simp: solo_inv_def)
  have h: "0 \<le> ls_hwmBlock (es_heap es1 ! p)" "ls_hwmBlock (es_heap es1 ! p) < 2 ^ 63"
    using t(1) t1 p' by (auto simp: solo_inv_def marks_set_def)
  have pass: "listenerCatchupPass E p ?al 0 es1 c1 = Inr (True, n', es', c')"
    using t(2,3) t1 s' n by (simp add: catchupStep_def)
  from solo_plan [OF okc head h] have
    "ls_removed (es_heap es' ! p) \<or> \<not> ls_catchup (es_heap es' ! p) \<or> (\<exists>t. \<not> ce_eventSent E t)"
  proof (elim disjE exE conjE)
    fix x assume "planCatchup p es1 (c_ticked c1) = (CatchupExit, x)" "x = es1" "ls_removed (es_heap es1 ! p)"
    with pass show ?thesis by (simp add: listenerCatchupPass_def Let_def)
  next
    fix x assume "planCatchup p es1 (c_ticked c1) = (CatchupExit, x)" "x = rejoinLeadGroup p es1"
    with pass p' show ?thesis
      by (auto simp: listenerCatchupPass_def Let_def rejoinLeadGroup_def updListener_def)
  next
    fix x assume "planCatchup p es1 (c_ticked c1) = (CatchupScan (ls_hwmBlock (es_heap es1 ! p)) x, es1)"
    with pass have "scanCatchup E p ?al (ls_hwmBlock (es_heap es1 ! p)) x 0 es1 (c_ticked c1) =
        Inr (True, n', es', c')"
      by (simp add: listenerCatchupPass_def Let_def)
    then show ?thesis
      by (auto simp: scanCatchup_def dest: dispatchEvents_cancelled
          split: prod.splits sum.splits bool.splits option.splits)
  qed
  with t s' show ?thesis by auto
qed

end
