(* ===== verification/ScanPositionProofs.thy ===== *)
theory ScanPositionProofs
  imports ScanPosition
begin

text \<open>
  What the poll position guarantees over a run of the steady-state loop. In full mode, every
  block of the current view behind the position was scanned while the view held that very version
  of the block, so no re-org inside the window goes unnoticed. In light mode, no version of a block is
  delivered twice.
\<close>

section \<open>Full mode\<close>

definition polled_ok :: "getLogsPollState \<Rightarrow> bool" where
  "polled_ok ps \<longleftrightarrow>
     fits_all (ps_polledChain ps) \<and> ascending (ps_polledChain ps) \<and>
     (\<forall>p \<in> set (ps_polledChain ps). num p < ps_fromBlock ps)"

lemma polled_ok_reset [simp]: "polled_ok (ps_reset f ps)"
  by (simp add: polled_ok_def ps_reset_def)

text \<open>The state after a check, without the conversions.\<close>

definition rewound :: "BlockInfoJSONRPC list \<Rightarrow> getLogsPollState \<Rightarrow> getLogsPollState" where
  "rewound hc ps =
     (if hc = [] \<or> ps_polledChain ps = [] then ps
      else let records = dropWhile (\<lambda>p. num p < num (hd hc)) (ps_polledChain ps) in
        (case dropWhile (agrees hc) records of
           [] \<Rightarrow> ps\<lparr>ps_polledChain := records\<rparr>
         | p # _ \<Rightarrow> ps\<lparr>ps_fromBlock := num p, ps_polledChain := takeWhile (agrees hc) records\<rparr>))"

lemma fits_all_dropWhile: "fits_all ps \<Longrightarrow> fits_all (dropWhile P ps)"
  by (auto simp: fits_all_def dest: set_dropWhileD)

lemma checkReorgRewind_fits:
  assumes "fits_all hc" and "fits_all (ps_polledChain ps)"
  shows "checkReorgRewind hc ps = Inr (rewound hc ps)"
proof (cases "hc = [] \<or> ps_polledChain ps = []")
  case False
  then have "fitsInt64 (bi_Number (hd hc))" using assms(1) by (simp add: fits_all_def)
  with False assms fits_all_dropWhile [OF assms(2)] show ?thesis
    by (cases "dropWhile (agrees hc) (dropWhile (\<lambda>p. num p < num (hd hc)) (ps_polledChain ps))")
       (simp_all add: checkReorgRewind_def rewound_def scan_simps Let_def del: dropWhile_eq_Nil_conv)
qed (auto simp: checkReorgRewind_def rewound_def)

lemma advance_fits:
  "fits_all hc \<Longrightarrow> advance hc t ps =
     Inr (ps\<lparr>ps_polledChain := ps_polledChain ps @
               filter (\<lambda>b. ps_fromBlock ps \<le> num b \<and> num b \<le> t) hc,
             ps_fromBlock := i64 (t + 1)\<rparr>)"
  by (simp add: advance_def scan_simps)

lemma ascending_dropWhile_less:
  "ascending ps \<Longrightarrow> p \<in> set (dropWhile (\<lambda>p. num p < n) ps) \<longleftrightarrow> p \<in> set ps \<and> n \<le> num p"
  by (induction ps) auto

lemma ascending_takeWhile_less:
  "ascending ps \<Longrightarrow> dropWhile P ps = d # ds \<Longrightarrow>
     p \<in> set (takeWhile P ps) \<longleftrightarrow> p \<in> set ps \<and> num p < num d"
proof (induction ps)
  case (Cons x ps)
  have "d \<in> set ps" if "P x"
    using that Cons.prems(2) set_dropWhileD [of d P ps] by simp
  with Cons show ?case by (cases "P x") auto
qed simp

lemma ascending_sub:
  "ascending ps \<Longrightarrow> ascending (dropWhile P ps)" "ascending ps \<Longrightarrow> ascending (takeWhile P ps)"
  "ascending ps \<Longrightarrow> ascending (filter P ps)"
  by (induction ps) (auto dest: set_takeWhileD)

lemma rewound_cases [consumes 1]:
  assumes "polled_ok ps"
  obtains (same) "hc = [] \<or> ps_polledChain ps = []" "rewound hc ps = ps"
  | (kept) "hc \<noteq> []" "rewound hc ps = ps\<lparr>ps_polledChain :=
        dropWhile (\<lambda>p. num p < num (hd hc)) (ps_polledChain ps)\<rparr>"
      "\<forall>p \<in> set (ps_polledChain (rewound hc ps)). agrees hc p"
  | (rewind) d ds where "hc \<noteq> []" "d \<in> set (ps_polledChain ps)" "\<not> agrees hc d"
      "rewound hc ps = ps\<lparr>ps_fromBlock := num d, ps_polledChain := takeWhile (agrees hc)
        (dropWhile (\<lambda>p. num p < num (hd hc)) (ps_polledChain ps))\<rparr>"
      "dropWhile (agrees hc) (dropWhile (\<lambda>p. num p < num (hd hc)) (ps_polledChain ps)) = d # ds"
proof (cases "hc = [] \<or> ps_polledChain ps = []")
  case True
  then show ?thesis using same by (simp add: rewound_def)
next
  case False
  let ?rs = "dropWhile (\<lambda>p. num p < num (hd hc)) (ps_polledChain ps)"
  show ?thesis
  proof (cases "dropWhile (agrees hc) ?rs")
    case Nil
    from False have r: "rewound hc ps = ps\<lparr>ps_polledChain := ?rs\<rparr>"
      by (simp add: rewound_def Let_def Nil)
    from Nil have "\<forall>p \<in> set ?rs. agrees hc p" by (simp add: dropWhile_eq_Nil_conv)
    with r have "\<forall>p \<in> set (ps_polledChain (rewound hc ps)). agrees hc p" by simp
    with kept False r show ?thesis by blast
  next
    case (Cons d ds)
    have "d \<in> set (dropWhile (agrees hc) ?rs)" by (simp add: Cons)
    then have "d \<in> set ?rs" by (rule set_dropWhileD)
    have "\<not> agrees hc d" using hd_dropWhile [of "agrees hc" ?rs] Cons by simp
    from \<open>d \<in> set ?rs\<close> have "d \<in> set (ps_polledChain ps)" by (blast dest: set_dropWhileD)
    moreover have "rewound hc ps = ps\<lparr>ps_fromBlock := num d,
        ps_polledChain := takeWhile (agrees hc) ?rs\<rparr>"
      using False Cons by (simp add: rewound_def)
    ultimately show ?thesis using rewind [of d ds] False Cons \<open>\<not> agrees hc d\<close> by blast
  qed
qed

text \<open>What a check does to a well-formed position.\<close>

lemma rewound_facts:
  assumes "polled_ok ps"
  shows "polled_ok (rewound hc ps)" (is ?ok)
    and "ps_fromBlock (rewound hc ps) \<le> ps_fromBlock ps" (is ?le)
    and "set (ps_polledChain (rewound hc ps)) \<subseteq> set (ps_polledChain ps)" (is ?sub)
    and "hc \<noteq> [] \<Longrightarrow> p \<in> set (ps_polledChain (rewound hc ps)) \<Longrightarrow> agrees hc p"
    and "hc \<noteq> [] \<Longrightarrow> p \<in> set (ps_polledChain ps) \<Longrightarrow> num (hd hc) \<le> num p \<Longrightarrow>
      num p < ps_fromBlock (rewound hc ps) \<Longrightarrow> p \<in> set (ps_polledChain (rewound hc ps))"
proof -
  let ?rs = "dropWhile (\<lambda>p. num p < num (hd hc)) (ps_polledChain ps)"
  have rs: "fits_all ?rs" "ascending ?rs" "\<forall>p \<in> set ?rs. num p < ps_fromBlock ps"
    using assms fits_all_dropWhile ascending_sub(1) by (auto simp: polled_ok_def dest: set_dropWhileD)
  have mem: "p \<in> set ?rs \<longleftrightarrow> p \<in> set (ps_polledChain ps) \<and> num (hd hc) \<le> num p" for p
    using assms by (intro ascending_dropWhile_less) (simp add: polled_ok_def)
  have "?ok \<and> ?le \<and> ?sub \<and>
    (\<forall>p \<in> set (ps_polledChain (rewound hc ps)). hc \<noteq> [] \<longrightarrow> agrees hc p) \<and>
    (\<forall>p \<in> set (ps_polledChain ps). hc \<noteq> [] \<longrightarrow> num (hd hc) \<le> num p \<longrightarrow>
      num p < ps_fromBlock (rewound hc ps) \<longrightarrow> p \<in> set (ps_polledChain (rewound hc ps)))"
  proof (cases rule: rewound_cases [OF assms, of hc, case_names same kept rewind])
    case same
    then show ?thesis using assms by auto
  next
    case kept
    then show ?thesis using rs mem by (auto simp: polled_ok_def)
  next
    case (rewind d ds)
    have t: "p \<in> set (takeWhile (agrees hc) ?rs) \<longleftrightarrow> p \<in> set ?rs \<and> num p < num d" for p
      by (rule ascending_takeWhile_less [OF rs(2) rewind(5)])
    have "num d < ps_fromBlock ps" using assms rewind(2) by (simp add: polled_ok_def)
    then show ?thesis using rewind(1,4) t rs mem
      by (auto simp: polled_ok_def fits_all_def ascending_sub dest: set_takeWhileD)
  qed
  then show ?ok ?le ?sub
    "hc \<noteq> [] \<Longrightarrow> p \<in> set (ps_polledChain (rewound hc ps)) \<Longrightarrow> agrees hc p"
    "hc \<noteq> [] \<Longrightarrow> p \<in> set (ps_polledChain ps) \<Longrightarrow> num (hd hc) \<le> num p \<Longrightarrow>
      num p < ps_fromBlock (rewound hc ps) \<Longrightarrow> p \<in> set (ps_polledChain (rewound hc ps))"
    by auto
qed

lemma rewound_nonneg: "polled_ok ps \<Longrightarrow> 0 \<le> ps_fromBlock ps \<Longrightarrow> 0 \<le> ps_fromBlock (rewound hc ps)"
  by (cases rule: rewound_cases [of ps hc]) auto

subsection \<open>Runs\<close>

datatype scanEvent =
    ScanPage int64 int64 "BlockInfoJSONRPC list" int64 int64
      \<comment> \<open>a page that was scanned: first and last block, the snapshot, the head, the stable head\<close>
  | ScanCheck "BlockInfoJSONRPC list" \<comment> \<open>a cycle that only checked for a re-org\<close>

inductive full_scan :: "int64 \<Rightarrow> scanEvent list \<Rightarrow> getLogsPollState \<Rightarrow> bool" for f0 where
  scan_start: "full_scan f0 [] (ps_reset f0 ps)"
| scan_check: "full_scan f0 tr ps \<Longrightarrow> checkReorgRewind hc ps = Inr ps1 \<Longrightarrow>
     full_scan f0 (tr @ [ScanCheck hc]) ps1"
| scan_page: "full_scan f0 tr ps \<Longrightarrow> checkReorgRewind hc ps = Inr ps1 \<Longrightarrow>
     ps_fromBlock ps1 \<le> t \<Longrightarrow> steadyStateScanCeiling False head stab hc = Inr ceiling \<Longrightarrow>
     t \<le> ceiling \<Longrightarrow> advance hc t ps1 = Inr ps2 \<Longrightarrow>
     full_scan f0 (tr @ [ScanPage (ps_fromBlock ps1) t hc head stab]) ps2"

text \<open>An event that scanned a block while the snapshot held this very version of it.\<close>

fun scans :: "scanEvent \<Rightarrow> BlockInfoJSONRPC \<Rightarrow> bool" where
  "scans (ScanPage f t hc head stab) p \<longleftrightarrow> f \<le> num p \<and> num p \<le> t \<and> p \<in> set hc"
| "scans (ScanCheck hc) p \<longleftrightarrow> False"

text \<open>The snapshots of a run, seen from a window that starts at \<open>w\<close>: linked lists of blocks that reach
  down to the window, with the stable threshold below it.\<close>

fun sees_window :: "int64 \<Rightarrow> scanEvent \<Rightarrow> bool" where
  "sees_window w (ScanPage f t hc head stab) \<longleftrightarrow>
     linked hc \<and> fits_all hc \<and> hc \<noteq> [] \<and> num (hd hc) \<le> w \<and> stab < w \<and> head < maxInt64"
| "sees_window w (ScanCheck hc) \<longleftrightarrow> fits_all hc \<and> hc \<noteq> [] \<and> num (hd hc) \<le> w"

lemma linked_numbers:
  assumes "linked bs" and "fits_all bs" and "bs \<noteq> []" and "num (hd bs) \<le> n" and "n \<le> num (last bs)"
  shows "\<exists>b \<in> set bs. num b = n"
  using assms
proof (induction bs)
  case (Cons b bs)
  show ?case
  proof (cases "n = num b \<or> bs = []")
    case True
    with Cons.prems show ?thesis by auto
  next
    case False
    then obtain c cs where bs: "bs = c # cs" by (cases bs) auto
    then have "num c = num b + 1"
      using Cons.prems(1,2) fitsInt64_bounds [of "bi_Number b"]
      by (auto simp: uint_word_ariths dest!: bi_IsParentOf_number)
    with Cons False bs show ?thesis by auto
  qed
qed simp

lemma ceiling_covered:
  assumes "steadyStateScanCeiling False head stab hc = Inr ceiling" and "linked hc" "fits_all hc"
    and "hc \<noteq> []" and "num (hd hc) \<le> n" and "stab < n" and "n \<le> ceiling"
  shows "n \<le> head \<and> (\<exists>b \<in> set hc. num b = n)"
proof -
  have "fitsInt64 (bi_Number (last hc))" using assms(3,4) by (simp add: fits_all_def)
  then have "ceiling = min head (max stab (num (last hc)))"
    using assms(1,4) by (auto simp: steadyStateScanCeiling_def min_def max_def split: if_splits)
  with assms(6,7) have "n \<le> num (last hc)" "n \<le> head" by auto
  with linked_numbers [OF assms(2-5)] show ?thesis by blast
qed

text \<open>Every number of the window behind the position has a record, and every record was scanned.\<close>

definition scan_inv :: "int64 \<Rightarrow> int64 \<Rightarrow> scanEvent list \<Rightarrow> getLogsPollState \<Rightarrow> bool" where
  "scan_inv f0 w tr ps \<longleftrightarrow>
     polled_ok ps \<and>
     (\<forall>n. w \<le> n \<and> f0 \<le> n \<and> n < ps_fromBlock ps \<longrightarrow> (\<exists>p \<in> set (ps_polledChain ps). num p = n)) \<and>
     (\<forall>p \<in> set (ps_polledChain ps). \<exists>e \<in> set tr. scans e p)"

lemma scan_inv_rewound:
  assumes inv: "scan_inv f0 w tr ps" and fits: "fits_all hc" and "hc \<noteq> []" "num (hd hc) \<le> w"
    and "checkReorgRewind hc ps = Inr ps1"
  shows "scan_inv f0 w (tr @ es) ps1 \<and> ps1 = rewound hc ps"
proof -
  have ok: "polled_ok ps" using inv by (simp add: scan_inv_def)
  with fits assms(5) have ps1: "ps1 = rewound hc ps"
    by (simp add: checkReorgRewind_fits polled_ok_def)
  have n: "\<exists>p \<in> set (ps_polledChain ps1). num p = n"
    if "w \<le> n" "f0 \<le> n" "n < ps_fromBlock ps1" for n
  proof -
    have "n < ps_fromBlock ps" using that(3) rewound_facts(2) [OF ok, of hc] ps1 by simp
    with inv that obtain p where p: "p \<in> set (ps_polledChain ps)" "num p = n"
      by (auto simp: scan_inv_def)
    have "p \<in> set (ps_polledChain ps1)"
      unfolding ps1 by (rule rewound_facts(5) [OF ok assms(3) p(1)]) (use p assms(4) that ps1 in auto)
    with p(2) show ?thesis by blast
  qed
  have "\<forall>p \<in> set (ps_polledChain ps1). \<exists>e \<in> set (tr @ es). scans e p"
    using inv rewound_facts(3) [OF ok, of hc] unfolding ps1 scan_inv_def set_append by blast
  with n rewound_facts(1) [OF ok, of hc] ps1 show ?thesis by (auto simp: scan_inv_def)
qed

lemma scan_inv_advance:
  assumes inv: "scan_inv f0 w tr ps" and e: "sees_window w (ScanPage (ps_fromBlock ps) t hc head stab)"
    and "ps_fromBlock ps \<le> t" and "0 \<le> ps_fromBlock ps"
    and "steadyStateScanCeiling False head stab hc = Inr ceiling" and "t \<le> ceiling"
    and "advance hc t ps = Inr ps2"
  shows "scan_inv f0 w (tr @ [ScanPage (ps_fromBlock ps) t hc head stab]) ps2"
proof -
  let ?new = "filter (\<lambda>b. ps_fromBlock ps \<le> num b \<and> num b \<le> t) hc"
  have hc: "linked hc" "fits_all hc" "hc \<noteq> []" "num (hd hc) \<le> w" "stab < w" "head < maxInt64"
    using e by simp_all
  have "ceiling \<le> head" using assms(5)
    by (auto simp: steadyStateScanCeiling_def split: sum.splits if_splits)
  then have "i64 (t + 1) = t + 1" using assms(3,4,6) hc(6)
    by (intro i64_id) (auto simp: maxInt64_def)
  with assms(7) hc(2) have ps2: "ps2 = ps\<lparr>ps_polledChain := ps_polledChain ps @ ?new, ps_fromBlock := t + 1\<rparr>"
    by (simp add: advance_fits)
  have "polled_ok ps2"
  proof -
    have "fits_all ?new" "ascending ?new"
      using hc(2) ascending_sub(3) [OF linked_ascending [OF hc(1,2)]] by (auto simp: fits_all_def)
    moreover have "\<forall>p \<in> set (ps_polledChain ps). num p < ps_fromBlock ps"
      "fits_all (ps_polledChain ps)" "ascending (ps_polledChain ps)"
      using inv by (auto simp: scan_inv_def polled_ok_def)
    ultimately show ?thesis using assms(3) ps2 by (fastforce simp: polled_ok_def ascending_append)
  qed
  moreover have "\<exists>p \<in> set (ps_polledChain ps2). num p = n"
    if "w \<le> n" "f0 \<le> n" "n < ps_fromBlock ps2" for n
  proof (cases "n < ps_fromBlock ps")
    case True
    with inv that show ?thesis by (auto simp: scan_inv_def ps2)
  next
    case False
    with that have t: "n \<le> t" by (simp add: ps2)
    have "\<exists>b \<in> set hc. num b = n"
      using ceiling_covered [OF assms(5) hc(1-3), of n] that(1) hc(4,5) t assms(6) by auto
    with False t show ?thesis by (auto simp: ps2)
  qed
  moreover have "\<exists>e \<in> set (tr @ [ScanPage (ps_fromBlock ps) t hc head stab]). scans e p"
    if "p \<in> set (ps_polledChain ps2)" for p
    using that inv ps2 by (auto simp: scan_inv_def)
  ultimately show ?thesis by (auto simp: scan_inv_def)
qed

lemma full_scan_inv:
  "full_scan f0 tr ps \<Longrightarrow> 0 \<le> f0 \<Longrightarrow> \<forall>e \<in> set tr. sees_window w e \<Longrightarrow>
     scan_inv f0 w tr ps \<and> 0 \<le> ps_fromBlock ps"
proof (induction rule: full_scan.induct)
  case (scan_start ps)
  then show ?case by (simp add: scan_inv_def ps_reset_def polled_ok_def)
next
  case (scan_check tr ps hc ps1)
  then have inv: "scan_inv f0 w tr ps" and e: "sees_window w (ScanCheck hc)"
    and nonneg: "0 \<le> ps_fromBlock ps" by auto
  from scan_inv_rewound [OF inv _ _ _ scan_check.hyps(2), of "[ScanCheck hc]"] e
  have r: "scan_inv f0 w (tr @ [ScanCheck hc]) ps1" "ps1 = rewound hc ps" by auto
  with nonneg show ?case using rewound_nonneg [of ps hc] inv by (simp add: scan_inv_def)
next
  case (scan_page tr ps hc ps1 t head stab ceiling ps2)
  let ?e = "ScanPage (ps_fromBlock ps1) t hc head stab"
  have inv: "scan_inv f0 w tr ps" and e: "sees_window w ?e" and nonneg: "0 \<le> ps_fromBlock ps"
    using scan_page by auto
  from scan_inv_rewound [OF inv _ _ _ scan_page.hyps(2), of "[]"] e
  have r: "scan_inv f0 w tr ps1" "ps1 = rewound hc ps" by auto
  then have n1: "0 \<le> ps_fromBlock ps1" using rewound_nonneg [of ps hc] inv nonneg
    by (simp add: scan_inv_def)
  have "ps_fromBlock ps2 = i64 (t + 1)" using scan_page.hyps(6) e by (auto simp: advance_fits)
  moreover have "t + 1 < 2 ^ 63"
  proof -
    have "ceiling \<le> head" using scan_page.hyps(4)
      by (auto simp: steadyStateScanCeiling_def split: sum.splits if_splits)
    with e scan_page.hyps(5) show ?thesis by (simp add: maxInt64_def)
  qed
  ultimately have "0 \<le> ps_fromBlock ps2" using n1 scan_page.hyps(3) by (simp add: i64_id)
  with scan_inv_advance [OF r(1) e scan_page.hyps(3) n1 scan_page.hyps(4-6)] show ?case by simp
qed

text \<open>A block of the current view that lies in the window, behind the position, was scanned in its
  current version.\<close>

lemma full_scan_covers_window:
  assumes "full_scan f0 tr ps" and "0 \<le> f0" and "linked hc" and "fits_all hc" and "hc \<noteq> []"
    and "num (hd hc) \<le> w" and "\<forall>e \<in> set tr. sees_window w e" and "checkReorgRewind hc ps = Inr ps'"
    and "b \<in> set hc" and "bi_Hash b \<noteq> None" and "f0 \<le> num b" and "w \<le> num b" and "num b < ps_fromBlock ps'"
  shows "\<exists>e \<in> set tr. \<exists>b'. scans e b' \<and> bi_Number b' = bi_Number b \<and> hexEquals (bi_Hash b) (bi_Hash b')"
proof -
  have inv: "scan_inv f0 w tr ps" using full_scan_inv [OF assms(1,2,7)] by simp
  from scan_inv_rewound [OF inv assms(4-6,8), of "[]"]
  have inv': "scan_inv f0 w tr ps'" and ps': "ps' = rewound hc ps" by auto
  have asc: "ascending hc" by (rule linked_ascending [OF assms(3,4)])
  from inv' assms(11-13) obtain p where p: "p \<in> set (ps_polledChain ps')" "num p = num b"
    by (auto simp: scan_inv_def)
  moreover from p inv' obtain e where "e \<in> set tr" "scans e p" by (auto simp: scan_inv_def)
  moreover have "agrees hc p"
    using rewound_facts(4) [of ps hc p] inv p(1) assms(5) ps' by (simp add: scan_inv_def)
  from agreesD [OF this assms(9) asc _ assms(10)] p(2)
  have "hexEquals (bi_Hash b) (bi_Hash p)" by simp
  ultimately show ?thesis by (auto simp: word_uint_eq_iff)
qed

text \<open>The window may start at the first block of the view.\<close>

lemma full_scan_covers_view:
  assumes "full_scan f0 tr ps" and "0 \<le> f0" and "linked hc" and "fits_all hc" and "hc \<noteq> []"
    and "\<forall>e \<in> set tr. sees_window (num (hd hc)) e" and "checkReorgRewind hc ps = Inr ps'"
    and "b \<in> set hc" and "bi_Hash b \<noteq> None" and "f0 \<le> num b" and "num b < ps_fromBlock ps'"
  shows "\<exists>e \<in> set tr. \<exists>b'. scans e b' \<and> bi_Number b' = bi_Number b \<and> hexEquals (bi_Hash b) (bi_Hash b')"
proof (rule full_scan_covers_window [OF assms(1-5) order_refl assms(6-10) _ assms(11)])
  from assms(5) obtain c cs where "hc = c # cs" by (cases hc) auto
  with linked_ascending [OF assms(3,4)] assms(8) show "num (hd hc) \<le> num b" by auto
qed

section \<open>Light mode\<close>

abbreviation version :: "LogJSONRPC \<Rightarrow> 8 word list" where
  "version l \<equiv> bytesOf (lg_BlockHash l)"

text \<open>The hash of a block identifies its number.\<close>

definition versions_bind :: "LogJSONRPC set \<Rightarrow> bool" where
  "versions_bind ls \<longleftrightarrow>
     (\<forall>l \<in> ls. \<forall>l' \<in> ls. version l = version l' \<longrightarrow> lg_BlockNumber l = lg_BlockNumber l')"

lemma versions_bindD:
  "versions_bind ls \<Longrightarrow> l \<in> ls \<Longrightarrow> l' \<in> ls \<Longrightarrow> version l = version l' \<Longrightarrow>
     lg_BlockNumber l = lg_BlockNumber l'"
  unfolding versions_bind_def by blast

lemma versions_bind_sub: "versions_bind ls \<Longrightarrow> ls' \<subseteq> ls \<Longrightarrow> versions_bind ls'"
  unfolding versions_bind_def by blast

text \<open>The sweeps of a run: the answer of the node, and what was left of it to deliver.\<close>

inductive light_scan ::
  "(LogJSONRPC list \<times> LogJSONRPC list) list \<Rightarrow> getLogsPollState \<Rightarrow> bool" where
  light_start: "light_scan [] (ps_reset f0 ps)"
| light_sweep: "light_scan tr ps \<Longrightarrow> \<forall>l \<in> set logs. ps_fromBlock ps \<le> uint (lg_BlockNumber l) \<Longrightarrow>
     ps_fromBlock ps \<le> newBase \<Longrightarrow> advanceRescan (filterDelivered ps logs) newBase ps = Inr ps' \<Longrightarrow>
     light_scan (tr @ [(logs, filterDelivered ps logs)]) ps'"

lemma filterDelivered_mem:
  "l \<in> set (filterDelivered ps logs) \<longleftrightarrow>
     l \<in> set logs \<and> map_of (ps_deliveredBlocks ps) (version l) = None"
  by (auto simp: filterDelivered_def)

lemma map_of_filter_Some: "map_of xs k = Some v \<Longrightarrow> P (k, v) \<Longrightarrow> map_of (filter P xs) k = Some v"
  by (induction xs) (auto split: if_splits)

lemma map_of_filter_dom: "map_of (filter P xs) k = Some v \<Longrightarrow> map_of xs k \<noteq> None"
  by (induction xs) (auto split: if_splits)

lemma recordDelivered_Cons:
  assumes "recordDelivered (x # ls) m = Inr m'"
  obtains m1 where "m1 = AList.update (version x) (uint (lg_BlockNumber x)) m"
    "recordDelivered ls m1 = Inr m'"
  using assms by (auto split: sum.splits)

lemma recordDelivered_old:
  "recordDelivered ls m = Inr m' \<Longrightarrow> h \<notin> version ` set ls \<Longrightarrow> map_of m' h = map_of m h"
proof (induction ls arbitrary: m)
  case (Cons x ls)
  obtain m1 where m1: "m1 = AList.update (version x) (uint (lg_BlockNumber x)) m"
    "recordDelivered ls m1 = Inr m'" by (rule recordDelivered_Cons [OF Cons.prems(1)])
  have "map_of m' h = map_of m1 h" by (rule Cons.IH [OF m1(2)]) (use Cons.prems(2) in auto)
  also have "\<dots> = map_of m h" unfolding m1(1) update_conv' using Cons.prems(2) by simp
  finally show ?case .
qed simp

lemma recordDelivered_new:
  assumes "recordDelivered ls m = Inr m'" and "versions_bind (set ls)" and "l \<in> set ls"
  shows "map_of m' (version l) = Some (uint (lg_BlockNumber l))"
  using assms
proof (induction ls arbitrary: l m)
  case (Cons x ls)
  obtain m1 where m1: "m1 = AList.update (version x) (uint (lg_BlockNumber x)) m"
    "recordDelivered ls m1 = Inr m'" by (rule recordDelivered_Cons [OF Cons.prems(1)])
  show ?case
  proof (cases "version l \<in> version ` set ls")
    case True
    then obtain l' where l': "l' \<in> set ls" "version l = version l'" by auto
    have "lg_BlockNumber l = lg_BlockNumber l'"
      by (rule versions_bindD [OF Cons.prems(2,3) _ l'(2)]) (simp add: l'(1))
    moreover have "versions_bind (set ls)" by (rule versions_bind_sub [OF Cons.prems(2)]) auto
    ultimately show ?thesis using Cons.IH [OF m1(2) _ l'(1)] l'(2) by simp
  next
    case False
    with Cons.prems(3) have "l = x" by auto
    with recordDelivered_old [OF m1(2) False] m1(1) show ?thesis by (simp add: update_conv')
  qed
qed simp

definition delivered_by :: "(LogJSONRPC list \<times> LogJSONRPC list) list \<Rightarrow> LogJSONRPC set" where
  "delivered_by tr = (\<Union>(logs, new) \<in> set tr. set new)"

lemma delivered_by_simps [simp]:
  "delivered_by [] = {}" "delivered_by (tr @ [(logs, new)]) = delivered_by tr \<union> set new"
  by (auto simp: delivered_by_def)

text \<open>The records hold what was delivered from the window on, and nothing else.\<close>

definition light_inv ::
  "(LogJSONRPC list \<times> LogJSONRPC list) list \<Rightarrow> getLogsPollState \<Rightarrow> bool" where
  "light_inv tr ps \<longleftrightarrow>
     (\<forall>l \<in> delivered_by tr. ps_fromBlock ps \<le> uint (lg_BlockNumber l) \<longrightarrow>
        map_of (ps_deliveredBlocks ps) (version l) = Some (uint (lg_BlockNumber l))) \<and>
     (\<forall>h. map_of (ps_deliveredBlocks ps) h \<noteq> None \<longrightarrow> h \<in> version ` delivered_by tr)"

definition answered :: "(LogJSONRPC list \<times> LogJSONRPC list) list \<Rightarrow> LogJSONRPC set" where
  "answered tr = (\<Union>(logs, new) \<in> set tr. set logs)"

lemma answered_simps [simp]:
  "answered [] = {}" "answered (tr @ [(logs, new)]) = answered tr \<union> set logs"
  by (auto simp: answered_def)

lemma light_scan_inv:
  "light_scan tr ps \<Longrightarrow> versions_bind (answered tr) \<Longrightarrow>
     light_inv tr ps \<and> delivered_by tr \<subseteq> answered tr"
proof (induction rule: light_scan.induct)
  case (light_start f0 ps)
  then show ?case by (simp add: light_inv_def ps_reset_def)
next
  case (light_sweep tr ps logs newBase ps')
  let ?new = "filterDelivered ps logs" and ?all = "answered tr \<union> set logs"
  have b: "versions_bind ?all" using light_sweep.prems by simp
  then have "versions_bind (answered tr)" by (rule versions_bind_sub) auto
  with light_sweep.IH have inv: "light_inv tr ps" and sub: "delivered_by tr \<subseteq> answered tr" by auto
  have new: "set ?new \<subseteq> set logs" by (auto simp: filterDelivered_mem)
  have bnew: "versions_bind (set ?new)"
    by (rule versions_bind_sub [OF b]) (use new in auto)
  obtain m where m: "recordDelivered ?new (ps_deliveredBlocks ps) = Inr m"
    and ps': "ps' = ps\<lparr>ps_fromBlock := newBase, ps_deliveredBlocks := filter (\<lambda>(h, n). \<not> n < newBase) m\<rparr>"
    using light_sweep.hyps(4) by (auto simp: advanceRescan_def split: sum.splits)
  have "map_of m (version l) = Some (uint (lg_BlockNumber l))"
    if l: "l \<in> delivered_by tr \<union> set ?new" "newBase \<le> uint (lg_BlockNumber l)" for l
  proof (cases "version l \<in> version ` set ?new")
    case True
    then obtain l' where l': "l' \<in> set ?new" "version l = version l'" by auto
    have "l \<in> ?all" "l' \<in> ?all" using l(1) l' sub new by auto
    from versions_bindD [OF b this l'(2)] have "lg_BlockNumber l = lg_BlockNumber l'" .
    with recordDelivered_new [OF m bnew l'(1)] l'(2) show ?thesis by simp
  next
    case False
    with l inv light_sweep.hyps(3) recordDelivered_old [OF m False] show ?thesis
      by (auto simp: light_inv_def)
  qed
  moreover have "h \<in> version ` (delivered_by tr \<union> set ?new)" if "map_of m h \<noteq> None" for h
  proof (cases "h \<in> version ` set ?new")
    case False
    with that recordDelivered_old [OF m False] inv have "h \<in> version ` delivered_by tr"
      unfolding light_inv_def by simp
    then show ?thesis by blast
  qed blast
  ultimately have "light_inv (tr @ [(logs, ?new)]) ps'"
    by (simp add: light_inv_def ps' map_of_filter_Some) (blast dest: map_of_filter_dom)
  with sub new show ?case by auto
qed

text \<open>One sweep against all the earlier ones.\<close>

lemma light_sweep_new:
  assumes "light_scan tr ps" and "versions_bind (answered tr \<union> set logs)"
    and "\<forall>l \<in> set logs. ps_fromBlock ps \<le> uint (lg_BlockNumber l)" and "l \<in> set logs"
  shows "l \<in> set (filterDelivered ps logs) \<longleftrightarrow> version l \<notin> version ` delivered_by tr"
proof -
  have "versions_bind (answered tr)" by (rule versions_bind_sub [OF assms(2)]) auto
  with light_scan_inv [OF assms(1)] have inv: "light_inv tr ps" and sub: "delivered_by tr \<subseteq> answered tr"
    by auto
  have "map_of (ps_deliveredBlocks ps) (version l) \<noteq> None" if d: "l' \<in> delivered_by tr" "version l = version l'" for l'
  proof -
    have "lg_BlockNumber l = lg_BlockNumber l'"
      by (rule versions_bindD [OF assms(2) _ _ d(2)]) (use assms(4) d sub in auto)
    with assms(3,4) inv d show ?thesis by (auto simp: light_inv_def)
  qed
  then have "version l \<in> version ` delivered_by tr \<longrightarrow> map_of (ps_deliveredBlocks ps) (version l) \<noteq> None"
    by blast
  moreover have "map_of (ps_deliveredBlocks ps) (version l) \<noteq> None \<longrightarrow> version l \<in> version ` delivered_by tr"
    using inv unfolding light_inv_def by simp
  ultimately show ?thesis using assms(4) by (auto simp only: filterDelivered_mem)
qed

end
