(* ===== verification/EventExamples.thy ===== *)
theory EventExamples
  imports CatchupProofs ScanPositionProofs Examples
begin

text \<open>
  Concrete inputs for the witnesses of the properties of event streams: a connector in full mode and
  one in light mode, a node at block 100 that has no logs to serve, a listener for one topic, and the
  streams and snapshots built from them.
\<close>

type_synonym exTc = "(string \<times> TxInfoJSONRPC option) list"

definition exConn :: "exTc ethConnector" where
  "exConn =
     \<lparr>c_chainTrackingMode = ChainTrackingModeFull, c_catchupPageSize = 10, c_catchupThreshold = 20,
      c_checkpointBlockGap = 5, c_eventBlockTimestamps = False,
      c_eventFilterPollingMode = FilterPollingModeClient, c_traceTXForRevertReason = False,
      c_chainID = ''1'', c_txCache = [], c_lightModeDrift = [], c_tick = 0\<rparr>"

definition exLightConn :: "exTc ethConnector" where
  "exLightConn = exConn\<lparr>c_chainTrackingMode := ChainTrackingModeLight\<rparr>"

lemma exConn_ok [simp]: "connector_ok exConn" "connector_ok exLightConn"
  by (simp_all add: connector_ok_def exConn_def exLightConn_def lightMode_def)

definition exConnEnv :: "exTc connEnv" where
  "exConnEnv =
     \<lparr>ce_hashString = (\<lambda>h. map (\<lambda>b. char_of (unat b)) (bytesOf h)),
      ce_addressString = (\<lambda>a. map (\<lambda>b. char_of (unat b)) a),
      ce_highestBlock = (\<lambda>t. Some 100), ce_headChain = (\<lambda>t. []), ce_blockByHash = (\<lambda>t h. Inr None),
      ce_netVersion = (\<lambda>t. Inr ''1''), ce_getLogs = (\<lambda>t f. Inr []), ce_newFilter = (\<lambda>t f. Inr ''f1''),
      ce_getFilterLogs = (\<lambda>t f. Inr []), ce_getFilterChanges = (\<lambda>t f. Inl ''filter not found''),
      ce_getTransactionByHash = (\<lambda>t h. Inr None), ce_txLru = exLru,
      ce_parseFilter = (\<lambda>s. Some (Some (Some ''E'', None))),
      ce_parseOptions = (\<lambda>s. Some \<lparr>lo_Methods = [], lo_Signer = False\<rparr>), ce_signatureHash = (\<lambda>e. Inr (Some [1])),
      ce_entryString = (\<lambda>e. e), ce_functionSelector = (\<lambda>e. []),
      ce_decodeEventData = (\<lambda>e ts d. Inl ''no ABI''), ce_decodeCallData = (\<lambda>e d. Inl ''no ABI''),
      ce_serialize = (\<lambda>v. Inr v), ce_sortEvents = sort_key le_Checkpoint, ce_errorText = (\<lambda>e. ''''),
      ce_downscaleRegex = None, ce_fromBlockLatest = ''latest'',
      ce_retry = \<lparr>InitialDelay = 100, MaximumDelay = 1000, scale = (\<lambda>d. 2 * d)\<rparr>,
      ce_ctxDone = (\<lambda>t. False), ce_eventSent = (\<lambda>t. True)\<rparr>"

lemma exConnEnv_hashes [simp]: "hashes_bytes exConnEnv"
  by (simp add: hashes_bytes_def exConnEnv_def hexEquals_def)

lemma exConnEnv_sorts [simp]: "sorts_events exConnEnv"
proof -
  have "sorted (map le_Checkpoint (sort_key le_Checkpoint (evs :: ListenerEvent list)))" for evs by simp
  then show ?thesis by (simp add: sorts_events_def exConnEnv_def LessThan_less not_less sorted_wrt_map)
qed

definition exFilter :: eventFilter where
  "exFilter = \<lparr>ef_Event = ''E'', ef_Address = None, ef_Topic0 = Some [1], ef_Signature = ''E''\<rparr>"

definition exListener :: "nat \<Rightarrow> int64 \<Rightarrow> bool \<Rightarrow> listener" where
  "exListener i hwm catchup =
     \<lparr>ls_id = i, ls_hwmBlock = hwm, ls_lastDetected = None,
      ls_config = \<lparr>lc_name = ''l'', lc_fromBlock = ''0'',
        lc_options = \<lparr>lo_Methods = [], lo_Signer = False\<rparr>, lc_filters = [exFilter], lc_signature = ''E''\<rparr>,
      ls_removed = False, ls_catchup = catchup, ls_catchupLoopDone = catchup\<rparr>"

text \<open>One listener in the lead group and one that catches up.\<close>

definition exStream :: eventStream where
  "exStream = \<lparr>es_listeners = [(7, 0), (8, 1)], es_heap = [exListener 7 40 False, exListener 8 3 True],
     es_updateCount = 2, es_headBlock = 90, es_catchup = False, es_events = [], es_catchupLoops = [1]\<rparr>"

lemma exStream_ok [simp]: "es_ok exStream" "marks_set exStream" "leadGroup exStream = [0]"
  by (auto simp: es_ok_def exStream_def listener_at_def loop_at_def exListener_def marks_set_def
      leadGroup_def less_Suc_eq)

lemma exConnEnv_quiet [simp]: "queries_answered exConnEnv ag es"
  by (simp add: queries_answered_def getBlockRangeEvents_def getBlockRangeLogs_def exConnEnv_def
      filterEnrichSort_def)

definition exLog :: "u64 \<Rightarrow> LogJSONRPC" where
  "exLog n = \<lparr>lg_Removed = False, lg_LogIndex = 0, lg_TransactionIndex = 0, lg_BlockNumber = n,
     lg_TransactionHash = Some [9], lg_BlockHash = Some [of_nat (unat n)], lg_BlockTimestamp = None,
     lg_Address = None, lg_Data = None, lg_Topics = [Some [1]]\<rparr>"

text \<open>A run of a new stream: the head is established, a listener from block 0 is added and started,
  and its catch-up loop plans its first page.\<close>

definition exReq :: EventListenerAddRequest where
  "exReq = \<lparr>rq_ListenerID = 8, rq_Name = ''l'', rq_FromBlock = ''0'', rq_Filters = [''f''],
     rq_Options = Some ''o'', rq_Checkpoint = None\<rparr>"

definition exJoined :: "bool \<Rightarrow> eventStream" where
  "exJoined started = \<lparr>es_listeners = [(8, 0)],
     es_heap = [(exListener 8 0 True)\<lparr>ls_catchupLoopDone := started,
       ls_config := (ls_config (exListener 8 0 True))\<lparr>lc_signature := ''*:E''\<rparr>\<rparr>],
     es_updateCount = 0, es_headBlock = 95, es_catchup = True, es_events = [],
     es_catchupLoops = (if started then [0] else [])\<rparr>"

definition exWorld :: "eventStream \<Rightarrow> (nat \<rightharpoonup> int64 \<times> int64) \<Rightarrow> exTc streamWorld" where
  "exWorld es pending = (newWorld exConn)\<lparr>w_started := True, w_es := es, w_conn := c_ticked exConn,
     w_pending := pending\<rparr>"

lemma exWorld_simps [simp]:
  "w_started (exWorld es q)" "w_es (exWorld es q) = es" "w_pending (exWorld es q) = q"
  "w_conn (exWorld es q) = c_ticked exConn"
  "(exWorld es q)\<lparr>w_es := es'\<rparr> = exWorld es' q"
  "(exWorld es q)\<lparr>w_conn := c_ticked exConn\<rparr> = exWorld es q"
  "(exWorld es q)\<lparr>w_pending := q'\<rparr> = exWorld es q'"
  by (simp_all add: exWorld_def newWorld_def)

lemma ex_pre_start:
  "stream_step exConnEnv (newWorld exConn)
     (exWorld (newStream\<lparr>es_headBlock := 95, es_catchup := True\<rparr>) Map.empty)"
proof -
  have "preStartProcessing exConnEnv newStream exConn = (Inr (newStream\<lparr>es_headBlock := 95\<rparr>), c_ticked exConn)"
    by (simp add: preStartProcessing_def exConnEnv_def exConn_def newStream_def maxHWM_def Let_def
        fitsInt64_def maxInt64_def i64_def)
  from stream_step.pre_start [of "newWorld exConn" exConnEnv, simplified newWorld_def, simplified, OF this]
  show ?thesis by (simp add: exWorld_def newWorld_def)
qed

lemma ex_add:
  "stream_step exConnEnv (exWorld (newStream\<lparr>es_headBlock := 95, es_catchup := True\<rparr>) Map.empty)
     (exWorld (exJoined False) Map.empty)"
proof -
  have zero: "showNat 0 = ''0''" by (simp add: showNat_small digitChar_zero)
  have "bigSetString ''0'' = Some 0" using bigSetString_showNat [of 0] unfolding zero by simp
  then have "addEventListener exConnEnv exReq (newStream\<lparr>es_headBlock := 95, es_catchup := True\<rparr>) (c_ticked exConn) =
      (Inr (Inr 0), exJoined False, c_ticked exConn)"
    by (simp add: addEventListener_def exReq_def newListener_def parseEventFilters_def parseEventFilter_def
        exConnEnv_def parseListenerOptions_def ensureHWM_def getInitialBlock_def bigUint64_def newStream_def
        exJoined_def exListener_def exFilter_def fitsInt64_def maxInt64_def)
  with stream_step.add [of exConnEnv exReq "exWorld (newStream\<lparr>es_headBlock := 95, es_catchup := True\<rparr>) Map.empty"
      "Inr 0" "exJoined False" "c_ticked exConn"]
  show ?thesis by simp
qed

lemma ex_start:
  "stream_step exConnEnv (exWorld (exJoined False) Map.empty) (exWorld (exJoined True) Map.empty)"
proof -
  have "startEventListener 0 (c_ticked exConn) (exJoined False) = exJoined True"
    by (simp add: startEventListener_def exJoined_def exListener_def checkReadyForLeadPackOrRemoved_def
        exConn_def i64_def updListener_def)
  moreover have "0 \<in> snd ` set (es_listeners (exJoined False))" by (simp add: exJoined_def)
  ultimately show ?thesis
    using stream_step.start [of 0 "exWorld (exJoined False) Map.empty" exConnEnv] by simp
qed

lemma ex_plan:
  "stream_step exConnEnv (exWorld (exJoined True) Map.empty) (exWorld (exJoined True) [0 \<mapsto> (0, 9)])"
proof -
  have "planCatchup 0 (exJoined True) (c_ticked exConn) = (CatchupScan 0 9, exJoined True)"
    by (simp add: planCatchup_def exJoined_def exListener_def checkReadyForLeadPackOrRemoved_def
        catchupCeiling_def getHWMBlock_def pageEnd_def getCatchupPageSize_def exConn_def i64_def)
  moreover have "0 \<in> set (es_catchupLoops (exJoined True))" by (simp add: exJoined_def)
  ultimately show ?thesis
    using stream_step.plan [of 0 "exWorld (exJoined True) Map.empty" "CatchupScan 0 9" "exJoined True" exConnEnv]
    by (simp add: planned_def endLoop_def)
qed

lemma ex_run: "stream_run exConnEnv (newWorld exConn) (exWorld (exJoined True) [0 \<mapsto> (0, 9)])"
  using ex_pre_start ex_add ex_start ex_plan
  by (meson converse_rtranclp_into_rtranclp rtranclp.rtrancl_refl)

end
