(* ===== verification/StreamProperties.thy ===== *)
theory StreamProperties
  imports EventExamples
begin

text \<open>
  The properties of event streams and of their loops, with the inputs on which they are applied.
\<close>

section \<open>Interleavings\<close>

text \<open>C16. Nothing in an event stream moves backwards. However the stream loop, the catch-up loops and
  the calls that add, start and remove listeners interleave, the references of the stream stay valid,
  no listener id is used twice and no listener has two catch-up loops; the high water marks, the
  last detected checkpoints and the head block never regress, and events are only appended.\<close>

theorem stream_moves_forwards:
  assumes "stream_run E w w'" and "world_ok w"
  shows "es_ok (w_es w') \<and> stream_le (w_es w) (w_es w')"
  using stream_run_ok [OF assms] by (simp add: world_ok_def)

theorem stream_moves_forwards_witness:
  "es_ok (w_es (exWorld (exJoined True) [0 \<mapsto> (0, 9)])) \<and>
   stream_le newStream (w_es (exWorld (exJoined True) [0 \<mapsto> (0, 9)]))"
  using stream_moves_forwards [OF ex_run newWorld_ok] by (simp add: newWorld_def)

text \<open>C17. A listener that catches up never overtakes the lead group. The page that a catch-up loop is
  scanning ends below the head of the stream, also when the lead group has moved on since it was
  planned, so that its delivery takes the mark of the listener at most up to the head, and leaves
  the marks of all other listeners alone.\<close>

theorem catchup_stays_below_head:
  assumes "stream_run E (newWorld c) w" and "w_pending w p = Some (f, t)"
    and "scanCatchup E p al f t n (w_es w) (w_conn w) = Inr (exits, n', es', c')"
  shows "f \<le> t \<and> t < es_headBlock (w_es w) \<and>
    (\<forall>q < length (es_heap (w_es w)).
       ls_hwmBlock (es_heap es' ! q) \<le>
         (if q = p then max (ls_hwmBlock (es_heap (w_es w) ! q)) (es_headBlock (w_es w))
          else ls_hwmBlock (es_heap (w_es w) ! q)))"
proof -
  have "page_ok (w_es w) p (f, t)"
    using stream_run_ok [OF assms(1) newWorld_ok] assms(2) world_page by blast
  then have t: "f \<le> t" "t < es_headBlock (w_es w)" "- (2 ^ 63) \<le> t" by (simp_all add: page_ok_def)
  then have "i64 (t + 1) \<le> es_headBlock (w_es w)" using i64_le [of "t + 1"] by simp
  with t scanCatchup_hwm [OF assms(3)] show ?thesis by fastforce
qed

theorem catchup_stays_below_head_witness:
  "\<exists>es' c'. scanCatchup exConnEnv 0 (buildAggregatedListener exConnEnv (exJoined True) [0]) 0 9 0
      (exJoined True) (c_ticked exConn) = Inr (False, 0, es', c') \<and>
    ls_hwmBlock (es_heap es' ! 0) = 10 \<and> ls_hwmBlock (es_heap es' ! 0) \<le> 95"
proof -
  let ?al = "buildAggregatedListener exConnEnv (exJoined True) [0]"
  obtain c' where q: "getBlockRangeEvents exConnEnv ?al (exJoined True) 0 9 (c_ticked exConn) = (Inr (Inr []), c')"
    by (simp add: getBlockRangeEvents_def getBlockRangeLogs_def exConnEnv_def filterEnrichSort_def)
  have s: "scanCatchup exConnEnv 0 ?al 0 9 0 (exJoined True) (c_ticked exConn) =
      Inr (False, 0, updListener 0 (moveHWMForwards 10) (exJoined True), c')"
    using q by (simp add: scanCatchup_def i64_def)
  let ?w = "exWorld (exJoined True) [0 \<mapsto> (0, 9)]"
  have "scanCatchup exConnEnv 0 ?al 0 9 0 (w_es ?w) (w_conn ?w) =
      Inr (False, 0, updListener 0 (moveHWMForwards 10) (exJoined True), c')"
    using s by simp
  from catchup_stays_below_head [OF ex_run _ this]
  have "\<forall>q < 1. ls_hwmBlock (es_heap (updListener 0 (moveHWMForwards 10) (exJoined True)) ! q) \<le> 95"
    by (simp add: exJoined_def exListener_def)
  moreover have "ls_hwmBlock (es_heap (updListener 0 (moveHWMForwards 10) (exJoined True)) ! 0) = 10"
    by (simp add: exJoined_def exListener_def updListener_def moveHWMForwards_def)
  ultimately show ?thesis using s by auto
qed

section \<open>Catch-up\<close>

text \<open>C18. The catch-up of the lead group comes to an end. When the range queries succeed and the chain
  does not grow without bound, the loop returns; and if it leaves for the steady state, the group is
  empty or its earliest mark is within the catch-up threshold of the stable part of the chain.\<close>

theorem lead_group_catchup_returns:
  assumes "es_ok es" and "connector_ok c" and "marks_set es" and "0 \<le> es_updateCount es"
    and "queries_answered E (buildAggregatedListener E es (leadGroup es)) es" and "sorts_events E"
    and "H < 2 ^ 63" and "\<forall>t h. ce_highestBlock E t = Some h \<longrightarrow> uint h \<le> H"
  shows "\<exists>r lp' es' c'. leadGroupCatchup E (enterLoop, es, c) = Some (Inr (r, lp', es', c')) \<and> r \<noteq> LoopAgain \<and>
    (r = LoopLeaves \<longrightarrow> leadGroup es = [] \<or>
       (\<exists>t h. ce_highestBlock E t = Some h \<and>
          i64 (stableThreshold (uint h) c' - earliestHWM es' (leadGroup es)) < c_catchupThreshold c'))"
  by (rule leadGroupCatchup_returns [OF assms])

theorem lead_group_catchup_returns_witness:
  "\<exists>r s'. leadGroupCatchup exConnEnv (enterLoop, exStream, exConn) = Some (Inr (r, s')) \<and> r \<noteq> LoopAgain"
proof -
  have "0 \<le> es_updateCount exStream" by (simp add: exStream_def)
  moreover have "\<forall>t h. ce_highestBlock exConnEnv t = Some h \<longrightarrow> uint h \<le> 100"
    by (simp add: exConnEnv_def)
  ultimately show ?thesis
    using lead_group_catchup_returns [of exStream exConn exConnEnv 100] by auto
qed

text \<open>C19. The catch-up loop of a listener comes to an end. When its range queries succeed, it pages up
  to the head of the stream in finitely many passes, and then the listener has joined the lead group,
  unless it was removed or the stream was cancelled while an event was waiting to be sent.\<close>

theorem listener_catchup_returns:
  assumes "connector_ok c" and "marks_set es" and "p < length (es_heap es)"
    and "0 \<le> es_headBlock es" "es_headBlock es < 2 ^ 63"
    and "queries_answered E (buildAggregatedListener E es [p]) es" and "sorts_events E"
  shows "\<exists>n es' c'. listenerCatchupLoop E p (buildAggregatedListener E es [p]) (0, es, c) =
      Some (Inr (True, n, es', c')) \<and>
    (ls_removed (es_heap es' ! p) \<or> \<not> ls_catchup (es_heap es' ! p) \<or> (\<exists>t. \<not> ce_eventSent E t))"
  by (rule listenerCatchupLoop_returns [OF assms])

theorem listener_catchup_returns_witness:
  "\<exists>n es' c'. listenerCatchupLoop exConnEnv 1 (buildAggregatedListener exConnEnv exStream [1]) (0, exStream, exConn) =
      Some (Inr (True, n, es', c')) \<and> (ls_removed (es_heap es' ! 1) \<or> \<not> ls_catchup (es_heap es' ! 1))"
proof -
  have "1 < length (es_heap exStream)" "0 \<le> es_headBlock exStream" "es_headBlock exStream < 2 ^ 63"
    by (simp_all add: exStream_def)
  moreover have "ce_eventSent exConnEnv t" for t by (simp add: exConnEnv_def)
  ultimately show ?thesis using listener_catchup_returns [of exConn exStream 1 exConnEnv] by auto
qed

text \<open>C20. A query delivers exactly what the filters ask for. If a batch of logs is filtered, enriched
  and sorted without an error, through the aggregated listener with its index of first topics, then
  the events are exactly one per log and listener of the group such that the log lies at or above
  the high water mark of the listener and one of its filters matches the log; they are in the order
  of their checkpoints, which are the numbers of their logs.\<close>

theorem query_delivers_what_is_wanted:
  assumes "hashes_bytes E" and "sorts_events E"
    and "filterEnrichSort E (buildAggregatedListener E es ps) es logs c = (Inr (Inr evs), c')"
  shows "image_mset eventKey (mset evs) = mset (concat (map (wantedKeys es ps) logs)) \<and>
    sorted (map le_Checkpoint evs) \<and> (\<forall>ev \<in> set evs. checkpointed ev)"
  using filterEnrichSort_spec [OF assms] by blast

theorem query_delivers_what_is_wanted_witness:
  "\<exists>evs c'. filterEnrichSort exConnEnv (buildAggregatedListener exConnEnv exStream [0, 1]) exStream
      [exLog 50, exLog 30] exConn = (Inr (Inr evs), c') \<and>
    image_mset eventKey (mset evs) = {# (exLog 50, Some 7), (exLog 50, Some 8), (exLog 30, Some 8) #} \<and>
    sorted (map le_Checkpoint evs)"
proof -
  have "\<exists>evs c'. filterEnrichSort exConnEnv (buildAggregatedListener exConnEnv exStream [0, 1]) exStream
      [exLog 50, exLog 30] exConn = (Inr (Inr evs), c')"
    by (simp add: filterEnrichSort_def buildAggregatedListener_def addToAggregate_def exStream_def
        exListener_def exFilter_def exLog_def exConnEnv_def exConn_def ls_filterEnrichEthLog_def
        ee_filterEnrichEthLog_def logNumbers_def trimUint64_def maxInt64_def filterMatches_def
        decodeLogData_def enrichMatched_def ensureChainID_def eventTimestamp_def enrichTransaction_def
        Let_def)
  then obtain evs c' where f: "filterEnrichSort exConnEnv (buildAggregatedListener exConnEnv exStream [0, 1])
      exStream [exLog 50, exLog 30] exConn = (Inr (Inr evs), c')" by blast
  have "wantedKeys exStream [0, 1] (exLog 50) = [(exLog 50, Some 7), (exLog 50, Some 8)]"
    "wantedKeys exStream [0, 1] (exLog 30) = [(exLog 30, Some 8)]"
    by (simp_all add: wantedKeys_def wanted_def matchesSome_def filtersAt_def exStream_def exListener_def
        exFilter_def exLog_def filterMatches_def Let_def)
  with query_delivers_what_is_wanted [OF exConnEnv_hashes exConnEnv_sorts f] f show ?thesis
    by (auto simp: add.commute)
qed

end
