(* ===== verification/PollRefinement.thy ===== *)
theory PollRefinement
  imports CatchupProofs ScanPositionProofs
begin

text \<open>
  The steady state as the loops run it, against its specifications: a pass of the getLogs loop in
  full mode is a step of \<open>full_scan\<close>, and the marks that a pass of either loop sets are at most
  the stable threshold of the head that it read.
\<close>

section \<open>The getLogs loop refines the scan\<close>

text \<open>The poll position that a pass starts from: kept, or reset when the listeners changed.\<close>

definition pollStart :: "'tc connEnv \<Rightarrow> leadLoop \<Rightarrow> eventStream \<Rightarrow> getLogsPollState" where
  "pollStart E lp es =
     (case rebuildAggregate E lp es of
        (changed, lp1) \<Rightarrow>
          if ps_fromBlock (lp_poll lp) < 0 \<or> changed
          then ps_reset (earliestHWM es (ag_listeners (lp_ag lp1))) (lp_poll lp) else lp_poll lp)"

lemma rebuildAggregate_poll [simp]: "lp_poll (snd (rebuildAggregate E lp es)) = lp_poll lp"
  by (simp add: rebuildAggregate_def split: prod.split)

lemma rebuildAggregate_polls: "rebuildAggregate E lp es = (b, lp1) \<Longrightarrow> lp_poll lp1 = lp_poll lp"
  by (metis rebuildAggregate_poll snd_conv)

text \<open>An event of a pass that read the head at tick \<open>t\<close>, and the snapshot at the next one.\<close>

definition stableOf :: "int64 \<Rightarrow> int64 \<Rightarrow> int64" where
  "stableOf gap head = (let s = i64 (head - gap) in if s < 0 then 0 else s)"

fun readBy :: "'tc connEnv \<Rightarrow> int64 \<Rightarrow> nat \<Rightarrow> scanEvent \<Rightarrow> bool" where
  "readBy E gap t (ScanPage f to hc head stab) \<longleftrightarrow>
     hc = ce_headChain E (Suc t) \<and> stab = stableOf gap head \<and>
     (\<exists>h. ce_highestBlock E t = Some h \<and> uint h = head)"
| "readBy E gap t (ScanCheck hc) \<longleftrightarrow> hc = ce_headChain E (Suc t) \<and> ce_highestBlock E t \<noteq> None"

lemma getLogsDeliver_scan:
  assumes "full_scan f0 tr ps" and "checkReorgRewind hc ps = Inr (lp_poll lp)"
    and "ps_fromBlock (lp_poll lp) \<le> t" and "steadyStateScanCeiling False head stab hc = Inr ceiling"
    and "t \<le> ceiling" and "\<not> lightMode c"
    and "getLogsDeliver E hc stab t caughtUp logs (lp, es, c) = Inr (r, lp', es', c')"
  shows "\<exists>e \<in> {ScanCheck hc, ScanPage (ps_fromBlock (lp_poll lp)) t hc head stab}.
    full_scan f0 (tr @ [e]) (lp_poll lp')"
proof -
  have "lp_poll lp' = lp_poll lp \<or> advance hc t (lp_poll lp) = Inr (lp_poll lp')"
    using assms(6,7)
    by (auto simp: getLogsDeliver_def failPass_def endPass_def Let_def
        split: prod.splits sum.splits bool.splits if_splits)
  then show ?thesis
    using full_scan.scan_check [OF assms(1,2)] full_scan.scan_page [OF assms(1-5)] by auto
qed

lemma getLogsScan_scan:
  assumes "full_scan f0 tr (lp_poll lp)" and "\<not> lightMode c"
    and "getLogsScan E head (lp, es, c) = Inr (r, lp', es', c')"
    and "ce_highestBlock E t = Some h" "uint h = head" "c_tick c = Suc t"
  shows "full_scan f0 tr (lp_poll lp') \<or>
    (\<exists>e. readBy E (c_checkpointBlockGap c) t e \<and> full_scan f0 (tr @ [e]) (lp_poll lp'))"
proof -
  let ?stab = "stableThreshold head c" and ?hc = "ce_headChain E (c_tick c)"
  show ?thesis
  proof (cases "i64 (?stab - ps_fromBlock (lp_poll lp)) > c_catchupThreshold c")
    case True
    with assms show ?thesis by (simp add: getLogsScan_def)
  next
    case False
    then obtain ps ceiling where ps: "checkReorgRewind ?hc (lp_poll lp) = Inr ps"
      "steadyStateScanCeiling False head ?stab ?hc = Inr ceiling"
      using assms(2,3) by (auto simp: getLogsScan_def Let_def split: sum.splits)
    let ?last = "pageEnd (ps_fromBlock ps) c" and ?lp = "lp\<lparr>lp_poll := ps\<rparr>"
    let ?t = "if ceiling > ?last then ?last else ceiling"
    note chk = full_scan.scan_check [OF assms(1) ps(1)]
    have read: "readBy E (c_checkpointBlockGap c) t (ScanCheck ?hc)"
      "readBy E (c_checkpointBlockGap c) t (ScanPage f to ?hc head ?stab)" for f to
      using assms(4-6) by (simp_all add: stableOf_def stableThreshold_def)
    have pe: "pageEnd (ps_fromBlock ps) (c_ticked c) = ?last" by (simp add: pageEnd_def getCatchupPageSize_def)
    show ?thesis
    proof (cases "?t \<ge> ps_fromBlock ps")
      case True
      have page: "getLogsPage E ?hc ?stab (ps_fromBlock ps) ?t (\<not> ceiling > ?last) (?lp, es, c_ticked c) =
          Inr (r, lp', es', c')"
        using assms(2,3) False ps True by (simp add: getLogsScan_def Let_def split: if_splits)
      show ?thesis
      proof (cases "getBlockRangeLogs E (lp_ag ?lp) es (ps_fromBlock ps) ?t (c_ticked c)")
        case (Pair ans c1)
        then have l1: "\<not> lightMode c1" using assms(2) by (auto simp: getBlockRangeLogs_def split: sum.splits)
        show ?thesis
        proof (cases ans)
          case (Inl e)
          with page Pair l1 have "lp_poll lp' = ps"
            by (auto simp: getLogsPage_def rangeQueryFailed_def failPass_def)
          with chk read(1) show ?thesis by metis
        next
          case (Inr logs)
          with page Pair have d: "getLogsDeliver E ?hc ?stab ?t (\<not> ceiling > ?last) logs (?lp, es, c1) =
              Inr (r, lp', es', c')"
            by (simp add: getLogsPage_def)
          have "?t \<le> ceiling" by simp
          have p1: "checkReorgRewind ?hc (lp_poll lp) = Inr (lp_poll ?lp)" using ps(1) by simp
          have p2: "ps_fromBlock (lp_poll ?lp) \<le> ?t" using True by simp
          from getLogsDeliver_scan [OF assms(1) p1 p2 ps(2) \<open>?t \<le> ceiling\<close> l1 d] read
          show ?thesis by blast
        qed
      qed
    next
      case no: False
      then have "lp_poll lp' = ps"
        using assms(2,3) False ps by (auto simp: getLogsScan_def Let_def endPass_def split: if_splits)
      with chk read(1) show ?thesis by metis
    qed
  qed
qed

text \<open>A pass either leaves the poll position and the stream alone, or is a scan from \<open>pollStart\<close> with
  the head that it read.\<close>

lemma getLogsPass_runs:
  assumes "leadGroupSteadyStateGetLogsPass E (lp, es, c) = Inr (r, lp', es', c')"
  shows "lp_poll lp' = lp_poll lp \<and> es' = es \<or>
    (\<exists>h lp0. ce_highestBlock E (Suc (c_tick c)) = Some h \<and> fitsInt64 h \<and> lp_poll lp0 = pollStart E lp es \<and>
       getLogsScan E (uint h) (lp0, es, c_ticked (c_ticked c)) = Inr (r, lp', es', c'))"
proof -
  obtain changed lp1 where reb: "rebuildAggregate E lp es = (changed, lp1)" by fastforce
  note poll1 = rebuildAggregate_polls [OF reb]
  show ?thesis
  proof (cases "loopDelayExits E (lp_failCount lp) c \<or> ag_signatureSet (lp_ag lp1) = [] \<or>
      ce_highestBlock E (Suc (c_tick c)) = None")
    case True
    with assms reb poll1 show ?thesis
      by (auto simp: leadGroupSteadyStateGetLogsPass_def endPass_def Let_def split: if_splits)
  next
    case False
    then obtain h where h: "ce_highestBlock E (Suc (c_tick c)) = Some h" by auto
    let ?lp = "if ps_fromBlock (lp_poll lp1) < 0 \<or> changed
         then lp1\<lparr>lp_poll := ps_reset (earliestHWM es (ag_listeners (lp_ag lp1))) (lp_poll lp1)\<rparr>
         else lp1"
    have "lp_poll ?lp = pollStart E lp es" using reb poll1 by (auto simp: pollStart_def)
    moreover have "fitsInt64 h \<and> getLogsScan E (uint h) (?lp, es, c_ticked (c_ticked c)) = Inr (r, lp', es', c')"
      using assms reb False h by (auto simp: leadGroupSteadyStateGetLogsPass_def Let_def split: sum.splits)
    ultimately show ?thesis using h by blast
  qed
qed

lemma getLogsPass_scan:
  assumes "full_scan f0 tr (pollStart E lp es)" and "\<not> lightMode c"
    and "leadGroupSteadyStateGetLogsPass E (lp, es, c) = Inr (r, lp', es', c')"
  shows "lp_poll lp' = lp_poll lp \<or> full_scan f0 tr (lp_poll lp') \<or>
    (\<exists>e. readBy E (c_checkpointBlockGap c) (Suc (c_tick c)) e \<and> full_scan f0 (tr @ [e]) (lp_poll lp'))"
  using getLogsPass_runs [OF assms(3)]
proof (elim disjE exE conjE)
  fix h lp0
  assume h: "ce_highestBlock E (Suc (c_tick c)) = Some h" and lp0: "lp_poll lp0 = pollStart E lp es"
    and run: "getLogsScan E (uint h) (lp0, es, c_ticked (c_ticked c)) = Inr (r, lp', es', c')"
  from getLogsScan_scan [OF _ _ run h refl] assms(1,2) lp0 show ?thesis by simp
qed simp

section \<open>Marks stay at the stable threshold\<close>

lemma dispatchSetHWM_hwm:
  assumes "dispatchSetHWMCheckExit E ag evs b es c = (r, es', c')" and "q < length (es_heap es)"
  shows "ls_hwmBlock (es_heap es' ! q) \<le> max (ls_hwmBlock (es_heap es ! q)) b"
proof (cases "evs = [] \<and> ce_ctxDone E (c_tick c)")
  case True
  with assms(1) show ?thesis by (simp add: dispatchSetHWMCheckExit_def)
next
  case False
  obtain r1 es1 c1 where d: "dispatchEvents E ag evs es c = (r1, es1, c1)" by (metis prod_cases3)
  have "ls_hwmBlock (es_heap es1 ! q) = ls_hwmBlock (es_heap es ! q)" by (rule dispatchEvents_hwm [OF d assms(2)])
  moreover have "q < length (es_heap es1)"
    using dispatchEvents_keeps [OF d] assms(2) by (simp add: stream_keeps_def)
  ultimately show ?thesis
    using assms(1) False d
    by (auto simp: dispatchSetHWMCheckExit_def fold_moveHWM_hwm split: sum.splits bool.splits)
qed

text \<open>The marks of the listeners, and the head of the stream, go up to \<open>b\<close> at most.\<close>

definition raised_to :: "int64 \<Rightarrow> eventStream \<Rightarrow> eventStream \<Rightarrow> bool" where
  "raised_to b es es' \<longleftrightarrow>
     (\<forall>q < length (es_heap es). ls_hwmBlock (es_heap es' ! q) \<le> max (ls_hwmBlock (es_heap es ! q)) b) \<and>
     es_headBlock es' \<le> max (es_headBlock es) b"

lemma raised_to_refl [simp]: "raised_to b es es"
  by (simp add: raised_to_def)

lemma raised_to_mono: "raised_to a es es' \<Longrightarrow> a \<le> b \<Longrightarrow> raised_to b es es'"
  unfolding raised_to_def by (meson max.mono order_refl order_trans)

lemma raised_to_head: "raised_to b es es' \<Longrightarrow> a \<le> b \<Longrightarrow> raised_to b es (storeHeadBlockForward a es')"
  by (auto simp: raised_to_def)

lemma dispatchSetHWM_head:
  assumes "dispatchSetHWMCheckExit E ag evs b es c = (r, es', c')"
  shows "es_headBlock es' = es_headBlock es"
proof -
  have "es_headBlock (fold (\<lambda>p. updListener p (moveHWMForwards b)) ps x) = es_headBlock x" for ps x
    by (induction ps arbitrary: x) auto
  with assms show ?thesis
    by (auto simp: dispatchSetHWMCheckExit_def dest: dispatchEvents_head
        split: if_splits prod.splits sum.splits bool.splits)
qed

lemma dispatchSetHWM_raised:
  "dispatchSetHWMCheckExit E ag evs b es c = (r, es', c') \<Longrightarrow> raised_to b es es'"
  by (simp add: raised_to_def dispatchSetHWM_hwm dispatchSetHWM_head)

text \<open>Light mode does not take its base back, so there the mark of a page is at least the base.\<close>

definition markLimit :: "int64 \<Rightarrow> int64 \<Rightarrow> 'tc ethConnector \<Rightarrow> int64" where
  "markLimit stab base c = (if lightMode c then max stab base else stab)"

lemma getLogsDeliver_raised:
  assumes "getLogsDeliver E hc stab t k logs (lp, es, c) = Inr (r, lp', es', c')"
  shows "raised_to (markLimit stab (ps_fromBlock (lp_poll lp)) c) es es'"
proof -
  let ?b = "if stab < i64 (t + 1) then stab else i64 (t + 1)" and ?f = "ps_fromBlock (lp_poll lp)"
  let ?h = "if lightMode c \<and> ?b < ?f then ?f else ?b"
  have "raised_to ?h es es'"
    using assms
    by (auto simp: getLogsDeliver_def failPass_def endPass_def Let_def
        split: prod.splits sum.splits bool.splits
        dest!: dispatchSetHWM_raised intro!: raised_to_head split del: if_split)
  then show ?thesis by (rule raised_to_mono) (simp add: markLimit_def)
qed

lemma checkReorgRewind_None [simp]: "checkReorgRewind [] ps = Inr ps"
  by (simp add: checkReorgRewind_def)

lemma getLogsScan_raised:
  assumes "getLogsScan E head (lp, es, c) = Inr (r, lp', es', c')"
  shows "raised_to (markLimit (stableThreshold head c) (ps_fromBlock (lp_poll lp)) c) es es'"
proof -
  have "lightMode c1 = lightMode c" if "getBlockRangeLogs E ag es f t (c_ticked c) = (x, c1)" for ag f t x c1
    using that by (auto simp: getBlockRangeLogs_def split: sum.splits)
  with assms show ?thesis
    by (auto simp: getLogsScan_def getLogsPage_def rangeQueryFailed_def failPass_def endPass_def Let_def
        markLimit_def split: if_splits prod.splits sum.splits bool.splits dest!: getLogsDeliver_raised)
qed

text \<open>The stable threshold of the head that a pass reads.\<close>

definition headRead :: "'tc connEnv \<Rightarrow> 'tc ethConnector \<Rightarrow> int64" where
  "headRead E c = (case ce_highestBlock E (Suc (c_tick c)) of None \<Rightarrow> 0 | Some h \<Rightarrow> uint h)"

lemma stableThreshold_ticked [simp]: "stableThreshold h (c_ticked c) = stableThreshold h c"
  by (simp add: stableThreshold_def)

lemma getLogsPass_raised:
  assumes "leadGroupSteadyStateGetLogsPass E (lp, es, c) = Inr (r, lp', es', c')"
  shows "raised_to (markLimit (stableThreshold (headRead E c) c) (ps_fromBlock (pollStart E lp es)) c) es es'"
  using getLogsPass_runs [OF assms]
proof (elim disjE exE conjE)
  fix h lp0
  assume "ce_highestBlock E (Suc (c_tick c)) = Some h" and "lp_poll lp0 = pollStart E lp es"
    and run: "getLogsScan E (uint h) (lp0, es, c_ticked (c_ticked c)) = Inr (r, lp', es', c')"
  with getLogsScan_raised [OF run] show ?thesis by (simp add: headRead_def markLimit_def)
qed simp

lemma filterQuery_raised:
  assumes "filterQuery E b (lp, es, c) = Inr (r, lp', es', c')"
  shows "raised_to b es es'"
  using assms
  by (auto simp: filterQuery_def filterDeliver_def failPass_def endPass_def
      split: sum.splits prod.splits bool.splits dest!: dispatchSetHWM_raised intro: raised_to_head)

lemma leadGroupSteadyStatePass_raised:
  assumes "leadGroupSteadyStatePass E (lp, es, c) = Inr (r, lp', es', c')"
  shows "raised_to (stableThreshold (headRead E c) c) es es'"
proof -
  have "case (case ce_highestBlock E (Suc (c_tick c)) of None \<Rightarrow> 0 | Some h \<Rightarrow> h) of
      h \<Rightarrow> uint h = headRead E c"
    by (simp add: headRead_def split: option.split)
  then have b: "n = headRead E c"
    if "blockNumberToInt64 (case ce_highestBlock E (Suc (c_tick c)) of None \<Rightarrow> 0 | Some h \<Rightarrow> h) = Inr n" for n
    using that by simp
  from assms show ?thesis
    by (auto simp: leadGroupSteadyStatePass_def Let_def endPass_def failPass_def
        split: if_splits prod.splits sum.splits option.splits bool.splits
        dest!: filterQuery_raised establishFilter_es dest: b simp: headRead_def)
qed

lemma steadyStatePass_raised:
  assumes "steadyStatePass E (lp, es, c) = Inr (r, lp', es', c')"
  shows "raised_to (markLimit (stableThreshold (headRead E c) c) (ps_fromBlock (pollStart E lp es)) c) es es'"
proof -
  have "raised_to b es es' \<Longrightarrow> raised_to (markLimit b f c) es es'" for b f
    by (erule raised_to_mono) (simp add: markLimit_def)
  with assms show ?thesis
    by (auto simp: steadyStatePass_def split: if_splits sum.splits loopOutcome.splits prod.splits
        dest: getLogsPass_raised leadGroupSteadyStatePass_raised)
qed

end
