(* ===== verification/ListenerLife.thy ===== *)
theory ListenerLife
  imports PollerInvariants RpcClient RetryUtil
begin

text \<open>
  The life of the block listener's goroutines (\<open>pkg/ethblocklistener/blocklistener.go\<close>): the start
  of the listen loop by its first user, the establishment of the block height over a client with or
  without a WebSocket, the waits between polls, and the calls that wait for the loop.

  A channel that is only ever closed is whether it is closed. \<open>startDone\<close> is closed by
  \<open>markStarted\<close> together with the setting of \<open>isStarted\<close>, so it has no field of its own;
  \<open>listenLoopDone\<close> is created by the start of the loop, so it is optional. \<open>newHeadsTap\<close> has a
  buffer of one: the field says whether a tap is in it. The running loops are a list, so that there
  is at most one is a theorem and not an assumption. Closing a closed channel is a panic, and
  \<open>lf_panic\<close> is the first one. \<open>ctx\<close> is the context of the listener; the context of a caller is an
  argument of the call. A \<open>select\<close> is given by the case that fires, which has to be ready.
\<close>

section \<open>State\<close>

datatype loopState =
    Establishing
  | Building
  | Polling nat bool poller \<comment> \<open>\<open>failCount\<close>, \<open>firstIteration\<close> and the poller\<close>
  | Exited

record ('bc, 'rc) listenerLife =
  lf_bl :: "('bc, 'rc) blockListener"
  lf_rpc :: client
  lf_ctxDone :: bool
  lf_listenLoopDone :: "bool option"
  lf_initialBlockHeightObtained :: bool
  lf_newHeadsTap :: bool
  lf_newHeadsSub :: bool
  lf_subListeners :: nat \<comment> \<open>goroutines that run \<open>newHeadsSubListener\<close>\<close>
  lf_loops :: "loopState list"
  lf_panic :: "failure option"

definition newListenerLife ::
  "('bc, 'rc) blockListener \<Rightarrow> client \<Rightarrow> ('bc, 'rc) listenerLife" where
  "newListenerLife s rpc =
     \<lparr>lf_bl = s, lf_rpc = rpc, lf_ctxDone = False, lf_listenLoopDone = None,
      lf_initialBlockHeightObtained = False, lf_newHeadsTap = False, lf_newHeadsSub = False,
      lf_subListeners = 0, lf_loops = [], lf_panic = None\<rparr>"

definition panicked ::
  "failure \<Rightarrow> ('bc, 'rc) listenerLife \<Rightarrow> ('bc, 'rc) listenerLife" where
  "panicked e l = (case lf_panic l of None \<Rightarrow> l\<lparr>lf_panic := Some e\<rparr> | Some _ \<Rightarrow> l)"

definition setLoop ::
  "nat \<Rightarrow> loopState \<Rightarrow> ('bc, 'rc) listenerLife \<Rightarrow> ('bc, 'rc) listenerLife" where
  "setLoop i st l = l\<lparr>lf_loops := (lf_loops l)[i := st]\<rparr>"

section \<open>Starting\<close>

definition checkAndStartListenerLoop ::
  "('bc, 'rc) listenerLife \<Rightarrow> ('bc, 'rc) listenerLife" where
  "checkAndStartListenerLoop l =
     (if lf_listenLoopDone l = None
      then l\<lparr>lf_listenLoopDone := Some False, lf_loops := lf_loops l @ [Establishing]\<rparr>
      else l)"

text \<open>What the WebSocket backend does: the outcomes of its calls, at every tick.\<close>

record wsBehaviour =
  wb_Connect :: "nat \<Rightarrow> failure option"
  wb_Subscribe :: "nat \<Rightarrow> string \<Rightarrow> unit result"

definition tickedLife :: "('bc, 'rc) listenerLife \<Rightarrow> ('bc, 'rc) listenerLife" where
  "tickedLife l = l\<lparr>lf_bl := ticked (lf_bl l)\<rparr>"

definition connectAndSubscribe ::
  "wsBehaviour \<Rightarrow> ('bc, 'rc) listenerLife \<Rightarrow> failure option \<times> ('bc, 'rc) listenerLife" where
  "connectAndSubscribe B l =
     (case Connect (wb_Connect B (tick (lf_bl l))) (lf_rpc l) of
        (Some e, c) \<Rightarrow> (Some e, tickedLife (l\<lparr>lf_rpc := c\<rparr>))
      | (None, c) \<Rightarrow>
          (let l1 = tickedLife (l\<lparr>lf_rpc := c\<rparr>) in
           if lf_newHeadsSub l1 then (None, l1)
           else (case Subscribe (wb_Subscribe B (tick (lf_bl l1)) ''newHeads'') c of
                   Inl e \<Rightarrow> (Some e, tickedLife l1)
                 | Inr _ \<Rightarrow> (None, tickedLife (l1\<lparr>lf_newHeadsSub := True,
                              lf_subListeners := Suc (lf_subListeners l1)\<rparr>)))))"

text \<open>One run of the closure of \<open>establishBlockHeightWithRetry\<close>.\<close>

definition establishAttempt ::
  "('bc, 'rc) env \<Rightarrow> wsBehaviour \<Rightarrow> ('bc, 'rc) listenerLife \<Rightarrow>
   (bool \<times> unit result) \<times> ('bc, 'rc) listenerLife" where
  "establishAttempt E B l =
     (case (if HasWebSocket (lf_rpc l) then connectAndSubscribe B l else (None, l)) of
        (Some e, l1) \<Rightarrow> ((True, Inl e), l1)
      | (None, l1) \<Rightarrow>
          (case queryBlockHeightFromRPC E (lf_bl l1) of
             (Inl e, s) \<Rightarrow> ((True, Inl e), l1\<lparr>lf_bl := s\<rparr>)
           | (Inr head, s) \<Rightarrow> ((False, Inr ()), l1\<lparr>lf_bl := setHighestBlock head s\<rparr>)))"

definition closeInitialBlockHeightObtained ::
  "('bc, 'rc) listenerLife \<Rightarrow> ('bc, 'rc) listenerLife" where
  "closeInitialBlockHeightObtained l =
     (if lf_initialBlockHeightObtained l then panicked PanicCloseOfClosedChannel l
      else l\<lparr>lf_initialBlockHeightObtained := True\<rparr>)"

section \<open>Waiting between polls\<close>

datatype wakeup = ListenerContextDone | PollingIntervalOver | NewHeadsTap

definition wakeupReady :: "wakeup \<Rightarrow> ('bc, 'rc) listenerLife \<Rightarrow> bool" where
  "wakeupReady w l =
     (case w of
        ListenerContextDone \<Rightarrow> lf_ctxDone l
      | PollingIntervalOver \<Rightarrow> True
      | NewHeadsTap \<Rightarrow> lf_newHeadsTap l)"

definition waitNextIteration ::
  "wakeup \<Rightarrow> ('bc, 'rc) listenerLife \<Rightarrow> bool \<times> ('bc, 'rc) listenerLife" where
  "waitNextIteration w l =
     (case w of
        ListenerContextDone \<Rightarrow> (False, l)
      | PollingIntervalOver \<Rightarrow> (True, l)
      | NewHeadsTap \<Rightarrow> (True, l\<lparr>lf_newHeadsTap := False\<rparr>))"

text \<open>\<open>ctxDoneFirst\<close> says whether the context ends before the timer of the delay.\<close>

definition waitNextPoll ::
  "RetryWrapper \<Rightarrow> bool \<Rightarrow> wakeup \<Rightarrow> nat \<Rightarrow> bool \<Rightarrow> ('bc, 'rc) listenerLife \<Rightarrow>
   bool \<times> ('bc, 'rc) listenerLife" where
  "waitNextPoll rw ctxDoneFirst w failCount firstIteration l =
     (if failCount > 0 then (\<not> delay_exits (DoFailureDelay rw ctxDoneFirst (int failCount)), l)
      else if firstIteration then (True, l)
      else waitNextIteration w l)"

text \<open>The select is ready, and a context that ended first has ended.\<close>

definition waitReady ::
  "bool \<Rightarrow> wakeup \<Rightarrow> nat \<Rightarrow> bool \<Rightarrow> ('bc, 'rc) listenerLife \<Rightarrow> bool" where
  "waitReady ctxDoneFirst w failCount firstIteration l =
     (if failCount > 0 then ctxDoneFirst \<longrightarrow> lf_ctxDone l
      else firstIteration \<or> wakeupReady w l)"

text \<open>A notification of a new head taps the loop, unless there is a tap already.\<close>

definition newHeadsNotification :: "('bc, 'rc) listenerLife \<Rightarrow> ('bc, 'rc) listenerLife" where
  "newHeadsNotification l = l\<lparr>lf_newHeadsTap := True\<rparr>"

definition closeListenLoopDone :: "('bc, 'rc) listenerLife \<Rightarrow> ('bc, 'rc) listenerLife" where
  "closeListenLoopDone l =
     (if lf_listenLoopDone l = Some False then l\<lparr>lf_listenLoopDone := Some True\<rparr>
      else panicked PanicCloseOfClosedChannel l)"

section \<open>Calls that wait for the loop\<close>

definition waitUntilStarted :: "bool \<Rightarrow> ('bc, 'rc) listenerLife \<Rightarrow> bool" where
  "waitUntilStarted callerDone l \<longleftrightarrow> isStarted (lf_bl l) \<or> lf_ctxDone l \<or> callerDone"

text \<open>The answers that \<open>waitForBlockHeightInit\<close> may give in a state; none while it waits.\<close>

definition waitForBlockHeightInit :: "bool \<Rightarrow> ('bc, 'rc) listenerLife \<Rightarrow> bool list" where
  "waitForBlockHeightInit callerDone l =
     (if highestBlockSet (lf_bl l) then [True]
      else (if lf_initialBlockHeightObtained l then [True] else []) @
           (if callerDone then [False] else []))"

definition GetHighestBlock_answers ::
  "bool \<Rightarrow> ('bc, 'rc) listenerLife \<Rightarrow> (u64 \<times> bool) list" where
  "GetHighestBlock_answers callerDone l =
     map (\<lambda>ready. if ready then (GetHighestBlock (lf_bl l), True) else (0, False))
       (waitForBlockHeightInit callerDone l)"

definition GetHighestBlockInfo_answers ::
  "bool \<Rightarrow> ('bc, 'rc) listenerLife \<Rightarrow> BlockInfoJSONRPC option list" where
  "GetHighestBlockInfo_answers callerDone l =
     map (\<lambda>ready. if ready then GetHighestBlockInfo (lf_bl l) else None)
       (waitForBlockHeightInit callerDone l)"

definition WaitClosed_returns :: "('bc, 'rc) listenerLife \<Rightarrow> bool" where
  "WaitClosed_returns l =
     (case lf_listenLoopDone l of None \<Rightarrow> True | Some isClosed \<Rightarrow> isClosed \<or> lf_ctxDone l)"

section \<open>The steps of the goroutines\<close>

text \<open>\<open>retry.Do\<close> ends when the closure succeeds, or after a failure when the context has ended; the
  loop goes on in both cases. A wait and the poll after it are one step. The callers of the
  listener start the loop, add and remove consumers and query the caches at any time.\<close>

definition afterPoll ::
  "nat \<Rightarrow> failure option \<times> poller \<times> ('bc, 'rc) blockListener \<Rightarrow> nat \<Rightarrow>
   ('bc, 'rc) listenerLife \<Rightarrow> ('bc, 'rc) listenerLife" where
  "afterPoll i res failCount l =
     (case res of (err, p, s) \<Rightarrow>
        setLoop i (Polling (if err \<noteq> None then failCount + 1 else 0) False p) (l\<lparr>lf_bl := s\<rparr>))"

inductive life_step ::
  "RetryWrapper \<Rightarrow> ('bc, 'rc) env \<Rightarrow> wsBehaviour \<Rightarrow>
   ('bc, 'rc) listenerLife \<Rightarrow> ('bc, 'rc) listenerLife \<Rightarrow> bool"
  for rw E B where
  life_start: "life_step rw E B l (checkAndStartListenerLoop l)"
| life_retry: "i < length (lf_loops l) \<Longrightarrow> lf_loops l ! i = Establishing \<Longrightarrow>
     establishAttempt E B l = ((True, r), l') \<Longrightarrow> life_step rw E B l l'"
| life_established: "i < length (lf_loops l) \<Longrightarrow> lf_loops l ! i = Establishing \<Longrightarrow>
     establishAttempt E B l = ((retry, r), l') \<Longrightarrow> \<not> retry \<or> lf_ctxDone l \<Longrightarrow>
     life_step rw E B l (setLoop i Building (closeInitialBlockHeightObtained l'))"
| life_built: "i < length (lf_loops l) \<Longrightarrow> lf_loops l ! i = Building \<Longrightarrow>
     newBlockPoller E (lf_bl l) = Some (p, s) \<Longrightarrow>
     life_step rw E B l (setLoop i (Polling 0 True p) (l\<lparr>lf_bl := s\<rparr>))"
| life_polled: "i < length (lf_loops l) \<Longrightarrow> lf_loops l ! i = Polling n first p \<Longrightarrow>
     waitReady d w n first l \<Longrightarrow> waitNextPoll rw d w n first l = (True, l1) \<Longrightarrow>
     poll E p (lf_bl l1) = Some res \<Longrightarrow> life_step rw E B l (afterPoll i res n l1)"
| life_exit: "i < length (lf_loops l) \<Longrightarrow> lf_loops l ! i = Polling n first p \<Longrightarrow>
     waitReady d w n first l \<Longrightarrow> waitNextPoll rw d w n first l = (False, l1) \<Longrightarrow>
     life_step rw E B l (closeListenLoopDone (setLoop i Exited l1))"
| life_tap: "0 < lf_subListeners l \<Longrightarrow> life_step rw E B l (newHeadsNotification l)"
| life_cancel: "life_step rw E B l (l\<lparr>lf_ctxDone := True\<rparr>)"
| life_rpc: "client_step (lf_rpc l) c \<Longrightarrow> life_step rw E B l (l\<lparr>lf_rpc := c\<rparr>)"
| life_add: "lf_listenLoopDone l \<noteq> None \<Longrightarrow> waitUntilStarted callerDone l \<Longrightarrow>
     life_step rw E B l (l\<lparr>lf_bl := AddConsumer c (lf_bl l)\<rparr>)"
| life_remove: "life_step rw E B l (l\<lparr>lf_bl := RemoveConsumer c (lf_bl l)\<rparr>)"
| life_fetched: "brr \<in> set (asyncRequests (lf_bl l)) \<Longrightarrow>
     life_step rw E B l (l\<lparr>lf_bl := completeFetch E brr (lf_bl l)\<rparr>)"
| life_query_number: "GetBlockInfoByNumber E b ch ph bh (lf_bl l) = (q, s) \<Longrightarrow>
     life_step rw E B l (l\<lparr>lf_bl := s\<rparr>)"
| life_query_hash: "GetBlockInfoByHash E h (lf_bl l) = (q, s) \<Longrightarrow>
     life_step rw E B l (l\<lparr>lf_bl := s\<rparr>)"

inductive_cases life_stepE: "life_step rw E B l l'"

abbreviation life_run ::
  "RetryWrapper \<Rightarrow> ('bc, 'rc) env \<Rightarrow> wsBehaviour \<Rightarrow>
   ('bc, 'rc) listenerLife \<Rightarrow> ('bc, 'rc) listenerLife \<Rightarrow> bool" where
  "life_run rw E B \<equiv> (life_step rw E B)\<^sup>*\<^sup>*"

end
