(* ===== verification/PollFrames.thy ===== *)
theory PollFrames
  imports PollerInvariants
begin

text \<open>
  What a poll leaves alone. \<open>poll_frame\<close> is the interface: a relation between states of the listener
  that the queries, a reconciliation, the record of a dispatch and the start of the listener respect
  is respected by the pollers of full mode and by the seeding; \<open>head_frame\<close> adds the head of light
  mode. An invariant \<open>P\<close> is the relation \<open>P s \<longrightarrow> P s'\<close>. The interpretations are the flags
  that never fall (\<open>raised\<close>), and the growth of the chain under the highest block (\<open>grown\<close>).
\<close>

section \<open>The interface\<close>

locale poll_frame =
  fixes R :: "('bc, 'rc) blockListener \<Rightarrow> ('bc, 'rc) blockListener \<Rightarrow> bool"
  assumes R_trans: "R s t \<Longrightarrow> R t u \<Longrightarrow> R s u"
    and R_same: "same_chain s s' \<Longrightarrow> R s s'"
    and R_reconcile: "reconcileCanonicalChain E b s = Some (r, s') \<Longrightarrow> R s s'"
    and R_dispatched: "R s (s\<lparr>dispatched := d\<rparr>)"
    and R_remove: "R s (RemoveConsumer c s)"
    and R_mark: "R s (markStarted s)"

sublocale poll_frame \<subseteq> blocks: updater reconcileCanonicalChain "\<lambda>_. True" "\<lambda>_ _. True" R
  by unfold_locales (auto intro: R_same R_trans R_reconcile)

context poll_frame
begin

lemmas R_refl [simp, intro] = R_same [OF same_chain_refl]

lemmas R_quiet = R_same [OF same_chain_ticked] R_same [OF setBlockHeightMetric_same]
  R_same [OF incPollFailureMetric_same] R_same [OF refreshTarget_frame(1)]
  R_same [OF queryBlockHeightFromRPC_frame(1)]

lemma frame_dispatch: "R s (dispatchToConsumers E cs u s)"
proof (induction E cs u s rule: dispatchToConsumers.induct)
  case (2 E c cs u s)
  then show ?case
    using R_dispatched [of s "dispatched s @ [(c, u)]"] R_remove [of s c]
    by (auto split: select_outcome.splits intro: R_trans)
qed simp

lemma frame_reconcileAndDispatch:
  assumes "\<forall>producer \<in> set blocks. \<forall>t r t'. producer t = (r, t') \<longrightarrow> R t t'"
    and "reconcileAndDispatch E blocks p s = Some (p', s')"
  shows "R s s' \<and> pl_kind p' = pl_kind p \<and> pl_filter p' = pl_filter p"
proof -
  from assms(2) obtain q s1 where run: "updateAll reconcileCanonicalChain lowerPos E blocks None s =
      Some (q, s1)" and s': "s' = (case q of None \<Rightarrow> s1 | Some e \<Rightarrow>
        dispatchToConsumers E (snapshotConsumers s1) (notifyEvent E (pl_gapPotential p) e s1) s1)"
    and p': "p' = p\<lparr>pl_gapPotential := False\<rparr>"
    by (auto simp: reconcileAndDispatch_def split: option.splits)
  have "R s s1" using blocks.updateAll_keeps [OF _ _ run] assms(1) by blast
  with s' p' show ?thesis by (auto split: option.split intro: R_trans frame_dispatch)
qed

lemma frame_resolveBlockHash: "resolveBlockHash E h s = (r, s') \<Longrightarrow> R s s'"
  by (auto simp: resolveBlockHash_def Let_def split: if_splits prod.splits sum.splits
      dest!: GetBlockInfoByHash_same R_same)

section \<open>The pollers of full mode\<close>

text \<open>A poll keeps the kind of its poller, and its filter, which it may also drop.\<close>

lemma frame_pollFilterChanges:
  assumes run: "pollFilterChanges E p s = Some (r, p', s')"
  shows "R s s' \<and> pl_kind p' = pl_kind p \<and> pl_filter p' \<in> {pl_filter p, ''''}"
proof (cases "rpc_getFilterChanges E (tick s) (pl_filter p)")
  case (Inl e)
  with run have s': "s' = incPollFailureMetric ''eth_getFilterChanges'' (ticked s)"
    and p': "p' = p \<or> p' = p\<lparr>pl_filter := '''', pl_gapPotential := True\<rparr>"
    by (auto simp: pollFilterChanges_def)
  have "R s s'" unfolding s' by (blast intro: R_quiet R_trans)
  with p' show ?thesis by auto
next
  case (Inr hs)
  with run have
    rd: "reconcileAndDispatch E (resolveBlockHashes E hs) p (ticked s) = Some (p', s')"
    by (auto simp: pollFilterChanges_def split: option.splits)
  have "R (ticked s) s' \<and> pl_kind p' = pl_kind p \<and> pl_filter p' = pl_filter p"
    by (rule frame_reconcileAndDispatch [OF _ rd])
       (auto simp: resolveBlockHashes_def dest: frame_resolveBlockHash)
  then show ?thesis by (auto intro: R_trans R_quiet(1))
qed

text \<open>A filter that is not the one before was established after the listener was started.\<close>

lemma frame_blockFilterPoll:
  assumes run: "blockFilterPoll E p s = Some (r, p', s')"
  shows "R s s' \<and> pl_kind p' = pl_kind p \<and>
    (pl_filter p' \<in> {pl_filter p, ''''} \<or> (\<exists>t. R (markStarted t) s'))"
proof -
  let ?s1 = "refreshTargetBlockHeightMetric E s"
  have s1: "R s ?s1" by (rule R_quiet)
  show ?thesis
  proof (cases "pl_filter p = ''''")
    case False
    with run have "pollFilterChanges E p ?s1 = Some (r, p', s')" by (simp add: blockFilterPoll_def Let_def)
    from frame_pollFilterChanges [OF this] s1 show ?thesis by (blast intro: R_trans)
  next
    case True
    note empty = this
    show ?thesis
    proof (cases "rpc_newBlockFilter E (tick ?s1)")
      case (Inl e)
      with run empty have "p' = p" "s' = incPollFailureMetric ''eth_newBlockFilter'' (ticked ?s1)"
        by (auto simp: blockFilterPoll_def Let_def)
      moreover from this have "R ?s1 s'" using R_quiet(1) R_quiet(3) R_trans by blast
      ultimately show ?thesis using s1 by (auto intro: R_trans)
    next
      case (Inr f)
      let ?s2 = "markStarted (ticked ?s1)"
      from Inr run empty have "pollFilterChanges E (p\<lparr>pl_filter := f\<rparr>) ?s2 = Some (r, p', s')"
        by (simp add: blockFilterPoll_def Let_def)
      from frame_pollFilterChanges [OF this] have "R ?s2 s'" "pl_kind p' = pl_kind p" by auto
      moreover have "R s ?s2" using s1 by (blast intro: R_quiet R_mark R_trans)
      ultimately show ?thesis by (blast intro: R_trans)
    qed
  qed
qed

lemma frame_latestBlockPoll:
  assumes run: "latestBlockPoll E p s = Some (r, p', s')"
  shows "R s s' \<and> pl_kind p' = pl_kind p \<and> pl_filter p' = pl_filter p"
proof -
  obtain q s1 where q: "GetEVMBlockWithTxHashesByNumber E ''latest'' s = (q, s1)" by fastforce
  then have s1: "R s s1" by (intro R_same GetEVMBlockWithTxHashesByNumber_same)
  have "R s1 s' \<and> pl_kind p' = pl_kind p \<and> pl_filter p' = pl_filter p"
  proof (cases "p' = p \<and> s' = incPollFailureMetric ''eth_getBlockByNumber'' s1")
    case True
    then show ?thesis by (auto intro: R_quiet)
  next
    case False
    with run q obtain bi where rd: "reconcileAndDispatch E [\<lambda>t. (Some bi, t)] p
        (setBlockHeightMetric TargetBlockHeight (bi_Number bi) s1) = Some (p', s')"
      by (auto simp: latestBlockPoll_def split: sum.splits option.splits)
    from frame_reconcileAndDispatch [OF _ rd] show ?thesis
      by (auto intro: R_quiet R_trans)
  qed
  with s1 show ?thesis by (auto intro: R_trans)
qed

lemma frame_poll:
  assumes "poll E p s = Some (r, p', s')" and "pl_kind p \<noteq> HeadNumberPoller"
  shows "R s s' \<and> pl_kind p' = pl_kind p"
  using assms by (auto simp: poll_def split: pollerKind.splits
      dest: frame_latestBlockPoll frame_blockFilterPoll)

section \<open>Seeding\<close>

lemma frame_seedLoop:
  assumes "seedLoop E n h s = Some s'"
  shows "R s s'"
proof -
  let ?P = "\<lambda>E n h s t. R s t"
  have "?P E n h s s'"
  proof (rule seedLoop.raw_induct [of ?P, OF _ assms])
    fix f E n h s t
    assume IH: "\<And>E n h s t. f E n h s = Some t \<Longrightarrow> ?P E n h s t"
      and eq: "(if \<not> n \<le> h then Some s
      else (case retryDo (retryRuns E (tick s))
                  (\<lambda>s. case GetBlockInfoByNumber E n False '''' '''' s of
                         (r, s') \<Rightarrow> ((isl r, r), s')) s of
              (Inl e, s1) \<Rightarrow> Some s1
            | (Inr None, s1) \<Rightarrow> Some s1
            | (Inr (Some bi), s1) \<Rightarrow>
                (case reconcileCanonicalChain E bi s1 of
                   None \<Rightarrow> None
                 | Some (candidate, s2) \<Rightarrow> f E (n + 1) h s2))) = Some t"
    obtain q s1 where q: "retryDo (retryRuns E (tick s))
        (\<lambda>s. case GetBlockInfoByNumber E n False '''' '''' s of (r, s') \<Rightarrow> ((isl r, r), s')) s = (q, s1)"
      by fastforce
    have s1: "R s s1" using seedQuery_frame [OF q] by (blast intro: R_same)
    from eq q s1 show "R s t"
      by (auto split: if_splits sum.splits option.splits prod.splits
          dest!: R_reconcile IH intro: R_trans)
  qed
  then show ?thesis .
qed

lemma frame_newBlockPoller:
  assumes "newBlockPoller E s = Some (p, s')"
  shows "R s s'"
proof -
  have "R s t" if "seedMonitoredHead E s = Some t" for t
    using that by (auto simp: seedMonitoredHead_def split: if_splits intro: frame_seedLoop)
  with assms show ?thesis
    by (auto simp: newBlockPoller_def split: if_splits option.splits intro: R_trans R_mark)
qed

end

section \<open>The poller of light mode\<close>

locale head_frame = poll_frame +
  assumes R_accept: "acceptHeadBlockNumber h s = (b, s') \<Longrightarrow> R s s'"
begin

lemma frame_headNumberPoll: "headNumberPoll E s = (r, s') \<Longrightarrow> R s s'"
  by (auto simp: headNumberPoll_def split: prod.splits sum.splits bool.splits
      dest!: R_quiet(5) R_accept intro: R_trans frame_dispatch)

lemma frame_any_poll:
  assumes "poll E p s = Some (r, p', s')"
  shows "R s s' \<and> pl_kind p' = pl_kind p"
proof (cases "pl_kind p = HeadNumberPoller")
  case True
  with assms have "headNumberPoll E s = (r, s')" "p' = p" by (auto simp: poll_def split: prod.splits)
  then show ?thesis using frame_headNumberPoll by blast
qed (rule frame_poll [OF assms])

end

section \<open>Flags that never fall\<close>

definition raised :: "('bc, 'rc) blockListener \<Rightarrow> ('bc, 'rc) blockListener \<Rightarrow> bool" where
  "raised s s' \<longleftrightarrow> (isStarted s \<longrightarrow> isStarted s') \<and> (highestBlockSet s \<longrightarrow> highestBlockSet s')"

lemma raised_refl [simp, intro]: "raised s s"
  by (simp add: raised_def)

lemma raised_trans [trans]: "raised s t \<Longrightarrow> raised t u \<Longrightarrow> raised s u"
  by (simp add: raised_def)

lemma raised_same: "same_chain s s' \<Longrightarrow> raised s s'"
  by (simp add: raised_def same_chainD)

interpretation rs: chain_frame E raised for E :: "('bc, 'rc) env"
proof
  show "raised s s'" if "retriedBlockQuery E n s = (r, s')" for n r and s s' :: "('bc, 'rc) blockListener"
    using that by (intro raised_same retriedBlockQuery_same)
  show "raised s (checkAndSetHighestBlock b s)" for b and s :: "('bc, 'rc) blockListener"
    by (simp add: raised_def checkAndSetHighestBlock_def setBlockHeightMetric_def Let_def split: option.split)
qed (auto simp: raised_def same_chainD [OF resetReceiptCache_same]
      same_chainD [OF fetchAndCacheBlockReceipts_same])

interpretation rp: head_frame raised
  by unfold_locales
     (auto simp: raised_same rs.frame_reconcile, auto simp: raised_def RemoveConsumer_def markStarted_def
        acceptHeadBlockNumber_def Let_def incLightModeDriftMetric_def setBlockHeightMetric_def
        split: if_splits option.splits)

end
