(* ===== verification/ListenerLifeProofs.thy ===== *)
theory ListenerLifeProofs
  imports ListenerLife PollFrames
begin

text \<open>
  The invariant of the life of the listener, \<open>life_ok\<close>: the loop is started at most once, each
  channel is closed at most once and exactly where the loop has passed the point that closes it,
  and what the channels promise to those who wait for them holds.
\<close>

section \<open>A poller that has come so far has started the listener\<close>

definition pollerStarted :: "poller \<Rightarrow> ('bc, 'rc) blockListener \<Rightarrow> bool" where
  "pollerStarted p s \<longleftrightarrow> (pl_kind p \<noteq> BlockFilterPoller \<or> pl_filter p \<noteq> '''' \<longrightarrow> isStarted s)"

lemma pollerStarted_raised: "pollerStarted p s \<Longrightarrow> raised s s' \<Longrightarrow> pollerStarted p s'"
  by (auto simp: pollerStarted_def raised_def)

lemma markStarted_started [simp]: "isStarted (markStarted s)"
  by (simp add: markStarted_def)

lemma poll_raised:
  assumes run: "poll E p s = Some (r, p', s')" and p: "pollerStarted p s"
  shows "raised s s' \<and> pollerStarted p' s'"
proof -
  note fr = rp.frame_any_poll [OF run]
  have "isStarted s'" if f: "pl_kind p = BlockFilterPoller" "pl_filter p' \<noteq> ''''"
  proof -
    from run f have "blockFilterPoll E p s = Some (r, p', s')" by (simp add: poll_def)
    from rp.frame_blockFilterPoll [OF this] f p show ?thesis
      by (auto simp: pollerStarted_def raised_def)
  qed
  with fr p show ?thesis by (auto simp: pollerStarted_def raised_def)
qed

lemma newBlockPoller_raised:
  assumes "newBlockPoller E s = Some (p, s')"
  shows "raised s s' \<and> pollerStarted p s'"
  using assms rp.frame_newBlockPoller [OF assms]
  by (auto simp: newBlockPoller_def pollerStarted_def split: if_splits option.splits)

section \<open>The invariant\<close>

text \<open>What the channels say of the one loop, where it has got to.\<close>

definition loopAgrees :: "('bc, 'rc) listenerLife \<Rightarrow> loopState \<Rightarrow> bool" where
  "loopAgrees l st \<longleftrightarrow>
     lf_listenLoopDone l = Some (st = Exited) \<and>
     lf_initialBlockHeightObtained l = (st \<noteq> Establishing) \<and>
     (case st of
        Establishing \<Rightarrow> True
      | Building \<Rightarrow> True
      | Polling n first p \<Rightarrow> pollerStarted p (lf_bl l)
      | Exited \<Rightarrow> lf_ctxDone l)"

definition life_ok :: "('bc, 'rc) env \<Rightarrow> ('bc, 'rc) listenerLife \<Rightarrow> bool" where
  "life_ok E l \<longleftrightarrow>
     listener_ok E (lf_bl l) \<and> client_ok (lf_rpc l) \<and> lf_panic l = None \<and>
     (lf_loops l = [] \<and> lf_listenLoopDone l = None \<and> \<not> lf_initialBlockHeightObtained l \<or>
      (\<exists>st. lf_loops l = [st] \<and> loopAgrees l st)) \<and>
     (lf_initialBlockHeightObtained l \<longrightarrow> highestBlockSet (lf_bl l) \<or> lf_ctxDone l) \<and>
     lf_subListeners l = (if lf_newHeadsSub l then 1 else 0)"

lemma newListenerLife_ok:
  "listener_ok E s \<Longrightarrow> client_ok c \<Longrightarrow> life_ok E (newListenerLife s c)"
  by (simp add: life_ok_def newListenerLife_def)

lemma checkAndStart_ok: "life_ok E l \<Longrightarrow> life_ok E (checkAndStartListenerLoop l)"
  by (auto simp: life_ok_def checkAndStartListenerLoop_def loopAgrees_def)

text \<open>A step of anything but the loop: the state of the listener is replaced by one whose flags have
  not fallen.\<close>

lemma loopAgrees_bl:
  "loopAgrees l st \<Longrightarrow> raised (lf_bl l) s \<Longrightarrow> loopAgrees (l\<lparr>lf_bl := s\<rparr>) st"
  by (auto simp: loopAgrees_def split: loopState.splits intro: pollerStarted_raised)

lemma life_ok_bl:
  assumes "life_ok E l" and "listener_ok E s" and "raised (lf_bl l) s"
  shows "life_ok E (l\<lparr>lf_bl := s\<rparr>)"
  using assms loopAgrees_bl [OF _ assms(3)] by (auto simp: life_ok_def raised_def)

lemma life_ok_quiet:
  assumes "life_ok E l" and "same_chain (lf_bl l) s" and "hashed E (lf_bl l) s"
  shows "life_ok E (l\<lparr>lf_bl := s\<rparr>)"
  using assms by (intro life_ok_bl) (auto simp: life_ok_def intro: same_listener_ok raised_same)

lemma tickedLife_ok: "life_ok E l \<Longrightarrow> life_ok E (tickedLife l)"
  unfolding tickedLife_def by (rule life_ok_quiet) (simp_all add: hashed_eq ticked_def same_chain_def)

lemma life_ok_rpc: "life_ok E l \<Longrightarrow> client_ok c \<Longrightarrow> life_ok E (l\<lparr>lf_rpc := c\<rparr>)"
  by (auto simp: life_ok_def loopAgrees_def split: loopState.splits)

lemma tickedLife_fields [simp]:
  "lf_rpc (tickedLife l) = lf_rpc l" "lf_newHeadsSub (tickedLife l) = lf_newHeadsSub l"
  "lf_subListeners (tickedLife l) = lf_subListeners l" "lf_loops (tickedLife l) = lf_loops l"
  "lf_ctxDone (tickedLife l) = lf_ctxDone l"
  by (simp_all add: tickedLife_def)

lemma connectAndSubscribe_ok:
  assumes ok: "life_ok E l" and run: "connectAndSubscribe B l = (r, l')"
  shows "life_ok E l' \<and> lf_loops l' = lf_loops l \<and> lf_ctxDone l' = lf_ctxDone l"
proof -
  obtain x c where con: "Connect (wb_Connect B (tick (lf_bl l))) (lf_rpc l) = (x, c)" by fastforce
  have "client_ok c"
    using ok Connect_ok [of "lf_rpc l" "wb_Connect B (tick (lf_bl l))"] con by (simp add: life_ok_def)
  then have l1: "life_ok E (tickedLife (l\<lparr>lf_rpc := c\<rparr>))" by (intro tickedLife_ok life_ok_rpc ok)
  let ?l1 = "tickedLife (l\<lparr>lf_rpc := c\<rparr>)"
  have sub: "life_ok E (?l1\<lparr>lf_newHeadsSub := True, lf_subListeners := Suc (lf_subListeners ?l1)\<rparr>)"
    if "\<not> lf_newHeadsSub ?l1"
    using l1 that by (auto simp: life_ok_def loopAgrees_def split: loopState.splits)
  have "l' \<in> {?l1, tickedLife ?l1} \<or> \<not> lf_newHeadsSub ?l1 \<and>
      l' = tickedLife (?l1\<lparr>lf_newHeadsSub := True, lf_subListeners := Suc (lf_subListeners ?l1)\<rparr>)"
    using run con by (auto simp: connectAndSubscribe_def Let_def split: option.splits if_splits sum.splits)
  then show ?thesis using l1 tickedLife_ok [OF l1] tickedLife_ok [OF sub] by auto
qed

lemma establishAttempt_ok:
  assumes ok: "life_ok E l" and run: "establishAttempt E B l = ((retry, r), l')"
  shows "life_ok E l' \<and> lf_loops l' = lf_loops l \<and> lf_ctxDone l' = lf_ctxDone l \<and>
    (\<not> retry \<longrightarrow> highestBlockSet (lf_bl l'))"
proof -
  obtain x l1 where con: "(if HasWebSocket (lf_rpc l) then connectAndSubscribe B l else (None, l)) = (x, l1)"
    by fastforce
  then have l1: "life_ok E l1" "lf_loops l1 = lf_loops l" "lf_ctxDone l1 = lf_ctxDone l"
    using connectAndSubscribe_ok [OF ok] ok by (auto split: if_splits)
  obtain q s where q: "queryBlockHeightFromRPC E (lf_bl l1) = (q, s)" by fastforce
  note fr = queryBlockHeightFromRPC_frame [OF q]
  have s: "life_ok E (l1\<lparr>lf_bl := s\<rparr>)"
    using fr by (intro life_ok_quiet l1) (auto intro: hashed_eq)
  have "raised s (setHighestBlock h s) \<and> highestBlockSet (setHighestBlock h s)" for h
    by (simp add: raised_def setHighestBlock_def setBlockHeightMetric_def split: option.split)
  note high = this
  have "life_ok E (l1\<lparr>lf_bl := setHighestBlock h s\<rparr>)" for h
  proof -
    have "listener_ok E (setHighestBlock h s)"
      using s by (intro setHighestBlock_listener_ok) (simp add: life_ok_def)
    with high life_ok_bl [OF s, of "setHighestBlock h s"] show ?thesis by simp
  qed
  with run con q s l1 high show ?thesis
    by (auto simp: establishAttempt_def split: option.splits sum.splits)
qed

section \<open>Every step keeps it\<close>

lemma only_loop: "life_ok E l \<Longrightarrow> i < length (lf_loops l) \<Longrightarrow> i = 0 \<and> lf_loops l = [lf_loops l ! i]"
  by (auto simp: life_ok_def)

lemma wait_frame:
  assumes "waitNextPoll rw d w n first l = (go, l1)" and "waitReady d w n first l"
  shows "(\<exists>b. l1 = l\<lparr>lf_newHeadsTap := b\<rparr>) \<and> (\<not> go \<longrightarrow> lf_ctxDone l)"
proof -
  have same: "\<exists>b. l = l\<lparr>lf_newHeadsTap := b\<rparr>" for l :: "('a, 'b) listenerLife"
    by (rule exI [of _ "lf_newHeadsTap l"]) simp
  from assms show ?thesis using same [of l]
  by (auto simp: same waitNextPoll_def waitReady_def waitNextIteration_def wakeupReady_def
      DoFailureDelay_def delay_exits_def split: if_splits wakeup.splits)
qed

lemma life_ok_tap: "life_ok E l \<Longrightarrow> life_ok E (l\<lparr>lf_newHeadsTap := b\<rparr>)"
  by (auto simp: life_ok_def loopAgrees_def split: loopState.splits)

lemma life_polled_ok:
  assumes ok: "life_ok E l" and i: "i < length (lf_loops l)" "lf_loops l ! i = Polling n first p"
    and run: "poll E p (lf_bl l) = Some res"
  shows "life_ok E (afterPoll i res n l)"
proof -
  obtain err p' s where res: "res = (err, p', s)" by (cases res)
  from only_loop [OF ok i(1)] i have l: "lf_loops l = [Polling n first p]" "i = 0" by auto
  with ok have p: "pollerStarted p (lf_bl l)" "listener_ok E (lf_bl l)"
    by (auto simp: life_ok_def loopAgrees_def)
  from poll_raised [OF run [unfolded res] p(1)] poll_listener_ok [OF p(2) run [unfolded res]]
  have "raised (lf_bl l) s" "pollerStarted p' s" "listener_ok E s" by auto
  with ok l show ?thesis
    by (auto simp: res afterPoll_def setLoop_def life_ok_def loopAgrees_def raised_def)
qed

lemma life_step_ok:
  assumes step: "life_step rw E B l l'" and ok: "life_ok E l"
  shows "life_ok E l'"
  using step
proof (cases rule: life_step.cases)
  case life_start
  with ok show ?thesis by (simp add: checkAndStart_ok)
next
  case (life_retry i r)
  with establishAttempt_ok [OF ok] show ?thesis by blast
next
  case (life_established i retry r l1)
  from establishAttempt_ok [OF ok life_established(4)]
  have l1: "life_ok E l1" "lf_loops l1 = lf_loops l" "lf_ctxDone l1 = lf_ctxDone l"
    "\<not> retry \<longrightarrow> highestBlockSet (lf_bl l1)" by auto
  with only_loop [OF ok life_established(2)] life_established(3)
  have "lf_loops l1 = [Establishing]" "i = 0" by auto
  with l1 life_established show ?thesis
    by (auto simp: life_ok_def loopAgrees_def closeInitialBlockHeightObtained_def setLoop_def)
next
  case (life_built i p s)
  from only_loop [OF ok life_built(2)] life_built(3) have "lf_loops l = [Building]" "i = 0" by auto
  moreover from ok life_built(4) have "listener_ok E s"
    by (auto simp: life_ok_def intro: newBlockPoller_listener_ok)
  ultimately show ?thesis using ok newBlockPoller_raised [OF life_built(4)] life_built(1)
    by (auto simp: setLoop_def life_ok_def loopAgrees_def raised_def)
next
  case (life_polled i n first p d w l1 res)
  from wait_frame [OF life_polled(5,4)] obtain b where "l1 = l\<lparr>lf_newHeadsTap := b\<rparr>" by blast
  then have "life_ok E l1" "lf_loops l1 = lf_loops l" using life_ok_tap [OF ok] by simp_all
  with life_polled show ?thesis by (auto intro!: life_polled_ok)
next
  case (life_exit i n first p d w l1)
  from wait_frame [OF life_exit(5,4)] obtain b where l1: "l1 = l\<lparr>lf_newHeadsTap := b\<rparr>"
    and done': "lf_ctxDone l" by auto
  from only_loop [OF ok life_exit(2)] life_exit(3) have "lf_loops l = [Polling n first p]" "i = 0" by auto
  with ok done' have "life_ok E (closeListenLoopDone (setLoop i Exited (l\<lparr>lf_newHeadsTap := b\<rparr>)))"
    by (auto simp: closeListenLoopDone_def setLoop_def life_ok_def loopAgrees_def)
  with l1 life_exit(1) show ?thesis by simp
next
  case life_tap
  with ok show ?thesis by (simp add: newHeadsNotification_def life_ok_tap)
next
  case life_cancel
  with ok show ?thesis by (auto simp: life_ok_def loopAgrees_def split: loopState.splits)
next
  case (life_rpc c)
  with ok show ?thesis
    by (auto intro!: life_ok_rpc dest: client_step_ok simp: life_ok_def [of E l])
next
  case (life_add callerDone c)
  with ok show ?thesis
    by (auto intro!: life_ok_bl simp: AddConsumer_def raised_def listener_ok_def chain_ok_def ids_ok_def
        has_hashes_def chainBlocks_def life_ok_def [of E l])
next
  case (life_remove c)
  with ok show ?thesis
    by (auto intro!: life_ok_bl simp: RemoveConsumer_def raised_def listener_ok_def chain_ok_def
        ids_ok_def has_hashes_def chainBlocks_def life_ok_def [of E l])
next
  case (life_fetched brr)
  with ok show ?thesis
    by (auto intro!: life_ok_bl completeFetch_listener_ok raised_same completeFetch_same
        simp: life_ok_def [of E l])
next
  case (life_query_number b ch ph bh q s)
  with ok show ?thesis
    by (auto intro!: life_ok_quiet intro: GetBlockInfoByNumber_same GetBlockInfoByNumber_hashed)
next
  case (life_query_hash h q s)
  with ok show ?thesis
    by (auto intro!: life_ok_quiet intro: GetBlockInfoByHash_same GetBlockInfoByHash_hashed(1))
qed

lemma life_run_ok: "life_run rw E B l l' \<Longrightarrow> life_ok E l \<Longrightarrow> life_ok E l'"
  by (induction rule: rtranclp_induct) (auto dest: life_step_ok)

end
