(* ===== verification/ChainHeight.thy ===== *)
theory ChainHeight
  imports PollFrames
begin

text \<open>
  The canonical chain never reaches above the highest block, and in full mode the highest block
  does not go back once it was established. \<open>grown\<close> is the relation, an interpretation of
  \<open>poll_frame\<close>; \<open>later\<close> is what it means for the life of the listener.
\<close>

section \<open>The chain stays below the highest block\<close>

definition below :: "('bc, 'rc) blockListener \<Rightarrow> bool" where
  "below s \<longleftrightarrow> (\<forall>e \<in> set (canonicalChain s). bi_Number (el_val e) \<le> highestBlock s)"

lemma below_same: "same_chain s s' \<Longrightarrow> below s' = below s"
  by (simp add: below_def same_chainD)

lemma below_sub:
  "below s \<Longrightarrow> set (canonicalChain s') \<subseteq> set (canonicalChain s) \<Longrightarrow> highestBlock s \<le> highestBlock s' \<Longrightarrow>
     below s'"
  unfolding below_def by (meson order_trans subset_eq)

lemma set_upToElem: "set (upToElem e ch) \<subseteq> set ch"
  by (metis Un_upper1 set_append upToElem_after)

lemma below_removeAfter: "below s \<Longrightarrow> below (removeAfter e s)"
  by (erule below_sub) (simp_all add: removeAfter_def set_upToElem)

lemma below_trim: "below s \<Longrightarrow> below (trimToMonitoredHead s)"
  by (erule below_sub) (auto simp: trimToMonitoredHead_def dest: in_set_dropD)

lemma below_Init [simp]: "below (list_Init s)"
  by (simp add: below_def list_Init_def)

lemma below_PushBack:
  "list_PushBack b s = (e, s') \<Longrightarrow> below s \<Longrightarrow> bi_Number b \<le> highestBlock s \<Longrightarrow> below s'"
  by (auto simp: list_PushBack_def Let_def below_def)

lemma below_InsertAfter:
  assumes "list_InsertAfter b p s = (e, s')" and "below s" and "bi_Number b \<le> highestBlock s"
  shows "below s'"
proof -
  have "set (canonicalChain s) = set (upToElem p (canonicalChain s)) \<union> set (afterElem p (canonicalChain s))"
    by (metis set_append upToElem_after)
  with assms show ?thesis by (auto simp: list_InsertAfter_def Let_def below_def)
qed

text \<open>A pass of a rebuild records the highest block after it has appended, so in between the chain may
  reach above it.\<close>

lemma below_rebuildStep:
  assumes "rebuildStep E n ph np s = Inr (h, np', s')" and "below s"
  shows "below s'"
proof -
  from assms(1) obtain bi s0 where q: "retriedBlockQuery E n s = (Inr (Some bi), s0)"
    and ph: "ph = None \<or> hexEquals (bi_ParentHash bi) ph"
    by (auto simp: rebuildStep_def split: prod.splits sum.splits option.splits if_splits)
  obtain e s1 where push: "list_PushBack bi s0 = (e, s1)" by fastforce
  have s': "s' = fetchAndCacheBlockReceipts bi (checkAndSetHighestBlock bi s1)"
    using assms(1) q ph push by (auto simp: rebuildStep_def)
  have "below s0" using assms(2) retriedBlockQuery_same [OF q] by (simp add: below_same)
  then have "below (checkAndSetHighestBlock bi s1)"
    using push by (auto simp: below_def checkAndSetHighestBlock_fields list_PushBack_def Let_def le_max_iff_disj)
  then show ?thesis unfolding s' using below_same [OF fetchAndCacheBlockReceipts_same] by blast
qed

lemma below_rebuildLoop:
  assumes "rebuildLoop E n ph np s = Some (r, s')" and "below s"
  shows "below s'"
proof -
  let ?P = "\<lambda>E n ph np s rs. below s \<longrightarrow> below (snd rs)"
  have "?P E n ph np s (r, s')"
  proof (rule rebuildLoop.raw_induct [where P = ?P, OF _ assms(1)], intro impI)
    fix f :: "('a, 'b) env \<Rightarrow> u64 \<Rightarrow> hexbytes \<Rightarrow> elem option \<Rightarrow> ('a, 'b) blockListener \<Rightarrow>
        (elem option \<times> ('a, 'b) blockListener) option"
      and E n ph np s rs
    assume IH: "\<And>E n ph np s rs. f E n ph np s = Some rs \<Longrightarrow> ?P E n ph np s rs"
      and eq: "(case rebuildStep E n ph np s of Inl r \<Rightarrow> Some r
                | Inr c \<Rightarrow> f E (n + 1) (fst c) (fst (snd c)) (snd (snd c))) = Some rs"
      and b: "below s"
    show "below (snd rs)"
    proof (cases "rebuildStep E n ph np s")
      case (Inl x)
      with eq have "rebuildStep E n ph np s = Inl (fst rs, snd rs)" by simp
      with rebuildStep_done b show ?thesis by (metis below_same)
    next
      case (Inr c)
      obtain h np' t where c: "c = (h, np', t)" by (metis surj_pair)
      with below_rebuildStep [of E n ph np s h np' t] Inr b have "below t" by simp
      with IH eq Inr c show ?thesis by auto
    qed
  qed
  with assms(2) show ?thesis by simp
qed

lemma below_rebuild:
  assumes "rebuildCanonicalChain E s = Some (r, s')" and "below s"
  shows "below s'"
proof (cases E s rule: rebuildCanonicalChain_cases)
  case (none t)
  with assms show ?thesis by (simp add: below_same)
next
  case (valid t e)
  have "below t" using assms(2) below_same [OF valid(3)] by (simp add: below_removeAfter)
  with below_rebuildLoop [OF assms(1) [unfolded valid(1)]] show ?thesis .
next
  case (all t)
  with below_rebuildLoop [OF assms(1) [unfolded all(1)]] show ?thesis by simp
qed

lemma below_handleNewBlock:
  assumes run: "handleNewBlock E b a s = Some (r, s')" and s: "below s" "bi_Number b \<le> highestBlock s"
  shows "below s'"
proof (cases a)
  case None
  obtain e s1 where push: "list_PushBack b (list_Init (resetReceiptCache E s)) = (e, s1)" by fastforce
  have "below s1"
    by (rule below_PushBack [OF push])
       (use s(2) same_chainD(3) [OF resetReceiptCache_same [of s E]] in \<open>simp_all add: list_Init_def below_def\<close>)
  with run None push show ?thesis
    by (auto simp: handleNewBlock_def below_same [OF fetchAndCacheBlockReceipts_same] below_trim)
next
  case (Some p)
  obtain e s1 where ins: "list_InsertAfter b p s = (e, s1)" by fastforce
  let ?s2 = "trimToMonitoredHead (removeAfter e s1)"
  have s2: "below ?s2" using below_InsertAfter [OF ins s] by (intro below_trim below_removeAfter)
  have "rebuildCanonicalChain E s = Some (r, s') \<or> s' = fetchAndCacheBlockReceipts b ?s2 \<or>
      s' = fetchAndCacheBlockReceipts b (resetReceiptCache E ?s2)"
    using run Some ins by (auto simp: handleNewBlock_def Let_def split: if_splits)
  moreover have "below (fetchAndCacheBlockReceipts b t) = below t" "below (resetReceiptCache E t) = below t"
    for t :: "('a, 'b) blockListener"
    using below_same [OF fetchAndCacheBlockReceipts_same] below_same [OF resetReceiptCache_same] by blast+
  ultimately show ?thesis using s2 below_rebuild [OF _ s(1)] by metis
qed

lemma below_reconcile:
  assumes run: "reconcileCanonicalChain E b s = Some (r, s')" and s: "below s"
  shows "below s'"
proof -
  let ?s = "checkAndSetHighestBlock b s"
  have t: "below ?s" "bi_Number b \<le> highestBlock ?s"
    using s by (auto simp: below_def checkAndSetHighestBlock_fields le_max_iff_disj)
  have "below s'" if "reconcileLoop E b es ?s = Some (r, s')" for es
    using that
  proof (induction es)
    case Nil
    then show ?case using t by (auto dest: below_handleNewBlock)
  next
    case (Cons pos prevs)
    then show ?case using t by (auto split: if_splits dest: below_handleNewBlock)
  qed
  with run show ?thesis by (simp add: reconcileCanonicalChain_def Let_def)
qed

section \<open>Growth\<close>

definition grown :: "('bc, 'rc) blockListener \<Rightarrow> ('bc, 'rc) blockListener \<Rightarrow> bool" where
  "grown s s' \<longleftrightarrow>
     conf s' = conf s \<and> highestBlock s \<le> highestBlock s' \<and> (below s \<longrightarrow> below s')"

lemma grown_same: "same_chain s s' \<Longrightarrow> grown s s'"
  by (simp add: grown_def same_chainD below_same)

interpretation gp: poll_frame grown
proof
  show "grown s s'" if "reconcileCanonicalChain E b s = Some (r, s')"
    for E b r and s s' :: "('bc, 'rc) blockListener"
    using fx.frame_reconcile [OF that] below_reconcile [OF that] by (simp add: grown_def fixed_def)
qed (auto simp: grown_same, auto simp: grown_def below_def RemoveConsumer_def markStarted_def)

end
