(* ===== verification/ListenerHeight.thy ===== *)
theory ListenerHeight
  imports ListenerLifeProofs ChainHeight
begin

text \<open>
  The height over the life of the listener in full mode. Until the height is established there is no
  chain and no caller is told a height; from then on the highest block does not go back, and the
  canonical chain stays at or below it. \<open>later\<close> relates two moments of one life.
\<close>

definition heightKnown :: "('bc, 'rc) listenerLife \<Rightarrow> bool" where
  "heightKnown l \<longleftrightarrow> highestBlockSet (lf_bl l) \<or> lf_initialBlockHeightObtained l"

definition full_life :: "('bc, 'rc) listenerLife \<Rightarrow> bool" where
  "full_life l \<longleftrightarrow>
     cfg_ChainTrackingMode (conf (lf_bl l)) = ChainTrackingModeFull \<and> below (lf_bl l) \<and>
     (lf_loops l = [] \<or> Establishing \<in> set (lf_loops l) \<longrightarrow>
        \<not> highestBlockSet (lf_bl l) \<and> canonicalChain (lf_bl l) = []) \<and>
     (\<forall>n first p. Polling n first p \<in> set (lf_loops l) \<longrightarrow> pl_kind p \<noteq> HeadNumberPoller)"

definition later :: "('bc, 'rc) listenerLife \<Rightarrow> ('bc, 'rc) listenerLife \<Rightarrow> bool" where
  "later l l' \<longleftrightarrow>
     conf (lf_bl l') = conf (lf_bl l) \<and>
     (heightKnown l \<longrightarrow> heightKnown l' \<and> highestBlock (lf_bl l) \<le> highestBlock (lf_bl l'))"

lemma later_refl [simp, intro]: "later l l"
  by (simp add: later_def)

lemma later_trans [trans]: "later l m \<Longrightarrow> later m n \<Longrightarrow> later l n"
  by (auto simp: later_def)

text \<open>Steps that leave the chain and the height alone.\<close>

definition same_height :: "('bc, 'rc) blockListener \<Rightarrow> ('bc, 'rc) blockListener \<Rightarrow> bool" where
  "same_height s s' \<longleftrightarrow>
     conf s' = conf s \<and> canonicalChain s' = canonicalChain s \<and> highestBlock s' = highestBlock s \<and>
     highestBlockSet s' = highestBlockSet s"

lemma same_height_chain: "same_chain s s' \<Longrightarrow> same_height s s'"
  by (simp add: same_height_def same_chainD)

lemma full_quiet:
  assumes "full_life l" and "same_height (lf_bl l) (lf_bl l')" and "lf_loops l' = lf_loops l"
    and "lf_initialBlockHeightObtained l' = lf_initialBlockHeightObtained l"
  shows "full_life l' \<and> later l l'"
  using assms by (auto simp: full_life_def later_def heightKnown_def same_height_def below_def)

section \<open>The steps of the loop\<close>

lemma connectAndSubscribe_frame:
  "connectAndSubscribe B l = (r, l') \<Longrightarrow> same_chain (lf_bl l) (lf_bl l') \<and> lf_loops l' = lf_loops l \<and>
     lf_initialBlockHeightObtained l' = lf_initialBlockHeightObtained l"
  by (auto simp: connectAndSubscribe_def tickedLife_def Let_def same_chain_def ticked_def
      split: prod.splits option.splits if_splits sum.splits)

lemma establishAttempt_frame:
  assumes run: "establishAttempt E B l = ((retry, r), l')"
  shows "lf_loops l' = lf_loops l \<and>
    lf_initialBlockHeightObtained l' = lf_initialBlockHeightObtained l \<and>
    conf (lf_bl l') = conf (lf_bl l) \<and> canonicalChain (lf_bl l') = canonicalChain (lf_bl l) \<and>
    (retry \<longrightarrow> same_height (lf_bl l) (lf_bl l'))"
proof -
  obtain x l1 where con: "(if HasWebSocket (lf_rpc l) then connectAndSubscribe B l else (None, l)) = (x, l1)"
    by fastforce
  then have l1: "same_chain (lf_bl l) (lf_bl l1) \<and> lf_loops l1 = lf_loops l \<and>
      lf_initialBlockHeightObtained l1 = lf_initialBlockHeightObtained l"
    using connectAndSubscribe_frame [of B l x l1] by (auto split: if_splits)
  obtain q s where q: "queryBlockHeightFromRPC E (lf_bl l1) = (q, s)" by fastforce
  have s: "same_chain (lf_bl l) s"
    using l1 queryBlockHeightFromRPC_frame(1) [OF q] by (blast intro: same_chain_trans)
  have "conf (setHighestBlock h s) = conf s \<and> canonicalChain (setHighestBlock h s) = canonicalChain s" for h
    by (simp add: setHighestBlock_def setBlockHeightMetric_def split: option.split)
  with run con q l1 s same_height_chain [OF s] same_height_chain [of "lf_bl l" "lf_bl l1"] show ?thesis
    by (auto simp: establishAttempt_def same_chainD split: option.splits sum.splits)
qed

lemma life_established_full:
  assumes ok: "life_ok E l" and full: "full_life l"
    and i: "i < length (lf_loops l)" "lf_loops l ! i = Establishing"
    and run: "establishAttempt E B l = ((retry, r), l1)"
  shows "full_life (setLoop i Building (closeInitialBlockHeightObtained l1)) \<and>
    later l (setLoop i Building (closeInitialBlockHeightObtained l1))"
proof -
  from only_loop [OF ok i(1)] i have l: "lf_loops l = [Establishing]" "i = 0" by auto
  with ok full have no: "\<not> heightKnown l" "canonicalChain (lf_bl l) = []"
    by (auto simp: life_ok_def loopAgrees_def full_life_def heightKnown_def)
  from establishAttempt_frame [OF run] l no full show ?thesis
    by (auto simp: full_life_def later_def below_def setLoop_def closeInitialBlockHeightObtained_def
        panicked_def split: option.split)
qed

lemma newBlockPoller_kind:
  "newBlockPoller E s = Some (p, s') \<Longrightarrow> cfg_ChainTrackingMode (conf s) = ChainTrackingModeFull \<Longrightarrow>
     pl_kind p \<noteq> HeadNumberPoller"
  by (auto simp: newBlockPoller_def split: if_splits option.splits)

text \<open>The loop has passed the establishment, and goes on with a poller of full mode.\<close>

lemma full_loop_goes_on:
  assumes full: "full_life l" and l: "lf_loops l = [st]" "st \<noteq> Establishing" and ok: "life_ok E l"
    and s: "grown (lf_bl l) s" and p: "pl_kind p \<noteq> HeadNumberPoller"
  shows "full_life (l\<lparr>lf_bl := s, lf_loops := [Polling n first p]\<rparr>) \<and>
    later l (l\<lparr>lf_bl := s, lf_loops := [Polling n first p]\<rparr>)"
proof -
  from ok l have "lf_initialBlockHeightObtained l" by (auto simp: life_ok_def loopAgrees_def)
  with full s p show ?thesis
    by (auto simp: full_life_def later_def heightKnown_def grown_def)
qed

lemma life_built_full:
  assumes ok: "life_ok E l" and full: "full_life l"
    and i: "i < length (lf_loops l)" "lf_loops l ! i = Building"
    and run: "newBlockPoller E (lf_bl l) = Some (p, s)"
  shows "full_life (setLoop i (Polling 0 True p) (l\<lparr>lf_bl := s\<rparr>)) \<and>
    later l (setLoop i (Polling 0 True p) (l\<lparr>lf_bl := s\<rparr>))"
proof -
  from only_loop [OF ok i(1)] i have l: "lf_loops l = [Building]" "i = 0" by auto
  have "pl_kind p \<noteq> HeadNumberPoller"
    using newBlockPoller_kind [OF run] full by (simp add: full_life_def)
  from full_loop_goes_on [OF full l(1) _ ok gp.frame_newBlockPoller [OF run] this] l
  show ?thesis by (simp add: setLoop_def)
qed

lemma life_polled_full:
  assumes ok: "life_ok E l" and full: "full_life l"
    and i: "i < length (lf_loops l)" "lf_loops l ! i = Polling n first p"
    and run: "poll E p (lf_bl l) = Some res"
  shows "full_life (afterPoll i res n l) \<and> later l (afterPoll i res n l)"
proof -
  obtain err p' s where res: "res = (err, p', s)" by (cases res)
  from only_loop [OF ok i(1)] i have l: "lf_loops l = [Polling n first p]" "i = 0" by auto
  with full have "pl_kind p \<noteq> HeadNumberPoller" by (auto simp: full_life_def)
  with gp.frame_poll [OF run [unfolded res]] have "grown (lf_bl l) s" "pl_kind p' \<noteq> HeadNumberPoller"
    by auto
  from full_loop_goes_on [OF full l(1) _ ok this] l show ?thesis
    by (simp add: res afterPoll_def setLoop_def)
qed

lemma life_exit_full:
  assumes ok: "life_ok E l" and full: "full_life l"
    and i: "i < length (lf_loops l)" "lf_loops l ! i = Polling n first p"
  shows "full_life (closeListenLoopDone (setLoop i Exited l)) \<and>
    later l (closeListenLoopDone (setLoop i Exited l))"
proof -
  from only_loop [OF ok i(1)] i have l: "lf_loops l = [Polling n first p]" "i = 0" by auto
  with full show ?thesis
    by (auto simp: full_life_def later_def heightKnown_def closeListenLoopDone_def setLoop_def
        panicked_def split: option.split)
qed

section \<open>Every step\<close>

lemma life_step_full:
  assumes step: "life_step rw E B l l'" and ok: "life_ok E l" and full: "full_life l"
  shows "full_life l' \<and> later l l'"
  using step
proof (cases rule: life_step.cases)
  case life_start
  with ok full show ?thesis
    by (auto simp: checkAndStartListenerLoop_def life_ok_def loopAgrees_def full_life_def later_def heightKnown_def)
next
  case (life_retry i r)
  from establishAttempt_frame [OF life_retry(3)] show ?thesis by (intro full_quiet [OF full]) auto
next
  case (life_established i retry r l1)
  with life_established_full [OF ok full] show ?thesis by blast
next
  case (life_built i p s)
  with life_built_full [OF ok full] show ?thesis by blast
next
  case (life_polled i n first p d w l1 res)
  from wait_frame [OF life_polled(5,4)] obtain b where l1: "l1 = l\<lparr>lf_newHeadsTap := b\<rparr>" by blast
  then have "life_ok E l1" "full_life l1" "later l l1"
    using life_ok_tap [OF ok] full_quiet [OF full, of l1] by (simp_all add: same_height_def)
  with life_polled_full [of E l1 i n first p res] life_polled l1 show ?thesis
    by (auto intro: later_trans)
next
  case (life_exit i n first p d w l1)
  from wait_frame [OF life_exit(5,4)] obtain b where l1: "l1 = l\<lparr>lf_newHeadsTap := b\<rparr>" by blast
  then have "life_ok E l1" "full_life l1" "later l l1"
    using life_ok_tap [OF ok] full_quiet [OF full, of l1] by (simp_all add: same_height_def)
  with life_exit_full [of E l1 i n first p] life_exit l1 show ?thesis by (auto intro: later_trans)
next
  case life_tap
  then show ?thesis using full_quiet [OF full, of l'] by (simp add: newHeadsNotification_def same_height_def)
next
  case (life_query_number b ch ph bh q s)
  from same_height_chain [OF GetBlockInfoByNumber_same [OF life_query_number(2)]] life_query_number(1)
  show ?thesis using full_quiet [OF full, of l'] by simp
next
  case (life_query_hash h q s)
  from same_height_chain [OF GetBlockInfoByHash_same [OF life_query_hash(2)]] life_query_hash(1)
  show ?thesis using full_quiet [OF full, of l'] by simp
next
  case (life_fetched brr)
  with full_quiet [OF full, of l'] show ?thesis by (simp add: same_height_chain completeFetch_same)
qed (use full_quiet [OF full, of l'] in \<open>simp_all add: same_height_def AddConsumer_def RemoveConsumer_def\<close>)

lemma life_run_full:
  "life_run rw E B l l' \<Longrightarrow> life_ok E l \<Longrightarrow> full_life l \<Longrightarrow> full_life l' \<and> life_ok E l' \<and> later l l'"
proof (induction rule: rtranclp_induct)
  case (step m n)
  then show ?case using life_step_full life_step_ok by (blast intro: later_trans)
qed simp

lemma newListenerLife_full:
  "cfg_ChainTrackingMode (conf s) = ChainTrackingModeFull \<Longrightarrow> \<not> highestBlockSet s \<Longrightarrow> canonicalChain s = [] \<Longrightarrow>
     full_life (newListenerLife s c)"
  by (simp add: full_life_def newListenerLife_def below_def)

text \<open>A caller is told a height only when one is known.\<close>

lemma answer_known:
  "(h, True) \<in> set (GetHighestBlock_answers callerDone l) \<Longrightarrow> heightKnown l \<and> h = highestBlock (lf_bl l)"
  by (auto simp: GetHighestBlock_answers_def waitForBlockHeightInit_def heightKnown_def
      GetHighestBlock_def split: if_splits)

end
