(* ===== verification/SystemProofs.thy ===== *)
theory SystemProofs
  imports PollRefinement ListenerHeight
begin

text \<open>
  The block listener and the scan of an event stream together. The environment of a stream answers
  at a tick what the block listener holds at that moment of its life: \<open>served_by\<close> ties the two
  models, and the invariants of the listener discharge what the scan assumes of its snapshots.
\<close>

section \<open>A history of the listener\<close>

definition life_history ::
  "RetryWrapper \<Rightarrow> ('bc, 'rc) env \<Rightarrow> wsBehaviour \<Rightarrow> (nat \<Rightarrow> ('bc, 'rc) listenerLife) \<Rightarrow> bool" where
  "life_history rw E B hist \<longleftrightarrow> (\<forall>t. life_run rw E B (hist t) (hist (Suc t)))"

definition served_by :: "(nat \<Rightarrow> ('bc, 'rc) listenerLife) \<Rightarrow> 'tc connEnv \<Rightarrow> bool" where
  "served_by hist C \<longleftrightarrow>
     (\<forall>t. ce_headChain C t = SnapshotMonitoredHeadChain (lf_bl (hist t))) \<and>
     (\<forall>t h. ce_highestBlock C t = Some h \<longrightarrow>
        (\<exists>callerDone. (h, True) \<in> set (GetHighestBlock_answers callerDone (hist t))))"

lemma served_byD:
  assumes "served_by hist C"
  shows "ce_headChain C t = SnapshotMonitoredHeadChain (lf_bl (hist t))"
    and "ce_highestBlock C t = Some h \<Longrightarrow> heightKnown (hist t) \<and> h = highestBlock (lf_bl (hist t))"
  using assms by (auto simp: served_by_def dest: answer_known)

lemma history_later:
  assumes "life_history rw E B hist" and "life_ok E (hist 0)" and "full_life (hist 0)"
  shows "life_ok E (hist t) \<and> full_life (hist t)" and "s \<le> t \<Longrightarrow> later (hist s) (hist t)"
proof -
  have step: "life_run rw E B (hist t) (hist (Suc t))" for t
    using assms(1) by (simp add: life_history_def)
  show ok: "life_ok E (hist t) \<and> full_life (hist t)" for t
  proof (induction t)
    case (Suc t)
    with life_run_full [OF step] show ?case by blast
  qed (use assms in simp)
  show "s \<le> t \<Longrightarrow> later (hist s) (hist t)"
  proof (induction t rule: dec_induct)
    case (step n)
    with life_run_full [OF \<open>\<And>t. life_run rw E B (hist t) (hist (Suc t))\<close>] ok show ?case
      by (blast intro: later_trans)
  qed simp
qed

section \<open>The snapshots of a history\<close>

abbreviation highest :: "('bc, 'rc) listenerLife \<Rightarrow> int" where
  "highest l \<equiv> uint (highestBlock (lf_bl l))"

abbreviation windowLength :: "('bc, 'rc) listenerLife \<Rightarrow> int" where
  "windowLength l \<equiv> cfg_MonitoredHeadLength (conf (lf_bl l))"

text \<open>The snapshot reaches down to the base of the monitored window, as after a seeding.\<close>

definition filled :: "('bc, 'rc) listenerLife \<Rightarrow> bool" where
  "filled l \<longleftrightarrow>
     (case SnapshotMonitoredHeadChain (lf_bl l) of
        [] \<Rightarrow> False
      | b # _ \<Rightarrow> num b \<le> max 0 (highest l - windowLength l + 1))"

lemma snapshot_facts:
  assumes "life_ok E l" and "full_life l" and "highest l < maxInt64"
  shows "linked (SnapshotMonitoredHeadChain (lf_bl l))" and "fits_all (SnapshotMonitoredHeadChain (lf_bl l))"
    and "b \<in> set (SnapshotMonitoredHeadChain (lf_bl l)) \<Longrightarrow> bi_Hash b \<noteq> None"
proof -
  have ok: "chain_ok (lf_bl l)" using assms(1) by (simp add: life_ok_def listener_ok_def)
  then show "linked (SnapshotMonitoredHeadChain (lf_bl l))"
    by (simp add: chain_ok_def SnapshotMonitoredHeadChain_def chainBlocks_def)
  from ok show "b \<in> set (SnapshotMonitoredHeadChain (lf_bl l)) \<Longrightarrow> bi_Hash b \<noteq> None"
    by (auto simp: chain_ok_def has_hashes_def SnapshotMonitoredHeadChain_def)
  have "fitsInt64 (bi_Number x)" if "bi_Number x \<le> highestBlock (lf_bl l)" for x
    using that assms(3) by (simp add: fitsInt64_def maxInt64_def word_le_def)
  then show "fits_all (SnapshotMonitoredHeadChain (lf_bl l))"
    using assms(2) by (auto simp: full_life_def below_def fits_all_def SnapshotMonitoredHeadChain_def)
qed

lemma filledD:
  "filled l \<Longrightarrow> SnapshotMonitoredHeadChain (lf_bl l) \<noteq> [] \<and>
     num (hd (SnapshotMonitoredHeadChain (lf_bl l))) \<le> max 0 (highest l - windowLength l + 1)"
  by (cases "SnapshotMonitoredHeadChain (lf_bl l)") (auto simp: filled_def)

lemma stableOf_le:
  assumes "0 \<le> head" "head < maxInt64" "0 < gap" "gap < maxInt64"
  shows "stableOf gap head = max 0 (head - gap)"
proof -
  have "i64 (head - gap) = head - gap" using assms by (intro i64_id) (auto simp: maxInt64_def)
  then show ?thesis by (simp add: stableOf_def Let_def)
qed

text \<open>An event that was read from the history before \<open>T\<close> sees the window of \<open>T\<close>.\<close>

lemma history_sees_window:
  assumes hist: "life_history rw E B hist" "life_ok E (hist 0)" "full_life (hist 0)"
    and served: "served_by hist C" and gap: "gap = windowLength (hist 0)" "gap < maxInt64"
    and high: "highest (hist T) < maxInt64" and "t < T" and "filled (hist (Suc t))"
    and "readBy C gap t e"
  shows "sees_window (max 1 (highest (hist T) - gap + 1)) e"
proof -
  note later = history_later [OF hist]
  obtain h where h: "ce_highestBlock C t = Some h" using assms(10) by (cases e) auto
  from served_byD(2) [OF served h] have known: "heightKnown (hist t)" "h = highestBlock (lf_bl (hist t))" by auto
  have l1: "later (hist t) (hist (Suc t))" "later (hist (Suc t)) (hist T)" using \<open>t < T\<close> by (simp_all add: later)
  with known have le: "uint h \<le> highest (hist (Suc t))" "highest (hist (Suc t)) \<le> highest (hist T)"
    by (auto simp: later_def word_le_def)
  have gap': "windowLength (hist (Suc t)) = gap" "0 < gap"
    using later(2) [of 0 "Suc t"] later(1) [of 0] gap(1)
    by (auto simp: later_def life_ok_def listener_ok_def)
  let ?hc = "SnapshotMonitoredHeadChain (lf_bl (hist (Suc t)))"
  have hc: "linked ?hc" "fits_all ?hc"
    using snapshot_facts [of E "hist (Suc t)"] later(1) le high by auto
  have hd: "?hc \<noteq> []" "num (hd ?hc) \<le> max 1 (highest (hist T) - gap + 1)"
    using filledD [OF assms(9)] gap' le(2) by auto
  have "stableOf gap (uint h) < max 1 (highest (hist T) - gap + 1)"
    using stableOf_le [of "uint h" gap] le high gap'(2) gap(2) by auto
  with assms(10) h hc hd le high show ?thesis
    by (cases e) (auto simp: served_byD(1) [OF served])
qed

section \<open>The scan covers the chain of the listener\<close>

lemma history_scan_covers:
  assumes hist: "life_history rw E B hist" "life_ok E (hist 0)" "full_life (hist 0)"
    and served: "served_by hist C" and gap: "gap = windowLength (hist 0)" "gap < maxInt64"
    and high: "highest (hist T) < maxInt64" and filled: "filled (hist T)"
    and scan: "full_scan f0 tr ps" "0 \<le> f0" "\<forall>e \<in> set tr. \<exists>t < T. readBy C gap t e \<and> filled (hist (Suc t))"
    and chk: "checkReorgRewind (ce_headChain C T) ps = Inr ps'"
    and b: "b \<in> set (SnapshotMonitoredHeadChain (lf_bl (hist T)))" "0 < num b" "highest (hist T) - gap < num b"
      "f0 \<le> num b" "num b < ps_fromBlock ps'"
  shows "\<exists>e \<in> set tr. \<exists>b'. scans e b' \<and> bi_Number b' = bi_Number b \<and> hexEquals (bi_Hash b) (bi_Hash b')"
proof -
  let ?w = "max 1 (highest (hist T) - gap + 1)" and ?hc = "SnapshotMonitoredHeadChain (lf_bl (hist T))"
  have sees: "\<forall>e \<in> set tr. sees_window ?w e"
    using scan(3) history_sees_window [OF hist served gap high] by blast
  have ok: "life_ok E (hist T)" "full_life (hist T)" using history_later(1) [OF hist, of T] by auto
  have len: "windowLength (hist T) = gap"
    using history_later(2) [OF hist, of 0 T] gap(1) by (simp add: later_def)
  note sn = snapshot_facts [OF ok(1,2) high]
  have hd: "?hc \<noteq> []" "num (hd ?hc) \<le> ?w" using filledD [OF filled] len by auto
  show ?thesis
    by (rule full_scan_covers_window [OF scan(1,2) sn(1,2) hd sees _ b(1) sn(3) [OF b(1)] b(4) _ b(5)])
       (use chk b(2,3) in \<open>simp_all add: served_byD(1) [OF served]\<close>)
qed

end
