(* ===== verification/ListenerProperties.thy ===== *)
theory ListenerProperties
  imports ListenerLifeProofs PollerProperties
begin

text \<open>
  The property of the life of the block listener, and the run on which it is applied.
\<close>

text \<open>C29. The goroutines of the listener never race to a panic and keep what their channels promise.
  In every interleaving of the callers, the notifications of new heads, the cancellation, the
  client and the loop: the loop is started at most once, and subscribes at most once; no channel
  is closed twice; the loop ends only when the context has ended; a caller that is told a highest
  block is told one that was obtained, unless the context has ended; no caller waits for the
  height any more once the loop has gone past it; \<open>WaitClosed\<close> returns before the context has ended
  only if there is no loop; and the canonical chain stays linked.\<close>

theorem listener_goroutines_are_safe:
  assumes "listener_ok E s0" and "client_ok c" and "life_run rw E B (newListenerLife s0 c) l"
  shows "lf_panic l = None \<and> length (lf_loops l) \<le> 1 \<and> lf_subListeners l \<le> 1 \<and>
    (Exited \<in> set (lf_loops l) \<longrightarrow> lf_ctxDone l) \<and>
    ((h, True) \<in> set (GetHighestBlock_answers callerDone l) \<longrightarrow>
       h = highestBlock (lf_bl l) \<and> (highestBlockSet (lf_bl l) \<or> lf_ctxDone l)) \<and>
    (lf_loops l \<noteq> [] \<and> Establishing \<notin> set (lf_loops l) \<longrightarrow> GetHighestBlock_answers False l \<noteq> []) \<and>
    (WaitClosed_returns l \<longrightarrow> lf_loops l = [] \<or> lf_ctxDone l) \<and>
    linked (SnapshotMonitoredHeadChain (lf_bl l))"
proof -
  from life_run_ok [OF assms(3) newListenerLife_ok [OF assms(1,2)]] have ok: "life_ok E l" .
  then have "listener_ok E (lf_bl l)" by (simp add: life_ok_def)
  then have "linked (SnapshotMonitoredHeadChain (lf_bl l))"
    by (simp add: listener_ok_def chain_ok_def SnapshotMonitoredHeadChain_def chainBlocks_def)
  with ok show ?thesis
    by (auto simp: life_ok_def loopAgrees_def GetHighestBlock_answers_def waitForBlockHeightInit_def
        GetHighestBlock_def WaitClosed_returns_def)
qed

text \<open>A run: a consumer starts the loop, the node is asked for its height, the head number poller is
  built, and the listener is started.\<close>

definition exHttpClient :: client where
  "exHttpClient = \<lparr>mode = RoutingModeAuto, wsBackend = False, wsCtxDone = False, closed = False,
     wsConnected = False\<rparr>"

definition exWs :: wsBehaviour where
  "exWs = \<lparr>wb_Connect = (\<lambda>t. None), wb_Subscribe = (\<lambda>t s. Inr ())\<rparr>"

definition exRetry :: RetryWrapper where
  "exRetry = \<lparr>InitialDelay = 100, MaximumDelay = 1000, scale = (\<lambda>d. 2 * d)\<rparr>"

text \<open>The state once the poller is built.\<close>

definition exLifePolling ::
  "(exBc, exRc) blockListener \<Rightarrow> (exBc, exRc) blockListener \<Rightarrow> poller \<Rightarrow> (exBc, exRc) listenerLife" where
  "exLifePolling s0 s p =
     (newListenerLife s0 exHttpClient)\<lparr>lf_bl := s, lf_listenLoopDone := Some False,
        lf_initialBlockHeightObtained := True, lf_loops := [Polling 0 True p]\<rparr>"

lemma exLife_started:
  obtains s1 where "same_chain s0 s1"
    and "\<And>p s. newBlockPoller (exEnv 3) (setHighestBlock 3 s1) = Some (p, s) \<Longrightarrow>
      life_run exRetry (exEnv 3) exWs (newListenerLife s0 exHttpClient) (exLifePolling s0 s p)"
proof -
  let ?l0 = "newListenerLife s0 exHttpClient"
  let ?l1 = "?l0\<lparr>lf_listenLoopDone := Some False, lf_loops := [Establishing]\<rparr>"
  have l1: "checkAndStartListenerLoop ?l0 = ?l1"
    by (simp add: checkAndStartListenerLoop_def newListenerLife_def)
  obtain s1 where q: "queryBlockHeightFromRPC (exEnv 3) s0 = (Inr 3, s1)"
    by (simp add: queryBlockHeightFromRPC_def exEnv_def Let_def)
  let ?s2 = "setHighestBlock 3 s1"
  let ?l2 = "?l1\<lparr>lf_bl := ?s2, lf_initialBlockHeightObtained := True, lf_loops := [Building]\<rparr>"
  have "establishAttempt (exEnv 3) exWs ?l1 = ((False, Inr ()), ?l1\<lparr>lf_bl := ?s2\<rparr>)"
    using q by (simp add: establishAttempt_def HasWebSocket_def exHttpClient_def newListenerLife_def)
  from life_established [OF _ _ this, of 0 exRetry]
  have step2: "life_step exRetry (exEnv 3) exWs ?l1 ?l2"
    by (simp add: setLoop_def closeInitialBlockHeightObtained_def newListenerLife_def)
  have step1: "life_step exRetry (exEnv 3) exWs ?l0 ?l1"
    using life_start [of exRetry "exEnv 3" exWs ?l0] by (simp only: l1)
  have step3: "life_step exRetry (exEnv 3) exWs ?l2 (exLifePolling s0 s p)"
    if "newBlockPoller (exEnv 3) ?s2 = Some (p, s)" for p s
    using life_built [of 0 ?l2 "exEnv 3" p s exRetry exWs] that
    by (simp add: setLoop_def newListenerLife_def exLifePolling_def)
  show thesis
    by (rule that [OF queryBlockHeightFromRPC_frame(1) [OF q]])
       (meson step1 step2 step3 rtranclp.rtrancl_into_rtrancl rtranclp.rtrancl_refl)
qed

lemma exLife_run:
  "\<exists>s p. life_run exRetry (exEnv 3) exWs (newListenerLife exLightStart exHttpClient)
       (exLifePolling exLightStart s p) \<and> highestBlockSet s \<and> highestBlock s = 3"
proof -
  obtain s1 where same: "same_chain exLightStart s1" and run:
    "\<And>p s. newBlockPoller (exEnv 3) (setHighestBlock 3 s1) = Some (p, s) \<Longrightarrow>
      life_run exRetry (exEnv 3) exWs (newListenerLife exLightStart exHttpClient) (exLifePolling exLightStart s p)"
    by (rule exLife_started [of exLightStart]) blast
  let ?s2 = "setHighestBlock 3 s1"
  have s2: "highestBlockSet ?s2 \<and> highestBlock ?s2 = 3 \<and>
      cfg_ChainTrackingMode (conf ?s2) = ChainTrackingModeLight"
    using same_chainD(1) [OF same]
    by (simp add: setHighestBlock_def setBlockHeightMetric_def exLightStart_def split: option.split)
  then obtain p where "newBlockPoller (exEnv 3) ?s2 = Some (p, markStarted ?s2)"
    by (simp add: newBlockPoller_def)
  from run [OF this] s2 show ?thesis by (auto simp: markStarted_def)
qed

theorem listener_goroutines_are_safe_witness:
  "\<exists>l. life_run exRetry (exEnv 3) exWs (newListenerLife exLightStart exHttpClient) l \<and>
     lf_panic l = None \<and> GetHighestBlock_answers False l = [(3, True)] \<and>
     \<not> WaitClosed_returns l \<and> linked (SnapshotMonitoredHeadChain (lf_bl l))"
proof -
  from exLife_run obtain s p where run: "life_run exRetry (exEnv 3) exWs
      (newListenerLife exLightStart exHttpClient) (exLifePolling exLightStart s p)"
    (is "life_run _ _ _ _ ?l") and s: "highestBlockSet s" "highestBlock s = 3" by blast
  have "client_ok exHttpClient" by (simp add: client_ok_def exHttpClient_def)
  from listener_goroutines_are_safe [OF exLightStart_ok this run, of 3 False]
  have "lf_panic ?l = None" "linked (SnapshotMonitoredHeadChain (lf_bl ?l))" by blast+
  moreover have "GetHighestBlock_answers False ?l = [(3, True)]" "\<not> WaitClosed_returns ?l"
    using s by (simp_all add: GetHighestBlock_answers_def waitForBlockHeightInit_def
        GetHighestBlock_def WaitClosed_returns_def newListenerLife_def exLifePolling_def)
  ultimately show ?thesis using run by blast
qed

end
