(* ===== verification/LightScan.thy ===== *)
theory LightScan
  imports PollRefinement
begin

text \<open>
  The steady state with client-side polling in light mode, against its specification: a run of
  sweeps, each of which scans from the committed base, delivers what is new, and commits the base up
  to the stable threshold. What a run commits, and how often it delivers a version of a block.
\<close>

section \<open>Runs of sweeps\<close>

datatype sweep = Sweep (sw_from: int64) (sw_to: int64) (sw_head: int64) (sw_stable: int64)
  (sw_logs: "LogJSONRPC list") (sw_new: "LogJSONRPC list")

inductive light_run :: "int64 \<Rightarrow> sweep list \<Rightarrow> getLogsPollState \<Rightarrow> bool" for f0 where
  run_start: "light_run f0 [] (ps_reset f0 ps)"
| run_sweep: "light_run f0 tr ps \<Longrightarrow> f = ps_fromBlock ps \<Longrightarrow> f \<le> t \<Longrightarrow> t \<le> head \<Longrightarrow>
     new = filterDelivered ps logs \<Longrightarrow> newBase = max f (min stab (i64 (t + 1))) \<Longrightarrow>
     advanceRescan new newBase ps = Inr ps' \<Longrightarrow>
     light_run f0 (tr @ [Sweep f t head stab logs new]) ps'"

text \<open>A sweep of a pass that read the head at tick \<open>t\<close>, and queried the logs two ticks later.\<close>

definition sweptBy :: "'tc connEnv \<Rightarrow> int64 \<Rightarrow> nat \<Rightarrow> sweep \<Rightarrow> bool" where
  "sweptBy E gap t sw \<longleftrightarrow>
     sw_stable sw = stableOf gap (sw_head sw) \<and>
     (\<exists>h. ce_highestBlock E t = Some h \<and> uint h = sw_head sw) \<and>
     (\<exists>ag es. ce_getLogs E (t + 2) (rangeFilter ag es (sw_from sw) (sw_to sw)) = Inr (sw_logs sw))"

text \<open>What \<open>eth_getLogs\<close> promises: no log lies below the range, and the hash of a block identifies it.\<close>

definition node_logs :: "'tc connEnv \<Rightarrow> bool" where
  "node_logs E \<longleftrightarrow>
     (\<forall>t fl f logs. ce_getLogs E t fl = Inr logs \<and> lf_FromBlock fl = Some f \<longrightarrow>
        (\<forall>l \<in> set logs. f \<le> uint (lg_BlockNumber l))) \<and>
     versions_bind {l. \<exists>t fl logs. ce_getLogs E t fl = Inr logs \<and> l \<in> set logs}"

lemma rangeFilter_from [simp]: "lf_FromBlock (rangeFilter ag es f t) = Some f"
  by (simp add: rangeFilter_def)

lemma advanceRescan_from: "advanceRescan new b ps = Inr ps' \<Longrightarrow> ps_fromBlock ps' = b"
  by (auto simp: advanceRescan_def split: sum.splits)

lemma i64_wrap: "2 ^ 63 \<le> x \<Longrightarrow> x < 2 ^ 64 + 2 ^ 63 \<Longrightarrow> i64 x = x - 2 ^ 64"
  using minus_mod_self2 [of "x + 2 ^ 63" "2 ^ 64"] by (simp add: i64_def)

section \<open>What is committed\<close>

lemma light_run_base: "light_run f0 tr ps \<Longrightarrow> f0 \<le> ps_fromBlock ps"
  by (induction rule: light_run.induct) (auto simp: ps_reset_def dest: advanceRescan_from)

text \<open>A block below the base was swept when it lay below the stable threshold.\<close>

lemma light_run_commits:
  assumes "light_run f0 tr ps" and "0 \<le> f0" and "f0 \<le> n" and "n < ps_fromBlock ps"
  shows "\<exists>sw \<in> set tr. sw_from sw \<le> n \<and> n \<le> sw_to sw \<and> n < sw_stable sw"
  using assms(1,4)
proof (induction rule: light_run.induct)
  case (run_start ps)
  with assms(3) show ?case by (simp add: ps_reset_def)
next
  case (run_sweep tr ps f t head new logs newBase stab ps')
  show ?case
  proof (cases "n < f")
    case True
    with run_sweep show ?thesis by auto
  next
    case False
    have "0 \<le> t" using light_run_base [OF run_sweep.hyps(1)] assms(2) run_sweep.hyps(2,3) by simp
    with i64_le [of "t + 1"] have "i64 (t + 1) \<le> t + 1" by simp
    with False run_sweep.prems advanceRescan_from [OF run_sweep.hyps(7)] run_sweep.hyps(6)
    show ?thesis by auto
  qed
qed

section \<open>What is delivered\<close>

lemma light_run_scan:
  assumes "light_run f0 tr ps" and "\<forall>sw \<in> set tr. \<forall>l \<in> set (sw_logs sw). sw_from sw \<le> uint (lg_BlockNumber l)"
  shows "light_scan (map (\<lambda>sw. (sw_logs sw, sw_new sw)) tr) ps"
  using assms
proof (induction rule: light_run.induct)
  case (run_start ps)
  show ?case by (simp add: light_scan.light_start)
next
  case (run_sweep tr ps f t head new logs newBase stab ps')
  then have "light_scan (map (\<lambda>sw. (sw_logs sw, sw_new sw)) tr) ps" by simp
  from light_scan.light_sweep [OF this, of logs newBase ps'] run_sweep show ?case by simp
qed

text \<open>Sweeps deliver different versions, and every answer was delivered by the end.\<close>

abbreviation versions :: "LogJSONRPC list \<Rightarrow> 8 word list set" where
  "versions logs \<equiv> version ` set logs"

lemma light_scan_disjoint:
  assumes "light_scan tr ps" and "versions_bind (answered tr)"
  shows "sorted_wrt (\<lambda>a b. versions (snd a) \<inter> versions (snd b) = {}) tr"
  using assms
proof (induction rule: light_scan.induct)
  case (light_sweep tr ps logs newBase ps')
  have b: "versions_bind (answered tr \<union> set logs)" using light_sweep.prems by simp
  then have "versions_bind (answered tr)" by (rule versions_bind_sub) auto
  with light_sweep.IH have "sorted_wrt (\<lambda>a b. versions (snd a) \<inter> versions (snd b) = {}) tr" .
  moreover have "versions (snd a) \<inter> versions (filterDelivered ps logs) = {}" if "a \<in> set tr" for a
  proof -
    have "set (snd a) \<subseteq> delivered_by tr" using that by (cases a) (auto simp: delivered_by_def)
    moreover have "version d \<noteq> version l"
      if "l \<in> set (filterDelivered ps logs)" "d \<in> delivered_by tr" for l d
    proof -
      have "l \<in> set logs" using that(1) by (simp only: filterDelivered_mem)
      from light_sweep_new [OF light_sweep.hyps(1) b light_sweep.hyps(2) this] that(1)
      have "version l \<notin> version ` delivered_by tr" by (rule iffD1)
      moreover have "version d \<in> version ` delivered_by tr" using that(2) by (rule imageI)
      ultimately show ?thesis by metis
    qed
    ultimately show ?thesis by (auto intro!: Int_emptyI dest!: subsetD)
  qed
  ultimately show ?case by (auto simp: sorted_wrt_append)
qed simp

lemma light_scan_delivers:
  assumes "light_scan tr ps" and "versions_bind (answered tr)"
  shows "version ` answered tr \<subseteq> version ` delivered_by tr"
  using assms
proof (induction rule: light_scan.induct)
  case (light_sweep tr ps logs newBase ps')
  have b: "versions_bind (answered tr \<union> set logs)" using light_sweep.prems by simp
  then have "versions_bind (answered tr)" by (rule versions_bind_sub) auto
  with light_sweep.IH have "version ` answered tr \<subseteq> version ` delivered_by tr" .
  moreover have "version l \<in> version ` delivered_by tr \<union> versions (filterDelivered ps logs)"
    if "l \<in> set logs" for l
    using light_sweep_new [OF light_sweep.hyps(1) b light_sweep.hyps(2) that] by auto
  ultimately show ?case by (auto simp: image_Un)
qed simp

lemma once_in_disjoint:
  assumes "sorted_wrt (\<lambda>a b. f a \<inter> f b = {}) xs" and "v \<in> (\<Union>x \<in> set xs. f x)"
  shows "\<exists>!i. i < length xs \<and> v \<in> f (xs ! i)"
proof -
  obtain i where i: "i < length xs" "v \<in> f (xs ! i)" using assms(2) by (auto simp: in_set_conv_nth)
  have no: "\<not> (v \<in> f (xs ! j) \<and> v \<in> f (xs ! k))" if "j < k" "k < length xs" for j k
    using assms(1) that by (auto simp: sorted_wrt_iff_nth_less)
  show ?thesis
  proof (rule ex1I [of _ i])
    fix k assume "k < length xs \<and> v \<in> f (xs ! k)"
    with no [of i k] no [of k i] i show "k = i" by (metis nat_neq_iff)
  qed (use i in simp)
qed

lemma sweptBy_answer:
  assumes "sweptBy E gap t sw"
  obtains t fl where "ce_getLogs E t fl = Inr (sw_logs sw)" "lf_FromBlock fl = Some (sw_from sw)"
  using assms unfolding sweptBy_def by (blast intro: rangeFilter_from)

lemma swept_logs:
  assumes "node_logs E" and "\<forall>sw \<in> set tr. \<exists>t. sweptBy E gap t sw"
  shows "\<forall>sw \<in> set tr. \<forall>l \<in> set (sw_logs sw). sw_from sw \<le> uint (lg_BlockNumber l)"
    and "versions_bind (\<Union>sw \<in> set tr. set (sw_logs sw))"
proof -
  let ?all = "{l. \<exists>t fl logs. ce_getLogs E t fl = Inr logs \<and> l \<in> set logs}"
  have "sw_from sw \<le> uint (lg_BlockNumber l) \<and> l \<in> ?all" if "sw \<in> set tr" "l \<in> set (sw_logs sw)" for sw l
  proof -
    from assms(2) that(1) obtain t where "sweptBy E gap t sw" by blast
    then obtain t fl where "ce_getLogs E t fl = Inr (sw_logs sw)" "lf_FromBlock fl = Some (sw_from sw)"
      by (rule sweptBy_answer)
    with assms(1) that(2) show ?thesis unfolding node_logs_def by blast
  qed
  note ans = this
  from ans show "\<forall>sw \<in> set tr. \<forall>l \<in> set (sw_logs sw). sw_from sw \<le> uint (lg_BlockNumber l)" by simp
  have "versions_bind ?all" using assms(1) by (simp only: node_logs_def)
  then show "versions_bind (\<Union>sw \<in> set tr. set (sw_logs sw))"
    by (rule versions_bind_sub) (use ans in auto)
qed

lemma light_run_delivers_once:
  assumes run: "light_run f0 tr ps" and "node_logs E" and "\<forall>sw \<in> set tr. \<exists>t. sweptBy E gap t sw"
    and "sw \<in> set tr" and "l \<in> set (sw_logs sw)"
  shows "\<exists>!i. i < length tr \<and> version l \<in> versions (sw_new (tr ! i))"
proof -
  let ?tr = "map (\<lambda>sw. (sw_logs sw, sw_new sw)) tr"
  note c = swept_logs [OF assms(2,3)]
  have ans: "answered ?tr = (\<Union>sw \<in> set tr. set (sw_logs sw))"
    and del: "delivered_by ?tr = (\<Union>sw \<in> set tr. set (sw_new sw))"
    by (auto simp: answered_def delivered_by_def)
  from light_run_scan [OF run c(1)] have scan: "light_scan ?tr ps" .
  have b: "versions_bind (answered ?tr)" using c(2) by (simp add: ans)
  have "version l \<in> version ` answered ?tr" using assms(4,5) unfolding ans by blast
  with light_scan_delivers [OF scan b] have "version l \<in> (\<Union>sw \<in> set tr. versions (sw_new sw))"
    unfolding del by blast
  moreover have "sorted_wrt (\<lambda>a b. versions (sw_new a) \<inter> versions (sw_new b) = {}) tr"
    using light_scan_disjoint [OF scan b] by (simp add: sorted_wrt_map)
  ultimately show ?thesis by (rule once_in_disjoint [rotated])
qed

section \<open>The getLogs loop refines the run\<close>

lemma getLogsDeliver_light:
  assumes "light_run f0 tr (lp_poll lp)" and "lightMode c"
    and "ps_fromBlock (lp_poll lp) \<le> t" and "t \<le> head"
    and "getLogsDeliver E hc stab t caughtUp logs (lp, es, c) = Inr (r, lp', es', c')"
  shows "lp_poll lp' = lp_poll lp \<or>
    light_run f0 (tr @ [Sweep (ps_fromBlock (lp_poll lp)) t head stab logs
                          (filterDelivered (lp_poll lp) logs)]) (lp_poll lp')"
proof -
  let ?f = "ps_fromBlock (lp_poll lp)" and ?new = "filterDelivered (lp_poll lp) logs"
  have base: "(let h = if stab < i64 (t + 1) then stab else i64 (t + 1) in if h < ?f then ?f else h) =
      max ?f (min stab (i64 (t + 1)))" by (auto simp: Let_def)
  have "lp_poll lp' = lp_poll lp \<or>
      advanceRescan ?new (max ?f (min stab (i64 (t + 1)))) (lp_poll lp) = Inr (lp_poll lp')"
    using assms(2,5) unfolding base [symmetric]
    by (auto simp: getLogsDeliver_def failPass_def endPass_def Let_def
        split: prod.splits sum.splits bool.splits if_splits)
  then show ?thesis using light_run.run_sweep [OF assms(1) refl assms(3,4) refl refl] by auto
qed

text \<open>A page that starts at the stable threshold or above it reaches the head.\<close>

lemma page_covers_window:
  assumes "connector_ok c" and "lightMode c" and "0 \<le> head" and "head < 2 ^ 63"
    and "stableThreshold head c \<le> f" and "f \<le> pageEnd f c"
  shows "head \<le> pageEnd f c"
proof -
  let ?p = "c_catchupPageSize c" and ?g = "c_checkpointBlockGap c"
  have ok: "0 < ?g" "?g + 1 \<le> ?p" "?p < 2 ^ 63" using assms(1,2) by (auto simp: connector_ok_def)
  have "i64 (head - ?g) = head - ?g" using assms(3,4) ok by (intro i64_id) auto
  then have f: "head - ?g \<le> f" "0 \<le> f"
    using assms(5) by (auto simp: stableThreshold_def Let_def split: if_splits)
  have e: "pageEnd f c = i64 (f + ?p - 1)"
    using mod_diff_left_eq [of "f + ?p + 2 ^ 63" "2 ^ 64 :: int" 1]
    by (simp add: pageEnd_def getCatchupPageSize_def i64_def algebra_simps mod_simps)
  show ?thesis
  proof (cases "f + ?p - 1 < 2 ^ 63")
    case True
    then have "i64 (f + ?p - 1) = f + ?p - 1" using f ok by (intro i64_id) auto
    with f ok show ?thesis by (simp add: e)
  next
    case False
    have "f < 2 ^ 63" using assms(6) i64_range [of "f + ?p - 1"] by (simp add: e)
    with False ok have "i64 (f + ?p - 1) = f + ?p - 1 - 2 ^ 64" by (intro i64_wrap) auto
    with assms(6) ok \<open>f < 2 ^ 63\<close> f show ?thesis by (simp add: e)
  qed
qed

lemma getLogsScan_light:
  assumes "light_run f0 tr (lp_poll lp)" and "lightMode c"
    and "getLogsScan E head (lp, es, c) = Inr (r, lp', es', c')"
    and "ce_highestBlock E t = Some h" "uint h = head" "c_tick c = Suc t" and fits: "fitsInt64 h"
  shows "lp_poll lp' = lp_poll lp \<or>
    (\<exists>sw. sweptBy E (c_checkpointBlockGap c) t sw \<and> light_run f0 (tr @ [sw]) (lp_poll lp') \<and>
       (connector_ok c \<and> sw_stable sw \<le> sw_from sw \<longrightarrow> sw_to sw = sw_head sw))"
proof -
  let ?stab = "stableThreshold head c" and ?f = "ps_fromBlock (lp_poll lp)"
  let ?last = "pageEnd ?f c"
  let ?t = "if head > ?last then ?last else head"
  show ?thesis
  proof (cases "i64 (?stab - ?f) > c_catchupThreshold c \<or> \<not> ?f \<le> ?t")
    case True
    with assms(2,3) show ?thesis
      by (auto simp: getLogsScan_def endPass_def steadyStateScanCeiling_def Let_def split: if_splits)
  next
    case False
    then have page: "getLogsPage E [] ?stab ?f ?t (\<not> head > ?last) (lp, es, c_ticked c) = Inr (r, lp', es', c')"
      using assms(2,3) by (simp add: getLogsScan_def steadyStateScanCeiling_def Let_def split: if_splits)
    show ?thesis
    proof (cases "getBlockRangeLogs E (lp_ag lp) es ?f ?t (c_ticked c)")
      case (Pair ans c1)
      then have l1: "lightMode c1" using assms(2) by (auto simp: getBlockRangeLogs_def split: sum.splits)
      show ?thesis
      proof (cases ans)
        case (Inl e)
        with page Pair show ?thesis
          by (auto simp: getLogsPage_def failPass_def split: prod.splits bool.splits)
      next
        case (Inr logs)
        let ?sw = "Sweep ?f ?t head ?stab logs (filterDelivered (lp_poll lp) logs)"
        have "getLogsDeliver E [] ?stab ?t (\<not> head > ?last) logs (lp, es, c1) = Inr (r, lp', es', c')"
          using page Pair Inr by (simp add: getLogsPage_def)
        from getLogsDeliver_light [OF assms(1) l1 _ _ this, of head] False
        have "lp_poll lp' = lp_poll lp \<or> light_run f0 (tr @ [?sw]) (lp_poll lp')" by auto
        moreover have "sweptBy E (c_checkpointBlockGap c) t ?sw"
          using Pair Inr assms(4-6)
          by (auto simp: sweptBy_def stableOf_def stableThreshold_def getBlockRangeLogs_def
              intro!: exI [of _ "lp_ag lp"] exI [of _ es] split: sum.splits)
        moreover have "?t = head" if "connector_ok c" "?stab \<le> ?f"
          using page_covers_window [OF that(1) assms(2) _ _ that(2)] False fits assms(5)
          by (auto simp: fitsInt64_def maxInt64_def split: if_splits)
        ultimately show ?thesis by (auto intro!: exI [of _ ?sw])
      qed
    qed
  qed
qed

lemma connector_ok_ticked [simp]: "connector_ok (c_ticked c) = connector_ok c"
  by (simp add: connector_ok_def)

lemma getLogsPass_light:
  assumes "light_run f0 tr (pollStart E lp es)" and "lightMode c"
    and "leadGroupSteadyStateGetLogsPass E (lp, es, c) = Inr (r, lp', es', c')"
  shows "lp_poll lp' = lp_poll lp \<or> lp_poll lp' = pollStart E lp es \<or>
    (\<exists>sw. sweptBy E (c_checkpointBlockGap c) (Suc (c_tick c)) sw \<and> light_run f0 (tr @ [sw]) (lp_poll lp') \<and>
       (connector_ok c \<and> sw_stable sw \<le> sw_from sw \<longrightarrow> sw_to sw = sw_head sw))"
  using getLogsPass_runs [OF assms(3)]
proof (elim disjE exE conjE)
  fix h lp0
  assume h: "ce_highestBlock E (Suc (c_tick c)) = Some h" and lp0: "lp_poll lp0 = pollStart E lp es"
    and fit: "fitsInt64 h"
    and run: "getLogsScan E (uint h) (lp0, es, c_ticked (c_ticked c)) = Inr (r, lp', es', c')"
  from getLogsScan_light [OF _ _ run h refl _ fit] assms(1,2) lp0 show ?thesis by simp
qed simp

end
