(* ===== verification/ScanProperties.thy ===== *)
theory ScanProperties
  imports EventExamples SystemProofs ListenerProperties LightScan
begin

text \<open>
  The properties of the steady state of an event stream: its scan of the chain, on its own and over
  the life of the block listener that answers it, the delivery of each block version, and the marks
  it leaves behind.
\<close>

section \<open>The scan\<close>

text \<open>C21. The getLogs loop refines its scan, in both modes. In full mode, a pass of the steady-state
  loop with client-side polling takes the poll position by a step of \<open>full_scan\<close>: it checks for a
  re-org against the snapshot of the canonical chain, and then scans a page that neither starts
  behind the position nor ends above the ceiling, or no page at all when the query, the enrichment
  or the delivery failed. In light mode the step is a sweep of \<open>light_run\<close>: a page from the committed
  base, of which what is new is delivered and what is stable is committed; a page that starts at the
  stable threshold or above covers all of the unstable window. The head, the stable threshold, the
  snapshot and the logs of the step are the answers at successive ticks of the pass, the head
  first.\<close>

theorem getLogs_pass_refines_scan:
  assumes "leadGroupSteadyStateGetLogsPass E (lp, es, c) = Inr (r, lp', es', c')"
  shows "(\<not> lightMode c \<and> full_scan f0 tr (pollStart E lp es) \<longrightarrow>
      lp_poll lp' = lp_poll lp \<or> full_scan f0 tr (lp_poll lp') \<or>
      (\<exists>e. readBy E (c_checkpointBlockGap c) (Suc (c_tick c)) e \<and> full_scan f0 (tr @ [e]) (lp_poll lp'))) \<and>
    (lightMode c \<and> light_run f0 sws (pollStart E lp es) \<longrightarrow>
      lp_poll lp' = lp_poll lp \<or> lp_poll lp' = pollStart E lp es \<or>
      (\<exists>sw. sweptBy E (c_checkpointBlockGap c) (Suc (c_tick c)) sw \<and> light_run f0 (sws @ [sw]) (lp_poll lp') \<and>
         (connector_ok c \<and> sw_stable sw \<le> sw_from sw \<longrightarrow> sw_to sw = sw_head sw)))"
  using getLogsPass_scan [OF _ _ assms] getLogsPass_light [OF _ _ assms] by blast

text \<open>A lead group five blocks below the head.\<close>

definition exNear :: eventStream where
  "exNear = \<lparr>es_listeners = [(7, 0)], es_heap = [exListener 7 92 False], es_updateCount = 1,
     es_headBlock = 92, es_catchup = False, es_events = [], es_catchupLoops = []\<rparr>"

lemma exNear_pass:
  "\<exists>lp' es' c'. leadGroupSteadyStateGetLogsPass exConnEnv (enterLoop, exNear, exConn) =
     Inr (LoopAgain, lp', es', c') \<and> ps_fromBlock (lp_poll lp') = 96 \<and>
     es_heap es' = [exListener 7 95 False] \<and> es_headBlock es' = 95"
  by (simp add: leadGroupSteadyStateGetLogsPass_def loopDelayExits_def DoFailureDelay_def delay_exits_def
      enterLoop_def rebuildAggregate_def buildReuseLeadGroupListener_def exNear_def leadGroup_def
      buildAggregatedListener_def addToAggregate_def exListener_def exFilter_def exConnEnv_def exConn_def
      getLogsScan_def getLogsPage_def getLogsDeliver_def stableThreshold_def earliestHWM_def getHWMBlock_def
      lightMode_def checkReorgRewind_def steadyStateScanCeiling_def pageEnd_def getCatchupPageSize_def
      getBlockRangeLogs_def filterEnrichSort_def dispatchSetHWMCheckExit_def advance_def endPass_def
      waitPollingInterval_def updListener_def moveHWMForwards_def storeHeadBlockForward_def
      fitsInt64_def maxInt64_def i64_def ps_reset_def c_ticked_def Let_def)

text \<open>The same group in light mode: the sweep reaches the head, and commits up to the threshold.\<close>

lemma exNear_light_pass:
  "\<exists>lp' es' c'. leadGroupSteadyStateGetLogsPass exConnEnv (enterLoop, exNear, exLightConn) =
     Inr (LoopAgain, lp', es', c') \<and> ps_fromBlock (lp_poll lp') = 95 \<and> lp_poll lp' \<noteq> lp_poll enterLoop"
  by (simp add: leadGroupSteadyStateGetLogsPass_def loopDelayExits_def DoFailureDelay_def delay_exits_def
      enterLoop_def rebuildAggregate_def buildReuseLeadGroupListener_def exNear_def leadGroup_def
      buildAggregatedListener_def addToAggregate_def exListener_def exFilter_def exConnEnv_def exConn_def
      exLightConn_def getLogsScan_def getLogsPage_def getLogsDeliver_def stableThreshold_def earliestHWM_def
      getHWMBlock_def lightMode_def steadyStateScanCeiling_def pageEnd_def getCatchupPageSize_def
      getBlockRangeLogs_def filterEnrichSort_def dispatchSetHWMCheckExit_def advanceRescan_def
      filterDelivered_def endPass_def waitPollingInterval_def updListener_def moveHWMForwards_def
      storeHeadBlockForward_def fitsInt64_def maxInt64_def i64_def ps_reset_def c_ticked_def Let_def)

lemma exNear_pollStart: "pollStart exConnEnv enterLoop exNear = ps_reset 92 (lp_poll enterLoop)"
  by (simp add: pollStart_def rebuildAggregate_def buildReuseLeadGroupListener_def enterLoop_def exNear_def
      leadGroup_def buildAggregatedListener_spec exListener_def earliestHWM_def getHWMBlock_def)

lemma exConn_modes [simp]: "\<not> lightMode exConn" "lightMode exLightConn"
  by (simp_all add: lightMode_def exConn_def exLightConn_def)

theorem getLogs_pass_refines_scan_witness:
  "(\<exists>ps e. ps_fromBlock ps = 96 \<and>
      (full_scan 92 [] ps \<or> readBy exConnEnv 5 1 e \<and> full_scan 92 [e] ps)) \<and>
   (\<exists>ps sw. ps_fromBlock ps = 95 \<and> sweptBy exConnEnv 5 1 sw \<and> light_run 92 [sw] ps)"
proof
  have c: "c_checkpointBlockGap exConn = 5" "c_tick exConn = 0" "c_checkpointBlockGap exLightConn = 5"
    "c_tick exLightConn = 0" by (simp_all add: exConn_def exLightConn_def)
  from exNear_pass obtain lp' es' c' where p:
    "leadGroupSteadyStateGetLogsPass exConnEnv (enterLoop, exNear, exConn) = Inr (LoopAgain, lp', es', c')"
    "ps_fromBlock (lp_poll lp') = 96" by blast
  have "full_scan 92 [] (pollStart exConnEnv enterLoop exNear)"
    unfolding exNear_pollStart by (rule full_scan.scan_start)
  with getLogs_pass_refines_scan [OF p(1), of 92 "[]"] p(2) c
  show "\<exists>ps e. ps_fromBlock ps = 96 \<and>
      (full_scan 92 [] ps \<or> readBy exConnEnv 5 1 e \<and> full_scan 92 [e] ps)"
    by (auto simp: enterLoop_def)
  from exNear_light_pass obtain lp' es' c' where p:
    "leadGroupSteadyStateGetLogsPass exConnEnv (enterLoop, exNear, exLightConn) = Inr (LoopAgain, lp', es', c')"
    "ps_fromBlock (lp_poll lp') = 95" "lp_poll lp' \<noteq> lp_poll enterLoop" by blast
  have "light_run 92 [] (pollStart exConnEnv enterLoop exNear)"
    unfolding exNear_pollStart by (rule light_run.run_start)
  moreover have "lp_poll lp' \<noteq> pollStart exConnEnv enterLoop exNear"
    using p(2) by (auto simp: exNear_pollStart ps_reset_def)
  ultimately show "\<exists>ps sw. ps_fromBlock ps = 95 \<and> sweptBy exConnEnv 5 1 sw \<and> light_run 92 [sw] ps"
    using getLogs_pass_refines_scan [OF p(1), of 92 _ "[]"] p(2,3) c by auto
qed

text \<open>C22. Every unconfirmed block was scanned in its current version. The block listener lives any
  history of its own, with callers, cancellations, re-orgs and failures of the node, and its heads
  and snapshots are what the stream reads, each snapshot after its head. As long as the snapshots that
  are read reach down to the confirmation window (as after a seeding), and however re-orgs interrupt
  the scan, when the check of a cycle has passed, every block in the confirmation window of the listener's current canonical chain
  that lies behind the poll position was covered by an earlier page, at a moment when the snapshot
  held the very version of the block (its number and hash) that it holds now.\<close>

theorem scanned_blocks_are_current:
  assumes "listener_ok E s0" and "client_ok cl"
    and "cfg_ChainTrackingMode (conf s0) = ChainTrackingModeFull"
    and "\<not> highestBlockSet s0" and "canonicalChain s0 = []"
    and "life_run rw E B (newListenerLife s0 cl) (hist 0)" and "life_history rw E B hist"
    and "served_by hist C"
    and "gap = windowLength (hist 0)" and "gap < maxInt64" and "highest (hist T) < maxInt64"
    and "filled (hist T)" and "full_scan f0 tr ps" and "0 \<le> f0"
    and "\<forall>e \<in> set tr. \<exists>t < T. readBy C gap t e \<and> filled (hist (Suc t))"
    and "checkReorgRewind (ce_headChain C T) ps = Inr ps'"
    and "b \<in> set (SnapshotMonitoredHeadChain (lf_bl (hist T)))" and "0 < num b"
    and "highest (hist T) - gap < num b" and "f0 \<le> num b" and "num b < ps_fromBlock ps'"
  shows "\<exists>e \<in> set tr. \<exists>b'. scans e b' \<and> bi_Number b' = bi_Number b \<and> hexEquals (bi_Hash b) (bi_Hash b')"
proof -
  from life_run_full [OF assms(6) newListenerLife_ok [OF assms(1,2)] newListenerLife_full [OF assms(3-5)]]
  have "life_ok E (hist 0)" "full_life (hist 0)" by auto
  from history_scan_covers [OF assms(7) this assms(8-21)] show ?thesis .
qed

text \<open>A listener that has seeded the chain of a node of four blocks, and then stays as it is; its
  answers; and a stream that scans the four blocks.\<close>

definition exFullStart :: "(exBc, exRc) blockListener" where
  "exFullStart = (exState [])\<lparr>isStarted := False\<rparr>"

lemma exFullStart_ok: "listener_ok (exEnv 3) exFullStart"
  using exState_ok [of "[]"]
  by (simp add: listener_ok_def exEnv_contract exFullStart_def chain_ok_def ids_ok_def has_hashes_def
      chainBlocks_def)

definition exHead :: "BlockInfoJSONRPC list" where
  "exHead = [exInfo 0, exInfo 1, exInfo 2, exInfo 3]"

lemma exFull_run:
  "\<exists>s p. life_run exRetry (exEnv 3) exWs (newListenerLife exFullStart exHttpClient)
       (exLifePolling exFullStart s p) \<and> highestBlock s = 3 \<and> conf s = conf (exState []) \<and>
     SnapshotMonitoredHeadChain s = exHead"
proof -
  obtain s1 where same: "same_chain exFullStart s1" and run:
    "\<And>p s. newBlockPoller (exEnv 3) (setHighestBlock 3 s1) = Some (p, s) \<Longrightarrow>
      life_run exRetry (exEnv 3) exWs (newListenerLife exFullStart exHttpClient) (exLifePolling exFullStart s p)"
    by (rule exLife_started [of exFullStart]) blast
  let ?s2 = "setHighestBlock 3 s1"
  have s2: "ids_ok ?s2" "canonicalChain ?s2 = []" "highestBlockSet ?s2" "highestBlock ?s2 = 3"
    "monitoredHeadLength ?s2 = 50" "conf ?s2 = conf (exState [])"
    using same by (auto simp: same_chain_def ids_ok_def setHighestBlock_def setBlockHeightMetric_def
        exFullStart_def exState_def split: option.split)
  then have "seedStart ?s2 = 0" by (simp add: seedStart_def)
  with seedMonitoredHead_stable [OF exEnv_stable _ s2(1-4)] s2(5,6) obtain s where
    "seedMonitoredHead (exEnv 3) ?s2 = Some s" "conf s = conf (exState [])" "highestBlock s = 3"
    "chainBlocks s = segment exBlock False 0 3" by auto
  moreover have "segment exBlock False 0 3 = exHead"
    by (simp add: segment_def exHead_def upt_rec)
  ultimately show ?thesis
    using run [of "\<lparr>pl_kind = BlockFilterPoller, pl_gapPotential = True, pl_filter = ''''\<rparr>" s] s2(6)
    by (auto simp: newBlockPoller_def SnapshotMonitoredHeadChain_def chainBlocks_def)
qed

definition exSystemEnv :: "exTc connEnv" where
  "exSystemEnv = exConnEnv\<lparr>ce_highestBlock := (\<lambda>t. Some 3), ce_headChain := (\<lambda>t. exHead)\<rparr>"

lemma exHead_facts: "fits_all exHead" "linked exHead"
  by (simp_all add: exHead_def fitsInt64_def maxInt64_def bi_IsParentOf_def hexEquals_def)

lemma exHead_scan:
  "full_scan 0 [ScanPage 0 3 exHead 3 0] \<lparr>ps_fromBlock = 4, ps_polledChain = exHead, ps_deliveredBlocks = []\<rparr>"
proof -
  let ?ps = "ps_reset 0 \<lparr>ps_fromBlock = 0, ps_polledChain = [], ps_deliveredBlocks = []\<rparr>"
  have "checkReorgRewind exHead ?ps = Inr ?ps"
    by (simp add: checkReorgRewind_def ps_reset_def)
  moreover have "full_scan 0 [] ?ps" by (rule full_scan.scan_start)
  moreover have "steadyStateScanCeiling False 3 0 exHead = Inr 3"
    by (simp add: steadyStateScanCeiling_def exHead_def fitsInt64_def maxInt64_def)
  moreover have "advance exHead 3 ?ps =
      Inr \<lparr>ps_fromBlock = 4, ps_polledChain = exHead, ps_deliveredBlocks = []\<rparr>"
    by (simp add: advance_fits [OF exHead_facts(1)] ps_reset_def i64_def) (simp add: exHead_def)
  ultimately show ?thesis
    using full_scan.scan_page [of 0 "[]" ?ps exHead ?ps 3 3 0 3] by (simp add: ps_reset_def)
qed

lemma exHead_check:
  "checkReorgRewind exHead \<lparr>ps_fromBlock = 4, ps_polledChain = exHead, ps_deliveredBlocks = []\<rparr> =
     Inr \<lparr>ps_fromBlock = 4, ps_polledChain = exHead, ps_deliveredBlocks = []\<rparr>"
proof -
  have "\<forall>b \<in> set exHead. agrees exHead b"
    by (simp add: exHead_def agrees_def hexEquals_def)
  then have "dropWhile (agrees exHead) exHead = []" by simp
  moreover have "dropWhile (\<lambda>p. num p < num (hd exHead)) exHead = exHead" by (simp add: exHead_def)
  ultimately show ?thesis
    by (simp add: checkReorgRewind_fits exHead_facts rewound_def del: dropWhile_eq_Nil_conv)
qed

theorem scanned_blocks_are_current_witness:
  "\<exists>l b'. life_run exRetry (exEnv 3) exWs (newListenerLife exFullStart exHttpClient) l \<and>
     SnapshotMonitoredHeadChain (lf_bl l) = exHead \<and>
     scans (ScanPage 0 3 exHead 3 0) b' \<and> bi_Number b' = 2 \<and> hexEquals (exHash 2) (bi_Hash b')"
proof -
  from exFull_run obtain s p where run: "life_run exRetry (exEnv 3) exWs
      (newListenerLife exFullStart exHttpClient) (exLifePolling exFullStart s p)"
    (is "life_run _ _ _ _ ?l") and s: "highestBlock s = 3" "conf s = conf (exState [])"
    "SnapshotMonitoredHeadChain s = exHead" by blast
  have start: "cfg_ChainTrackingMode (conf exFullStart) = ChainTrackingModeFull"
    "\<not> highestBlockSet exFullStart" "canonicalChain exFullStart = []"
    by (simp_all add: exFullStart_def exState_def)
  have cl: "client_ok exHttpClient" by (simp add: client_ok_def exHttpClient_def)
  have served: "served_by (\<lambda>t. ?l) exSystemEnv"
    using s by (auto simp: served_by_def exSystemEnv_def exLifePolling_def GetHighestBlock_answers_def
        waitForBlockHeightInit_def GetHighestBlock_def)
  have filled: "filled ?l"
    using s by (simp add: filled_def exLifePolling_def exHead_def)
  have life: "life_history exRetry (exEnv 3) exWs (\<lambda>t. ?l)" by (simp add: life_history_def)
  have read: "readBy exSystemEnv 50 0 (ScanPage 0 3 exHead 3 0)"
    by (simp add: exSystemEnv_def stableOf_def i64_def)
  have chk: "checkReorgRewind (ce_headChain exSystemEnv 1)
      \<lparr>ps_fromBlock = 4, ps_polledChain = exHead, ps_deliveredBlocks = []\<rparr> =
      Inr \<lparr>ps_fromBlock = 4, ps_polledChain = exHead, ps_deliveredBlocks = []\<rparr>"
    by (simp add: exSystemEnv_def exHead_check)
  have gap: "50 = windowLength ?l" "(50 :: int) < maxInt64" "highest ?l < maxInt64"
    using s by (simp_all add: exLifePolling_def maxInt64_def)
  have reads: "\<forall>e \<in> set [ScanPage 0 3 exHead 3 0]. \<exists>t < 1. readBy exSystemEnv 50 t e \<and> filled ?l"
    using read filled by simp
  have b: "exInfo 2 \<in> set (SnapshotMonitoredHeadChain (lf_bl ?l))" "0 < num (exInfo 2)"
    "highest ?l - 50 < num (exInfo 2)" "0 \<le> num (exInfo 2)" "num (exInfo 2) < 4"
    using s by (simp_all add: exLifePolling_def exHead_def)
  from scanned_blocks_are_current [OF exFullStart_ok cl start run life served gap filled exHead_scan
      order_refl reads chk b(1-4)] b(5)
  obtain b' where "scans (ScanPage 0 3 exHead 3 0) b'" "bi_Number b' = 2" "hexEquals (exHash 2) (bi_Hash b')"
    by auto
  moreover have "SnapshotMonitoredHeadChain (lf_bl ?l) = exHead" using s by (simp add: exLifePolling_def)
  ultimately show ?thesis using run by blast
qed

text \<open>C23. In light mode, each version of a block is delivered once. Across any sequence of sweeps over
  the unstable window, each with its own answer of the node, a log of a new answer is passed on for
  delivery if and only if no log of the same version of its block (the same block hash) was
  delivered by an earlier sweep: re-delivery after a re-org, and no duplicates without one.\<close>

theorem each_block_version_delivered_once:
  assumes "light_scan tr ps" and "versions_bind (answered tr \<union> set logs)"
    and "\<forall>l \<in> set logs. ps_fromBlock ps \<le> uint (lg_BlockNumber l)" and "l \<in> set logs"
  shows "l \<in> set (filterDelivered ps logs) \<longleftrightarrow> version l \<notin> version ` delivered_by tr"
  by (rule light_sweep_new [OF assms])

theorem each_block_version_delivered_once_witness:
  "\<exists>ps. light_scan [([exLog 50], [exLog 50])] ps \<and>
    exLog 50 \<notin> set (filterDelivered ps [exLog 50, exLog 51]) \<and>
    exLog 51 \<in> set (filterDelivered ps [exLog 50, exLog 51])"
proof -
  let ?ps = "ps_reset 40 \<lparr>ps_fromBlock = 0, ps_polledChain = [], ps_deliveredBlocks = []\<rparr>"
  let ?ps2 = "?ps\<lparr>ps_deliveredBlocks := [([50], 50)]\<rparr>"
  have "advanceRescan (filterDelivered ?ps [exLog 50]) 40 ?ps = Inr ?ps2"
    by (simp add: advanceRescan_def filterDelivered_def ps_reset_def exLog_def fitsInt64_def maxInt64_def)
  from light_scan.light_sweep [OF light_scan.light_start _ _ this]
  have scan: "light_scan [([exLog 50], [exLog 50])] ?ps2"
    by (simp add: filterDelivered_def ps_reset_def exLog_def)
  have v: "versions_bind (answered [([exLog 50], [exLog 50])] \<union> set [exLog 50, exLog 51])"
    by (simp add: versions_bind_def answered_def exLog_def)
  have f: "\<forall>l \<in> set [exLog 50, exLog 51]. ps_fromBlock ?ps2 \<le> uint (lg_BlockNumber l)"
    by (simp add: ps_reset_def exLog_def)
  from each_block_version_delivered_once [OF scan v f, of "exLog 50"]
    each_block_version_delivered_once [OF scan v f, of "exLog 51"]
  have "exLog 50 \<notin> set (filterDelivered ?ps2 [exLog 50, exLog 51])"
    "exLog 51 \<in> set (filterDelivered ?ps2 [exLog 50, exLog 51])"
    by (simp_all add: delivered_by_def exLog_def)
  with scan show ?thesis by blast
qed

text \<open>C24. The steady state never marks an unstable block as done. A pass of either steady-state loop
  raises the high water marks of its listeners, and the head of the stream, at most to the stable
  threshold of the head that it read, although it scans beyond it: after a restart from the
  checkpoints the unstable window is scanned again. In light mode, where the head may go back, it
  raises them at most to the position that was committed already.\<close>

theorem checkpoints_stay_stable:
  assumes "steadyStatePass E (lp, es, c) = Inr (r, lp', es', c')"
  shows "raised_to (let stable = stableThreshold (headRead E c) c in
      if lightMode c then max stable (ps_fromBlock (pollStart E lp es)) else stable) es es'"
  using steadyStatePass_raised [OF assms] by (simp add: markLimit_def Let_def)

theorem checkpoints_stay_stable_witness:
  "\<exists>lp' es' c'. steadyStatePass exConnEnv (enterLoop, exNear, exConn) = Inr (LoopAgain, lp', es', c') \<and>
    ps_fromBlock (lp_poll lp') = 96 \<and> raised_to 95 exNear es'"
proof -
  from exNear_pass obtain lp' es' c' where p:
    "leadGroupSteadyStateGetLogsPass exConnEnv (enterLoop, exNear, exConn) = Inr (LoopAgain, lp', es', c')"
    "ps_fromBlock (lp_poll lp') = 96" by blast
  then have s: "steadyStatePass exConnEnv (enterLoop, exNear, exConn) = Inr (LoopAgain, lp', es', c')"
    by (simp add: steadyStatePass_def exConn_def)
  have "stableThreshold (headRead exConnEnv exConn) exConn = 95"
    by (simp add: stableThreshold_def headRead_def exConnEnv_def exConn_def i64_def)
  with checkpoints_stay_stable [OF s] s p(2) show ?thesis by simp
qed







end
