(* ===== verification/ConnectorProperties.thy ===== *)
theory ConnectorProperties
  imports EventExamples RpcClient
begin

text \<open>
  The properties of the connector: its configuration, the texts that it reads and writes, the retry
  delay and the RPC client.
\<close>

section \<open>The page size of catch-up\<close>

lemma downscales_ok: "connector_ok c \<Longrightarrow> connector_ok ((downscaleCatchupPageSize ^^ n) c)"
  by (induction n) (simp_all add: downscale_ok)

lemma downscale_fixed:
  assumes "connector_ok d" and "c_catchupPageSize d = smallestPage d"
  shows "c_catchupPageSize (downscaleCatchupPageSize d) = c_catchupPageSize d"
  using assms connector_ok_floor [OF assms(1)]
  by (auto simp: downscaleCatchupPageSize_def getCatchupPageSize_def smallestPage_def connector_ok_def Let_def)

text \<open>Repeated reductions end at the smallest page of the mode, and stay there.\<close>

lemma page_size_reaches_minimum:
  assumes "connector_ok c"
  shows "\<exists>n. \<forall>k \<ge> n. c_catchupPageSize ((downscaleCatchupPageSize ^^ k) c) =
    (if lightMode c then c_checkpointBlockGap c + 1 else 1)"
proof -
  from downscale_reaches_smallest [OF assms] obtain n where
    n: "c_catchupPageSize ((downscaleCatchupPageSize ^^ n) c) = smallestPage c" by blast
  have min: "smallestPage ((downscaleCatchupPageSize ^^ k) c) = smallestPage c" for k
    by (induction k) simp_all
  have "c_catchupPageSize ((downscaleCatchupPageSize ^^ (n + j)) c) = smallestPage c" for j
  proof (induction j)
    case (Suc j)
    let ?d = "(downscaleCatchupPageSize ^^ (n + j)) c"
    have "connector_ok ?d" using assms by (rule downscales_ok)
    then have "c_catchupPageSize (downscaleCatchupPageSize ?d) = c_catchupPageSize ?d"
      using Suc min [of "n + j"] by (intro downscale_fixed) simp_all
    with Suc show ?case by simp
  qed (simp add: n)
  then show ?thesis unfolding smallestPage_def by (metis le_Suc_ex)
qed

text \<open>C25. The page size is always usable. Every connector that the constructor returns has a page of at
  least one block, a catch-up threshold of at least a page and, in light mode, a page that covers
  the whole unstable window; the block listener has the same modes and window; no number of
  reductions of the page at run time breaks any of this; and the reductions come to an end, at one
  block or in light mode at the unstable window and one block more.\<close>

theorem page_size_stays_usable:
  assumes "NewEthereumConnectorWithRPC cf blockNumber = Inr (c, bl)"
    and "cf_EventsCatchupPageSize cf < 2 ^ 63" and "cf_EventsCheckpointBlockGap cf < 2 ^ 63 - 1"
  shows "connector_ok ((downscaleCatchupPageSize ^^ n) c) \<and>
    GetMonitoredHeadLength bl = c_checkpointBlockGap c \<and>
    cfg_ChainTrackingMode (conf bl) = c_chainTrackingMode c \<and>
    cfg_FilterPollingMode (conf bl) = c_eventFilterPollingMode c \<and>
    (\<exists>m. \<forall>k \<ge> m. c_catchupPageSize ((downscaleCatchupPageSize ^^ k) c) =
       (if lightMode c then c_checkpointBlockGap c + 1 else 1))"
  using NewEthereumConnector_ok [OF assms] page_size_reaches_minimum [of c] by (simp add: downscales_ok)

definition exConfig :: "(exBc, exRc, exTc) config" where
  "exConfig = \<lparr>cf_ChainTrackingMode = ''light'', cf_EventsFilterPollingMode = ''client'',
     cf_EventsCatchupPageSize = 500, cf_EventsCatchupThreshold = 100, cf_EventsCheckpointBlockGap = 50,
     cf_EventsBlockTimestamps = True, cf_TraceTXForRevertReason = False, cf_DataFormat = ''map'',
     cf_HederaCompatibilityMode = False, cf_UseGetBlockReceipts = False, cf_ReceiptCacheEnabled = False,
     cf_newTxCache = Some [], cf_regexCompiles = True, cf_newBlockCache = Some [],
     cf_newReceiptCache = None\<rparr>"

theorem page_size_stays_usable_witness:
  "\<exists>c bl. NewEthereumConnectorWithRPC exConfig (\<lambda>t. Inr 100) = Inr (c, bl) \<and>
     c_catchupPageSize c = 500 \<and> c_catchupThreshold c = 500 \<and>
     connector_ok ((downscaleCatchupPageSize ^^ 5) c) \<and>
     (\<exists>m. \<forall>k \<ge> m. c_catchupPageSize ((downscaleCatchupPageSize ^^ k) c) = 51)"
proof -
  obtain c bl where n: "NewEthereumConnectorWithRPC exConfig (\<lambda>t. Inr 100) = Inr (c, bl)"
    "c_catchupPageSize c = 500" "c_catchupThreshold c = 500" "lightMode c" "c_checkpointBlockGap c = 50"
    by (simp add: NewEthereumConnectorWithRPC_def exConfig_def chainTrackingMode_def
        eventFilterPollingMode_def NewBlockListener_def lightMode_def i64_def Let_def)
  have "cf_EventsCatchupPageSize exConfig < 2 ^ 63" "cf_EventsCheckpointBlockGap exConfig < 2 ^ 63 - 1"
    by (simp_all add: exConfig_def)
  from page_size_stays_usable [OF n(1) this, of 5] n show ?thesis by (intro exI [of _ c] exI [of _ bl]) simp
qed

section \<open>Texts\<close>

text \<open>C27. The protocol id of an event sorts like its checkpoint. For block numbers of up to twelve
  digits and indexes of up to six, two protocol ids compare as strings exactly as the checkpoints
  of the events compare, and equal ids mean equal positions.\<close>

theorem protocol_id_orders_events:
  assumes "cp = \<lparr>cp_Block = b, cp_TransactionIndex = t, cp_LogIndex = l\<rparr>"
    and "cp' = \<lparr>cp_Block = b', cp_TransactionIndex = t', cp_LogIndex = l'\<rparr>"
    and "{b, b'} \<subseteq> {0..<10 ^ 12}" and "{t, t', l, l'} \<subseteq> {0..<10 ^ 6}"
  shows "(getEventProtoID b t l < getEventProtoID b' t' l' \<longleftrightarrow> LessThan cp cp') \<and>
    (getEventProtoID b t l = getEventProtoID b' t' l' \<longleftrightarrow> cp = cp')"
proof -
  have pad: "length (padNat w (nat x)) = w \<and>
      (padNat w (nat x) < padNat w (nat y) \<longleftrightarrow> x < y) \<and> (padNat w (nat x) = padNat w (nat y) \<longleftrightarrow> x = y)"
    if "0 < w" "0 \<le> x" "x < 10 ^ w" "0 \<le> y" "y < 10 ^ w" for w and x y :: int
  proof -
    have "nat x < 10 ^ w" "nat y < 10 ^ w" using that by (simp_all add: nat_less_iff)
    with padNat_less [OF that(1), of "nat x" "nat y"] that show ?thesis by auto
  qed
  note p = pad [of 12 b b'] pad [of 12 b' b] pad [of 6 t t'] pad [of 6 t' t] pad [of 6 l l'] pad [of 6 l' l]
  show ?thesis using assms p
    by (auto simp: getEventProtoID_def less_list_append_eq_length LessThan_def)
qed

theorem protocol_id_orders_events_witness:
  "getEventProtoID 9 0 0 < getEventProtoID 10 0 0"
  using protocol_id_orders_events [OF HOL.refl HOL.refl, of 9 10 0 0 0 0] by (simp add: LessThan_def)

text \<open>C28. The decimal form of a block number is read back. A listener without a checkpoint whose
  \<open>fromBlock\<close> is the decimal numeral of a block number starts at that very block.\<close>

theorem fromBlock_decimal_roundtrip:
  assumes "lc_fromBlock (ls_config l) = showNat n" and "n < 2 ^ 63" and "ls_hwmBlock l < 0"
    and "ce_fromBlockLatest E \<noteq> showNat n"
  shows "ensureHWM E l c = (Inr (Inr (l\<lparr>ls_hwmBlock := int n\<rparr>)), c)"
proof -
  have "uint (of_nat n :: u64) = int n" using assms(2) by (simp add: uint_nat unat_of_nat)
  moreover have "getInitialBlock E (showNat n) c = (Inr (of_nat n), c)"
    using assms(2,4) by (intro getInitialBlock_decimal) auto
  ultimately show ?thesis
    using assms(1-3) by (simp add: ensureHWM_def fitsInt64_def maxInt64_def)
qed

theorem fromBlock_decimal_roundtrip_witness:
  "\<exists>l. lc_fromBlock (ls_config l) = ''123'' \<and>
     ensureHWM exConnEnv l exConn = (Inr (Inr (l\<lparr>ls_hwmBlock := 123\<rparr>)), exConn)"
proof -
  let ?l = "(exListener 7 (-1) True)\<lparr>ls_config := (ls_config (exListener 7 (-1) True))\<lparr>lc_fromBlock := ''123''\<rparr>\<rparr>"
  have s: "showNat 123 = ''123''"
    by (simp add: showNat_last showNat_small digitChar_def char_of_def) (simp add: bit_simps)
  have "ensureHWM exConnEnv ?l exConn = (Inr (Inr (?l\<lparr>ls_hwmBlock := int 123\<rparr>)), exConn)"
    by (rule fromBlock_decimal_roundtrip) (simp_all only: s, simp_all add: exListener_def exConnEnv_def)
  then show ?thesis by (intro exI [of _ ?l]) simp
qed

section \<open>Concurrent updates\<close>

text \<open>The head block only moves forwards under concurrent updates. The compare-and-swap loop ends
  at or above the value that it was to store, whatever other goroutines store between its load and
  its swap; if they also only move the head forwards, it never ends below the value that it started
  from; and without interference it stores the maximum.\<close>

theorem head_update_moves_forwards:
  "n \<le> casLoop n others h \<and> casLoop n [] h = max h n \<and>
   (successively (\<le>) (h # map the (filter (\<lambda>x. x \<noteq> None) others)) \<longrightarrow> h \<le> casLoop n others h)"
  using casLoop_forward casLoop_nil by (simp del: casLoop.simps)

theorem head_update_moves_forwards_witness:
  "7 \<le> casLoop 7 [Some 6, None] 5 \<and> 5 \<le> casLoop 7 [Some 6, None] 5"
  using head_update_moves_forwards [of 7 "[Some 6, None]" 5] by simp

section \<open>The RPC client\<close>

text \<open>C30. A closed client stays off the WebSocket. After \<open>Close\<close>, whatever connects and closes other
  goroutines run, every call is routed over HTTP, a WebSocket connect fails with the error for a
  closed client, and before it the client was only ever connected while it was not closed.\<close>

theorem closed_client_stays_off_websocket:
  assumes "client_ok c" and "client_reaches (Close c) c'"
  shows "client_ok c' \<and> closed c' \<and> routeFor c' m = HTTP \<and>
    (HasWebSocket c' \<longrightarrow> Connect r c' = (Some MsgRPCClientClosed, c'))"
proof -
  have ok: "client_ok c'" by (rule client_reaches_ok [OF assms(2) Close_ok [OF assms(1)]])
  have cl: "closed c'" by (rule client_reaches_closed [OF assms(2) Close_closed])
  with ok have "\<not> wsConnected c'" by (auto simp: client_ok_def)
  with ok cl show ?thesis by (simp add: routeFor_not_connected Connect_def HasWebSocket_def)
qed

theorem closed_client_stays_off_websocket_witness:
  "\<exists>c. NewClientWithBackends ''ws'' True = Inr c \<and> routeFor (snd (Connect None c)) ''eth_call'' = WebSocket \<and>
     routeFor (Close (snd (Connect None c))) ''eth_call'' = HTTP"
proof -
  let ?c = "\<lparr>mode = RoutingModeWS, wsBackend = True, wsCtxDone = False, closed = False, wsConnected = False\<rparr>"
  have n: "NewClientWithBackends ''ws'' True = Inr ?c"
    by (simp add: NewClientWithBackends_def parseRoutingMode_def)
  then have "client_ok (snd (Connect None ?c))" using NewClient_ok Connect_ok by blast
  from closed_client_stays_off_websocket [OF this client_start]
  have "routeFor (Close (snd (Connect None ?c))) ''eth_call'' = HTTP" by blast
  moreover have "routeFor (snd (Connect None ?c)) ''eth_call'' = WebSocket"
    by (simp add: Connect_def routeFor_def)
  ultimately show ?thesis using n by blast
qed



end
