(* ===== verification/EventActions.thy ===== *)
theory EventActions
  imports StreamSteps Pollers
begin

text \<open>
  \<open>internal/ethereum/event_actions.go\<close>: the requests of the connector API about event streams and
  their listeners, and \<open>NewBlockListener\<close> (\<open>new_block_listener.go\<close>).

  The connector keeps a map from stream ids to pointers. A stream outlives its entry in the map: its
  goroutines run until they notice that their context is done. The streams are therefore kept in a
  store, \<open>cn_streams\<close>, the map \<open>cn_eventStreams\<close> holds indices into it, and \<open>conn_step\<close> interleaves
  the requests with the goroutines of every stream ever started.

  As elsewhere a panic is the outer left summand of a result; the inner one is what the Go function
  returns beside a nil response, the reason and the error.
\<close>

section \<open>State\<close>

record streamRun =
  sr_started :: bool
  sr_phase :: phase
  sr_lp :: leadLoop
  sr_es :: eventStream
  sr_pending :: "nat \<rightharpoonup> int64 \<times> int64"

record ('tc, 'bc, 'rc) connector =
  cn_eventStreams :: "nat \<rightharpoonup> nat"
  cn_streams :: "streamRun list"
  cn_conn :: "'tc ethConnector"
  cn_blockListener :: "('bc, 'rc) blockListener"

text \<open>A stream with the state of the connector, as the steps of \<open>stream_step\<close> see it.\<close>

definition worldOf :: "'tc ethConnector \<Rightarrow> streamRun \<Rightarrow> 'tc streamWorld" where
  "worldOf c r = \<lparr>w_started = sr_started r, w_phase = sr_phase r, w_lp = sr_lp r, w_es = sr_es r,
     w_conn = c, w_pending = sr_pending r\<rparr>"

definition runOf :: "'tc streamWorld \<Rightarrow> streamRun" where
  "runOf w = \<lparr>sr_started = w_started w, sr_phase = w_phase w, sr_lp = w_lp w, sr_es = w_es w,
     sr_pending = w_pending w\<rparr>"

definition streamAt :: "('tc, 'bc, 'rc) connector \<Rightarrow> nat \<Rightarrow> eventStream" where
  "streamAt cn p = sr_es (cn_streams cn ! p)"

definition setStream ::
  "nat \<Rightarrow> eventStream \<Rightarrow> 'tc ethConnector \<Rightarrow> ('tc, 'bc, 'rc) connector \<Rightarrow> ('tc, 'bc, 'rc) connector" where
  "setStream p es c cn =
     cn\<lparr>cn_streams := (cn_streams cn)[p := (cn_streams cn ! p)\<lparr>sr_es := es\<rparr>], cn_conn := c\<rparr>"

type_synonym 'a answer = "(ErrorReason \<times> failure) + 'a"

section \<open>Streams\<close>

text \<open>The initial listeners are added one after the other; the first error ends it.\<close>

fun addInitialListeners ::
  "'tc connEnv \<Rightarrow> EventListenerAddRequest list \<Rightarrow> eventStream \<Rightarrow> 'tc ethConnector \<Rightarrow>
   unit result result \<times> eventStream \<times> 'tc ethConnector" where
  "addInitialListeners E [] es c = (Inr (Inr ()), es, c)"
| "addInitialListeners E (il # ils) es c =
     (case addEventListener E il es c of
        (Inl e, es1, c1) \<Rightarrow> (Inl e, es1, c1)
      | (Inr (Inl e), es1, c1) \<Rightarrow> (Inr (Inl e), es1, c1)
      | (Inr (Inr p), es1, c1) \<Rightarrow> addInitialListeners E ils es1 c1)"

text \<open>The goroutine of the new stream has not run yet when the request returns.\<close>

definition newRun :: "eventStream \<Rightarrow> streamRun" where
  "newRun es = \<lparr>sr_started = False, sr_phase = Catchup, sr_lp = enterLoop, sr_es = es,
     sr_pending = Map.empty\<rparr>"

definition EventStreamStart ::
  "'tc connEnv \<Rightarrow> nat \<Rightarrow> EventListenerAddRequest list \<Rightarrow> ('tc, 'bc, 'rc) connector \<Rightarrow>
   unit answer result \<times> ('tc, 'bc, 'rc) connector" where
  "EventStreamStart E i initialListeners cn =
     (if cn_eventStreams cn i \<noteq> None
      then (Inr (Inl (ReasonNone, MsgStreamAlreadyStarted i)), cn)
      else (case addInitialListeners E initialListeners newStream (cn_conn cn) of
              (Inl e, es, c) \<Rightarrow> (Inl e, cn\<lparr>cn_conn := c\<rparr>)
            | (Inr (Inl e), es, c) \<Rightarrow> (Inr (Inl (ReasonNone, e)), cn\<lparr>cn_conn := c\<rparr>)
            | (Inr (Inr _), es, c) \<Rightarrow>
                (Inr (Inr ()),
                 cn\<lparr>cn_eventStreams := (cn_eventStreams cn)(i \<mapsto> length (cn_streams cn)),
                    cn_streams := cn_streams cn @ [newRun es], cn_conn := c,
                    cn_blockListener := AddConsumer i (cn_blockListener cn)\<rparr>)))"

text \<open>What \<open>EventStreamStopped\<close> waits for before it returns: the end of the loop of the stream, and
  of the catch-up loops of the listeners that were in its map.\<close>

record stopWait =
  sw_stream :: nat
  sw_listeners :: "nat list"

definition EventStreamStopped ::
  "bool \<Rightarrow> nat \<Rightarrow> ('tc, 'bc, 'rc) connector \<Rightarrow>
   stopWait option answer \<times> ('tc, 'bc, 'rc) connector" where
  "EventStreamStopped ctxDone i cn =
     (case cn_eventStreams cn i of
        None \<Rightarrow> (Inr None, cn)
      | Some p \<Rightarrow>
          if \<not> ctxDone then (Inl (ReasonNone, MsgStreamNotStopped i), cn)
          else (Inr (Some \<lparr>sw_stream = p, sw_listeners = map snd (es_listeners (streamAt cn p))\<rparr>),
                cn\<lparr>cn_eventStreams := (cn_eventStreams cn)(i := None)\<rparr>))"

definition stopReturns :: "stopWait option \<Rightarrow> ('tc, 'bc, 'rc) connector \<Rightarrow> bool" where
  "stopReturns sw cn =
     (case sw of
        None \<Rightarrow> True
      | Some w \<Rightarrow>
          sr_phase (cn_streams cn ! sw_stream w) = Stopped \<and>
          list_all (\<lambda>q. ls_catchupLoopDone (es_heap (streamAt cn (sw_stream w)) ! q) \<longrightarrow>
                         q \<notin> set (es_catchupLoops (streamAt cn (sw_stream w)))) (sw_listeners w))"

section \<open>Listeners\<close>

definition EventListenerVerifyOptions ::
  "'tc connEnv \<Rightarrow> string list \<Rightarrow> string option \<Rightarrow> (string \<times> listenerOptions) answer result" where
  "EventListenerVerifyOptions E filters options =
     (case parseEventFilters E filters of
        Inl e \<Rightarrow> Inl e
      | Inr (Inl e) \<Rightarrow> Inr (Inl (ReasonNone, e))
      | Inr (Inr (signature, fs)) \<Rightarrow>
          (case parseListenerOptions E options of
             Inl e \<Rightarrow> Inr (Inl (ReasonNone, e))
           | Inr opts \<Rightarrow> Inr (Inr (signature, opts))))"

definition EventListenerAdd ::
  "'tc connEnv \<Rightarrow> nat \<Rightarrow> EventListenerAddRequest \<Rightarrow> ('tc, 'bc, 'rc) connector \<Rightarrow>
   unit answer result \<times> ('tc, 'bc, 'rc) connector" where
  "EventListenerAdd E i req cn =
     (case cn_eventStreams cn i of
        None \<Rightarrow> (Inr (Inl (ErrorReasonNotFound, MsgStreamNotStarted i)), cn)
      | Some p \<Rightarrow>
          (case addEventListener E req (streamAt cn p) (cn_conn cn) of
             (Inl e, es, c) \<Rightarrow> (Inl e, setStream p es c cn)
           | (Inr (Inl e), es, c) \<Rightarrow> (Inr (Inl (ReasonNone, e)), setStream p es c cn)
           | (Inr (Inr q), es, c) \<Rightarrow>
               (Inr (Inr ()), setStream p (startEventListener q c es) c cn)))"

definition EventListenerRemove ::
  "nat \<Rightarrow> nat \<Rightarrow> ('tc, 'bc, 'rc) connector \<Rightarrow> unit answer \<times> ('tc, 'bc, 'rc) connector" where
  "EventListenerRemove i listenerID cn =
     (case cn_eventStreams cn i of
        None \<Rightarrow> (Inl (ErrorReasonNotFound, MsgStreamNotStarted i), cn)
      | Some p \<Rightarrow>
          (Inr (), setStream p (removeEventListener listenerID (streamAt cn p)) (cn_conn cn) cn))"

definition EventStreamNewCheckpointStruct :: listenerCheckpoint where
  "EventStreamNewCheckpointStruct =
     \<lparr>cp_Block = 0, cp_TransactionIndex = 0, cp_LogIndex = 0\<rparr>"

definition EventListenerHWM ::
  "nat \<Rightarrow> nat \<Rightarrow> ('tc, 'bc, 'rc) connector \<Rightarrow>
   (listenerCheckpoint \<times> listenerCheckpoint option \<times> bool) answer" where
  "EventListenerHWM i listenerID cn =
     (case cn_eventStreams cn i of
        None \<Rightarrow> Inl (ErrorReasonNotFound, MsgStreamNotStarted i)
      | Some p \<Rightarrow>
          (case getListenerHWM listenerID (streamAt cn p) of
             Inl e \<Rightarrow> Inl (ErrorReasonNotFound, e)
           | Inr r \<Rightarrow> Inr r))"

section \<open>Block listeners\<close>

definition NewBlockListener_API ::
  "nat \<Rightarrow> ('tc, 'bc, 'rc) connector \<Rightarrow> ('tc, 'bc, 'rc) connector" where
  "NewBlockListener_API i cn = cn\<lparr>cn_blockListener := AddConsumer i (cn_blockListener cn)\<rparr>"

definition GetChainTrackingMode :: "('tc, 'bc, 'rc) connector \<Rightarrow> ChainTrackingMode" where
  "GetChainTrackingMode cn = c_chainTrackingMode (cn_conn cn)"

section \<open>The transitions of the connector\<close>

inductive conn_step ::
  "'tc connEnv \<Rightarrow> ('tc, 'bc, 'rc) connector \<Rightarrow> ('tc, 'bc, 'rc) connector \<Rightarrow> bool"
  for E :: "'tc connEnv" where
  start_stream: "EventStreamStart E i ils cn = (r, cn') \<Longrightarrow> conn_step E cn cn'"
| stop_stream: "EventStreamStopped ctxDone i cn = (r, cn') \<Longrightarrow> conn_step E cn cn'"
| add_listener: "EventListenerAdd E i req cn = (Inr r, cn') \<Longrightarrow> conn_step E cn cn'"
| remove_listener: "EventListenerRemove i l cn = (r, cn') \<Longrightarrow> conn_step E cn cn'"
| block_listener: "conn_step E cn (NewBlockListener_API i cn)"
| background: "p < length (cn_streams cn) \<Longrightarrow>
    stream_step E (worldOf (cn_conn cn) (cn_streams cn ! p)) w \<Longrightarrow>
    conn_step E cn (cn\<lparr>cn_streams := (cn_streams cn)[p := runOf w], cn_conn := w_conn w\<rparr>)"

abbreviation conn_run ::
  "'tc connEnv \<Rightarrow> ('tc, 'bc, 'rc) connector \<Rightarrow> ('tc, 'bc, 'rc) connector \<Rightarrow> bool" where
  "conn_run E \<equiv> (conn_step E)\<^sup>*\<^sup>*"

end
