(* ===== verification/ConnectorRuns.thy ===== *)
theory ConnectorRuns
  imports EventActions
begin

text \<open>
  What the requests of \<open>EventActions\<close> keep: the map of streams points to different streams of the
  store, every stream satisfies the invariant of \<open>StreamSteps\<close>, and every stream only moves forwards.
  The last section follows a checkpoint from a request to the high water mark it becomes.
\<close>

section \<open>The invariant\<close>

definition run_ok :: "streamRun \<Rightarrow> bool" where
  "run_ok r \<longleftrightarrow>
     es_ok (sr_es r) \<and> (\<forall>p page. sr_pending r p = Some page \<longrightarrow> page_ok (sr_es r) p page) \<and>
     (\<not> sr_started r \<longrightarrow> es_headBlock (sr_es r) = -1 \<and> sr_pending r = Map.empty)"

definition conn_ok :: "('tc, 'bc, 'rc) connector \<Rightarrow> bool" where
  "conn_ok cn \<longleftrightarrow>
     (\<forall>i p. cn_eventStreams cn i = Some p \<longrightarrow> p < length (cn_streams cn)) \<and>
     (\<forall>i j p. cn_eventStreams cn i = Some p \<longrightarrow> cn_eventStreams cn j = Some p \<longrightarrow> i = j) \<and>
     (\<forall>r \<in> set (cn_streams cn). run_ok r)"

definition conn_le :: "('tc, 'bc, 'rc) connector \<Rightarrow> ('tc, 'bc, 'rc) connector \<Rightarrow> bool" where
  "conn_le cn cn' \<longleftrightarrow>
     length (cn_streams cn) \<le> length (cn_streams cn') \<and>
     (\<forall>p < length (cn_streams cn). stream_le (streamAt cn p) (streamAt cn' p))"

lemma worldOf_simps [simp]:
  "w_started (worldOf c r) = sr_started r" "w_phase (worldOf c r) = sr_phase r"
  "w_lp (worldOf c r) = sr_lp r" "w_es (worldOf c r) = sr_es r" "w_conn (worldOf c r) = c"
  "w_pending (worldOf c r) = sr_pending r"
  by (simp_all add: worldOf_def)

lemma worldOf_runOf [simp]: "worldOf (w_conn w) (runOf w) = w"
  by (simp add: worldOf_def runOf_def)

lemma runOf_worldOf [simp]: "runOf (worldOf c r) = r"
  by (simp add: worldOf_def runOf_def)

lemma runOf_simps [simp]: "sr_es (runOf w) = w_es w"
  by (simp add: runOf_def)

lemma world_ok_worldOf [simp]: "world_ok (worldOf c r) = run_ok r"
  by (simp add: world_ok_def run_ok_def)

lemma run_ok_runOf [simp]: "run_ok (runOf w) = world_ok w"
  by (simp add: world_ok_def run_ok_def runOf_def)

lemma conn_le_refl [simp, intro]: "conn_le cn cn"
  by (simp add: conn_le_def)

lemma conn_le_trans [trans]: "conn_le a b \<Longrightarrow> conn_le b c \<Longrightarrow> conn_le a c"
  unfolding conn_le_def by (meson le_trans less_le_trans stream_le_trans)

lemma conn_ok_stream:
  "conn_ok cn \<Longrightarrow> cn_eventStreams cn i = Some p \<Longrightarrow>
     p < length (cn_streams cn) \<and> run_ok (cn_streams cn ! p)"
  by (simp add: conn_ok_def)

text \<open>An update of one stream of the store, by a world that is well formed and not behind.\<close>

definition setRun ::
  "nat \<Rightarrow> 'tc streamWorld \<Rightarrow> ('tc, 'bc, 'rc) connector \<Rightarrow> ('tc, 'bc, 'rc) connector" where
  "setRun p w cn = cn\<lparr>cn_streams := (cn_streams cn)[p := runOf w], cn_conn := w_conn w\<rparr>"

lemma setStream_run:
  "setStream p es c cn = setRun p ((worldOf c (cn_streams cn ! p))\<lparr>w_es := es\<rparr>) cn"
proof -
  have "(cn_streams cn ! p)\<lparr>sr_es := es\<rparr> = runOf ((worldOf c (cn_streams cn ! p))\<lparr>w_es := es\<rparr>)"
    by (cases "cn_streams cn ! p") (simp add: runOf_def)
  then show ?thesis by (simp add: setStream_def setRun_def)
qed

lemma setRun_ok:
  assumes "conn_ok cn" and "world_ok w"
  shows "conn_ok (setRun p w cn)"
proof -
  have "run_ok r" if "r \<in> set ((cn_streams cn)[p := runOf w])" for r
    using that assms set_update_subset_insert [of "cn_streams cn" p "runOf w"]
    by (auto simp: conn_ok_def)
  then show ?thesis using assms(1) by (simp add: conn_ok_def setRun_def)
qed

lemma setRun_le:
  "stream_le (streamAt cn p) (w_es w) \<Longrightarrow> conn_le cn (setRun p w cn)"
  by (cases "p < length (cn_streams cn)")
     (auto simp: conn_le_def setRun_def streamAt_def nth_list_update)

text \<open>A run of a single stream is a run of its place in the store.\<close>

lemma setRun_run:
  assumes ok: "conn_ok cn" and p: "p < length (cn_streams cn)"
    and run: "stream_run E (worldOf c (cn_streams cn ! p)) w"
  shows "conn_ok (setRun p w cn) \<and> conn_le cn (setRun p w cn)"
proof -
  have "world_ok (worldOf c (cn_streams cn ! p))" using ok p by (simp add: conn_ok_def)
  from stream_run_ok [OF run this] show ?thesis
    using setRun_ok [OF ok] setRun_le [of cn p w] by (simp add: streamAt_def)
qed

section \<open>Every request keeps it\<close>

lemma newStream_ok [simp]: "es_ok newStream" "es_headBlock newStream = -1"
  by (simp_all add: newStream_def es_ok_def)

lemma addInitial_ok:
  "addInitialListeners E ils es c = (r, es', c') \<Longrightarrow> es_ok es \<Longrightarrow>
     es_ok es' \<and> es_headBlock es' = es_headBlock es"
proof (induction ils arbitrary: es c)
  case (Cons il ils)
  obtain r1 es1 c1 where a: "addEventListener E il es c = (r1, es1, c1)" by (metis prod_cases3)
  have "es_ok es1 \<and> es_headBlock es1 = es_headBlock es"
    using add_ok [OF a] Cons.prems(2) a by (auto elim: addEventListener_cases)
  with a Cons show ?case by (auto split: sum.splits)
qed simp

lemma EventStreamStart_ok:
  assumes "EventStreamStart E i ils cn = (r, cn')" and "conn_ok cn"
  shows "conn_ok cn' \<and> conn_le cn cn'"
proof -
  obtain r1 es c where a: "addInitialListeners E ils newStream (cn_conn cn) = (r1, es, c)"
    by (metis prod_cases3)
  have r: "run_ok (newRun es)"
    using addInitial_ok [OF a] by (simp add: run_ok_def newRun_def)
  have le: "conn_le cn (cn\<lparr>cn_conn := c\<rparr>)" "conn_ok (cn\<lparr>cn_conn := c\<rparr>)"
    using assms(2) by (simp_all add: conn_le_def conn_ok_def streamAt_def)
  show ?thesis
  proof (cases "cn' = cn \<or> cn' = cn\<lparr>cn_conn := c\<rparr>")
    case True
    with assms(2) le show ?thesis by auto
  next
    case False
    with assms(1) a have cn': "cn' = cn\<lparr>cn_eventStreams := (cn_eventStreams cn)(i \<mapsto> length (cn_streams cn)),
        cn_streams := cn_streams cn @ [newRun es], cn_conn := c,
        cn_blockListener := AddConsumer i (cn_blockListener cn)\<rparr>"
      by (auto simp: EventStreamStart_def split: if_splits sum.splits)
    have "conn_ok cn'" unfolding cn' using assms(2) r by (fastforce simp: conn_ok_def)
    moreover have "conn_le cn cn'" unfolding cn' by (simp add: conn_le_def streamAt_def nth_append)
    ultimately show ?thesis by simp
  qed
qed

lemma EventStreamStopped_ok:
  "EventStreamStopped d i cn = (r, cn') \<Longrightarrow> conn_ok cn \<Longrightarrow> conn_ok cn' \<and> conn_le cn cn'"
  by (auto simp: EventStreamStopped_def conn_ok_def conn_le_def streamAt_def
      split: option.splits if_splits)

text \<open>A request about the listeners of one stream takes steps of that stream.\<close>

lemma setStream_run_ok:
  assumes "conn_ok cn" and "cn_eventStreams cn i = Some p"
    and "stream_run E (worldOf (cn_conn cn) (cn_streams cn ! p))
           ((worldOf c (cn_streams cn ! p))\<lparr>w_es := es\<rparr>)"
  shows "conn_ok (setStream p es c cn) \<and> conn_le cn (setStream p es c cn)"
  unfolding setStream_run using assms conn_ok_stream setRun_run by blast

lemma add_run:
  assumes "addEventListener E req (sr_es r) c0 = (Inr x, es, c)"
  shows "stream_run E (worldOf c0 r) ((worldOf c r)\<lparr>w_es := es\<rparr>)"
proof -
  have "stream_step E (worldOf c0 r) ((worldOf c0 r)\<lparr>w_es := es, w_conn := c\<rparr>)"
    using assms by (intro stream_step.add) simp
  then show ?thesis by (simp add: worldOf_def)
qed

lemma add_start_run:
  assumes a: "addEventListener E req (sr_es r) c0 = (Inr (Inr q), es, c)"
  shows "stream_run E (worldOf c0 r) ((worldOf c r)\<lparr>w_es := startEventListener q c es\<rparr>)"
proof -
  have "q \<in> snd ` set (es_listeners es)"
    using a by (auto simp: addEventListener_def split: if_splits sum.splits prod.splits)
  then have "stream_step E ((worldOf c r)\<lparr>w_es := es\<rparr>)
      (((worldOf c r)\<lparr>w_es := es\<rparr>)\<lparr>w_es := startEventListener q c es\<rparr>)"
    using stream_step.start [of q "(worldOf c r)\<lparr>w_es := es\<rparr>" E] by simp
  with add_run [OF a] show ?thesis by simp
qed

lemma EventListenerAdd_ok:
  assumes "EventListenerAdd E i req cn = (Inr x, cn')" and "conn_ok cn"
  shows "conn_ok cn' \<and> conn_le cn cn'"
proof (cases "cn_eventStreams cn i")
  case None
  with assms show ?thesis by (simp add: EventListenerAdd_def)
next
  case (Some p)
  obtain r es c where a: "addEventListener E req (sr_es (cn_streams cn ! p)) (cn_conn cn) = (r, es, c)"
    by (metis prod_cases3)
  from assms(1) Some a obtain y where y: "r = Inr y"
    by (auto simp: EventListenerAdd_def streamAt_def split: sum.splits)
  show ?thesis
  proof (cases y)
    case (Inl e)
    with assms Some a y show ?thesis using setStream_run_ok [OF assms(2) Some add_run [of E req]]
      by (auto simp: EventListenerAdd_def streamAt_def)
  next
    case (Inr q)
    with assms Some a y show ?thesis using setStream_run_ok [OF assms(2) Some add_start_run [of E req]]
      by (auto simp: EventListenerAdd_def streamAt_def)
  qed
qed

lemma EventListenerRemove_ok:
  assumes "EventListenerRemove i l cn = (r, cn')" and ok: "conn_ok cn"
  shows "conn_ok cn' \<and> conn_le cn cn'"
proof (cases "cn_eventStreams cn i")
  case None
  with assms show ?thesis by (simp add: EventListenerRemove_def)
next
  case (Some p)
  let ?w = "worldOf (cn_conn cn) (cn_streams cn ! p)"
  have "stream_run E ?w (?w\<lparr>w_es := removeEventListener l (streamAt cn p)\<rparr>)" for E
    using stream_step.remove [of E ?w l] by (simp add: streamAt_def)
  from setStream_run_ok [OF ok Some this] show ?thesis
    using assms(1) Some by (simp add: EventListenerRemove_def)
qed

lemma conn_step_ok:
  assumes "conn_step E cn cn'" and "conn_ok cn"
  shows "conn_ok cn' \<and> conn_le cn cn'"
  using assms(1)
proof cases
  case (start_stream i ils r)
  with assms(2) show ?thesis by (blast dest: EventStreamStart_ok)
next
  case (stop_stream d i r)
  with assms(2) show ?thesis by (blast dest: EventStreamStopped_ok)
next
  case (add_listener i req r)
  with assms(2) show ?thesis by (blast dest: EventListenerAdd_ok)
next
  case (remove_listener i l r)
  with assms(2) show ?thesis by (blast dest: EventListenerRemove_ok)
next
  case (block_listener i)
  with assms(2) show ?thesis
    by (simp add: NewBlockListener_API_def conn_ok_def conn_le_def streamAt_def)
next
  case (background p w)
  with setRun_run [OF assms(2) background(2), of E "cn_conn cn" w] show ?thesis
    by (simp add: setRun_def r_into_rtranclp)
qed

lemma conn_run_ok:
  assumes "conn_run E cn cn'" and "conn_ok cn"
  shows "conn_ok cn' \<and> conn_le cn cn'"
  using assms(1)
proof (induction rule: rtranclp_induct)
  case base
  with assms(2) show ?case by simp
next
  case (step y z)
  with conn_step_ok [OF step(2)] show ?case using conn_le_trans by blast
qed

section \<open>From a checkpoint to a high water mark\<close>

text \<open>The listener a request leaves behind.\<close>

definition resumed :: "EventListenerAddRequest \<Rightarrow> eventStream \<Rightarrow> bool" where
  "resumed req es \<longleftrightarrow>
     (\<exists>p. map_of (es_listeners es) (rq_ListenerID req) = Some p \<and> p < length (es_heap es) \<and>
        0 \<le> ls_hwmBlock (es_heap es ! p) \<and> ls_lastDetected (es_heap es ! p) = None \<and>
        ls_catchup (es_heap es ! p) \<and>
        (\<forall>cp. rq_Checkpoint req = Some cp \<longrightarrow> 0 \<le> cp_Block cp \<longrightarrow>
           ls_hwmBlock (es_heap es ! p) = cp_Block cp))"

lemma newListener_start:
  "newListener E req = Inr (Inr l) \<Longrightarrow>
     ls_lastDetected l = None \<and> ls_catchup l \<and> \<not> ls_removed l \<and>
     ls_hwmBlock l = (case rq_Checkpoint req of None \<Rightarrow> -1 | Some cp \<Rightarrow> cp_Block cp)"
  by (auto simp: newListener_def split: sum.splits option.splits prod.splits)

lemma ensureHWM_start:
  "ensureHWM E l c = (Inr (Inr l'), c') \<Longrightarrow>
     (0 \<le> ls_hwmBlock l \<longrightarrow> l' = l) \<and> 0 \<le> ls_hwmBlock l' \<and>
     ls_lastDetected l' = ls_lastDetected l \<and> ls_catchup l' = ls_catchup l"
  by (auto simp: ensureHWM_def split: if_splits sum.splits prod.splits)

lemma addEventListener_resumed:
  assumes "addEventListener E req es c = (Inr (Inr p), es', c')"
  shows "resumed req es'"
proof -
  obtain l l1 c1 where l: "newListener E req = Inr (Inr l)" "ensureHWM E l c = (Inr (Inr l1), c1)"
    and new: "map_of (es_listeners es) (rq_ListenerID req) = None"
    and es': "es' = es\<lparr>es_listeners := es_listeners es @ [(rq_ListenerID req, length (es_heap es))],
      es_heap := es_heap es @ [l1]\<rparr>"
    using assms by (auto simp: addEventListener_def split: if_splits sum.splits prod.splits)
  have "map_of (es_listeners es') (rq_ListenerID req) = Some (length (es_heap es))"
    using new unfolding es' by (simp add: map_add_def)
  with newListener_start [OF l(1)] ensureHWM_start [OF l(2)] show ?thesis
    unfolding resumed_def es' by auto
qed

text \<open>A later addition does not touch it.\<close>

lemma addEventListener_keeps_resumed:
  assumes "addEventListener E req es c = (r, es', c')" and "resumed il es"
  shows "resumed il es'"
  using assms(1)
proof (cases rule: addEventListener_cases)
  case 1
  with assms(2) show ?thesis by simp
next
  case (2 l)
  with assms(2) show ?thesis by (fastforce simp: resumed_def map_add_def nth_append)
qed

lemma addInitial_keeps_resumed:
  "addInitialListeners E ils es c = (r, es', c') \<Longrightarrow> resumed il es \<Longrightarrow> resumed il es'"
proof (induction ils arbitrary: es c)
  case (Cons x xs)
  obtain r1 es1 c1 where a: "addEventListener E x es c = (r1, es1, c1)" by (metis prod_cases3)
  with Cons addEventListener_keeps_resumed [OF a] show ?case by (auto split: sum.splits)
qed simp

lemma addInitial_resumed:
  "addInitialListeners E ils es c = (Inr (Inr ()), es', c') \<Longrightarrow> il \<in> set ils \<Longrightarrow> resumed il es'"
proof (induction ils arbitrary: es c)
  case (Cons x xs)
  from Cons.prems(1) obtain p es1 c1 where a: "addEventListener E x es c = (Inr (Inr p), es1, c1)"
    and rest: "addInitialListeners E xs es1 c1 = (Inr (Inr ()), es', c')"
    by (auto split: sum.splits prod.splits)
  show ?case
  proof (cases "il = x")
    case True
    with addInitial_keeps_resumed [OF rest] addEventListener_resumed [OF a] show ?thesis by simp
  next
    case False
    with Cons rest show ?thesis by auto
  qed
qed simp

lemma resumed_HWM:
  assumes "resumed req es"
  shows "\<exists>b. 0 \<le> b \<and> (\<forall>cp. rq_Checkpoint req = Some cp \<longrightarrow> 0 \<le> cp_Block cp \<longrightarrow> b = cp_Block cp) \<and>
    getListenerHWM (rq_ListenerID req) es =
      Inr (\<lparr>cp_Block = b, cp_TransactionIndex = -1, cp_LogIndex = -1\<rparr>, None, True)"
  using assms by (auto simp: resumed_def getListenerHWM_def getHWM_def)

text \<open>The request that starts the streams, followed by the question for a high water mark.\<close>

lemma EventStreamStart_HWM:
  assumes "EventStreamStart E i ils cn = (Inr (Inr ()), cn')"
  shows "\<exists>es. (\<forall>l. EventListenerHWM i l cn' =
      (case getListenerHWM l es of Inl e \<Rightarrow> Inl (ErrorReasonNotFound, e) | Inr r \<Rightarrow> Inr r)) \<and>
    (\<forall>il \<in> set ils. resumed il es)"
proof -
  obtain r es c where a: "addInitialListeners E ils newStream (cn_conn cn) = (r, es, c)"
    by (metis prod_cases3)
  with assms have "r = Inr (Inr ())" and cn': "cn' = cn\<lparr>cn_eventStreams := (cn_eventStreams cn)(i \<mapsto> length (cn_streams cn)),
        cn_streams := cn_streams cn @ [newRun es], cn_conn := c,
        cn_blockListener := AddConsumer i (cn_blockListener cn)\<rparr>"
    by (auto simp: EventStreamStart_def split: if_splits sum.splits)
  then have "\<forall>il \<in> set ils. resumed il es" using a addInitial_resumed by auto
  moreover have "EventListenerHWM i l cn' =
      (case getListenerHWM l es of Inl e \<Rightarrow> Inl (ErrorReasonNotFound, e) | Inr r \<Rightarrow> Inr r)" for l
    unfolding cn' by (simp add: EventListenerHWM_def streamAt_def newRun_def)
  ultimately show ?thesis by blast
qed

lemma EventListenerHWM_checkpoint:
  "EventListenerHWM i l cn = Inr (cp, d, b) \<Longrightarrow> cp_TransactionIndex cp = -1 \<and> cp_LogIndex cp = -1"
  by (auto simp: EventListenerHWM_def getListenerHWM_def getHWM_def Let_def
      split: option.splits sum.splits)

end
