(* ===== verification/Encoding.thy ===== *)
theory Encoding
  imports Decimal EthErrors
begin

text \<open>
  What the code uses of Go's \<open>strings\<close>, \<open>encoding/hex\<close> and \<open>encoding/base64\<close>.
  \<open>hex.DecodeString\<close> returns the bytes before an error beside the error, and one caller uses them;
  \<open>base64.StdEncoding\<close> skips line breaks, wants the padding and accepts any trailing bits.
\<close>

section \<open>Strings\<close>

definition hasPrefix :: "string \<Rightarrow> string \<Rightarrow> bool" where
  "hasPrefix s pre \<longleftrightarrow> take (length pre) s = pre"

definition TrimPrefix :: "string \<Rightarrow> string \<Rightarrow> string" where
  "TrimPrefix s pre = (if hasPrefix s pre then drop (length pre) s else s)"

text \<open>\<open>strings.EqualFold\<close>, on ASCII letters like \<open>ToLower\<close>.\<close>

definition EqualFold :: "string \<Rightarrow> string \<Rightarrow> bool" where
  "EqualFold s t \<longleftrightarrow> ToLower s = ToLower t"

lemma EqualFold_refl [simp, intro]: "EqualFold s s"
  by (simp add: EqualFold_def)

lemma TrimPrefix_append [simp]: "TrimPrefix (pre @ s) pre = s"
  by (simp add: TrimPrefix_def hasPrefix_def)

section \<open>Hexadecimal\<close>

definition hexByte :: "char \<Rightarrow> char \<Rightarrow> 8 word" where
  "hexByte a b = of_nat (16 * digitVal a + digitVal b)"

text \<open>The bytes that were decoded, and whether there was no error.\<close>

fun hexDecodeString :: "string \<Rightarrow> 8 word list \<times> bool" where
  "hexDecodeString [] = ([], True)"
| "hexDecodeString [c] = ([], False)"
| "hexDecodeString (a # b # s) =
     (if digitVal a < 16 \<and> digitVal b < 16
      then (case hexDecodeString s of (bs, ok) \<Rightarrow> (hexByte a b # bs, ok))
      else ([], False))"

definition hexDigit :: "nat \<Rightarrow> char" where
  "hexDigit d = (if d < 10 then char_of (48 + d) else char_of (87 + d))"

definition hexEncode :: "8 word list \<Rightarrow> string" where
  "hexEncode bs = concat (map (\<lambda>b. [hexDigit (unat b div 16), hexDigit (unat b mod 16)]) bs)"

lemma hexDigit_val [simp]: "d < 16 \<Longrightarrow> digitVal (hexDigit d) = d"
  by (simp add: hexDigit_def digitVal_def Let_def)

lemma unat_byte_less: "unat (b :: 8 word) < 256"
  using unsigned_less [of b, where ?'a = nat] by simp

lemma hexByte_digits [simp]: "hexByte (hexDigit (unat b div 16)) (hexDigit (unat b mod 16)) = b"
proof -
  have "unat b div 16 < 16" using unat_byte_less [of b] by simp
  then show ?thesis by (simp add: hexByte_def)
qed

text \<open>What is printed as hexadecimal digits is read back.\<close>

lemma hexDecode_hexEncode [simp]: "hexDecodeString (hexEncode bs) = (bs, True)"
proof (induction bs)
  case (Cons b bs)
  have "unat b div 16 < 16" using unat_byte_less [of b] by simp
  with Cons show ?case by (simp add: hexEncode_def)
qed (simp add: hexEncode_def)

lemma hexDecode_length: "hexDecodeString s = (bs, True) \<Longrightarrow> length s = 2 * length bs"
  by (induction s arbitrary: bs rule: hexDecodeString.induct) (auto split: if_splits prod.splits)

section \<open>Base64\<close>

definition base64Val :: "char \<Rightarrow> nat option" where
  "base64Val c =
     (let n = of_char c :: nat in
      if 65 \<le> n \<and> n \<le> 90 then Some (n - 65)
      else if 97 \<le> n \<and> n \<le> 122 then Some (n - 71)
      else if 48 \<le> n \<and> n \<le> 57 then Some (n + 4)
      else if n = 43 then Some 62
      else if n = 47 then Some 63
      else None)"

definition base64Bytes :: "nat \<Rightarrow> nat \<Rightarrow> nat \<Rightarrow> nat \<Rightarrow> 8 word list" where
  "base64Bytes x y z w =
     (let n = ((x * 64 + y) * 64 + z) * 64 + w
      in [of_nat (n div 65536), of_nat (n div 256), of_nat n])"

fun base64Quanta :: "string \<Rightarrow> 8 word list option" where
  "base64Quanta [] = Some []"
| "base64Quanta (a # b # c # d # s) =
     (case (base64Val a, base64Val b) of
        (Some x, Some y) \<Rightarrow>
          (if c = CHR ''='' then
             (if d = CHR ''='' \<and> s = [] then Some (take 1 (base64Bytes x y 0 0)) else None)
           else case base64Val c of
             None \<Rightarrow> None
           | Some z \<Rightarrow>
               (if d = CHR ''='' then
                  (if s = [] then Some (take 2 (base64Bytes x y z 0)) else None)
                else case base64Val d of
                  None \<Rightarrow> None
                | Some w \<Rightarrow> map_option ((@) (base64Bytes x y z w)) (base64Quanta s)))
      | _ \<Rightarrow> None)"
| "base64Quanta s = None"

definition base64DecodeString :: "string \<Rightarrow> 8 word list option" where
  "base64DecodeString s = base64Quanta (filter (\<lambda>c. of_char c \<noteq> (10 :: nat) \<and> of_char c \<noteq> (13 :: nat)) s)"

end
