(* ===== verification/Receipts.thy ===== *)
theory Receipts
  imports EventStream Encoding
begin

text \<open>
  \<open>internal/ethereum/get_receipt.go\<close>: the receipt of a transaction as the connector API returns it,
  with the reason of a failure, the events that match a list of filters, and in light mode the check
  that an answer which disagrees with what the caller saw can be trusted.

  The environment extends that of the event streams by two methods of the node, by JSON parsing of a
  method, and by the ABI library's decoding of the data of a revert with an empty ABI. The extra
  information and the logs of a response are kept as records; the code marshals them to JSON.
\<close>

section \<open>Data\<close>

record receiptExtraInfo =
  xi_ContractAddress :: "address option"
  xi_CumulativeGasUsed :: "int option"
  xi_From :: "address option"
  xi_To :: "address option"
  xi_GasUsed :: "int option"
  xi_Status :: "u64 option"
  xi_ErrorMessage :: "string option"
  xi_ReturnValue :: "string option"

record StructLog =
  sl_PC :: "int option"
  sl_Op :: "string option"
  sl_Gas :: "int option"
  sl_GasCost :: "int option"
  sl_Depth :: "int option"
  sl_Stack :: "string option list"
  sl_Memory :: "string option list"
  sl_Reason :: "string option"

record txDebugTrace =
  dt_Gas :: "int option"
  dt_Failed :: bool
  dt_ReturnValue :: string
  dt_StructLogs :: "StructLog list"

record TransactionReceiptRequest =
  tq_TransactionHash :: string
  tq_EventFilters :: "string list"
  tq_Methods :: "string list"
  tq_ExtractSigner :: bool
  tq_IncludeLogs :: bool
  tq_BlockNumber :: "int option"
  tq_BlockHash :: string

record TransactionReceiptResponse =
  tr_BlockNumber :: int
  tr_TransactionIndex :: int
  tr_BlockHash :: string
  tr_Success :: bool
  tr_ProtocolID :: string
  tr_ExtraInfo :: receiptExtraInfo
  tr_ContractLocation :: "string option"
  tr_Events :: "Event list"
  tr_Logs :: "LogJSONRPC list option"

record 'tc receiptEnv =
  re_conn :: "'tc connEnv"
  re_getTransactionReceipt :: "nat \<Rightarrow> string \<Rightarrow> string + TxReceiptJSONRPC option"
  re_debugTraceTransaction :: "nat \<Rightarrow> string \<Rightarrow> string + txDebugTrace option"
  re_parseMethod :: "string \<Rightarrow> abiEntry option"
  re_errorString :: "8 word list \<Rightarrow> string option"

section \<open>Helpers\<close>

definition ProtocolIDForReceipt :: "int option \<Rightarrow> int option \<Rightarrow> string" where
  "ProtocolIDForReceipt blockNumber transactionIndex =
     (case (blockNumber, transactionIndex) of
        (Some b, Some t) \<Rightarrow> fmtPrecision 12 b @ CHR ''/'' # fmtPrecision 6 t
      | _ \<Rightarrow> '''')"

definition padHexData :: "string \<Rightarrow> string" where
  "padHexData hexString =
     (let h = TrimPrefix hexString ''0x''
      in if length h mod 2 = 1 then CHR ''0'' # h else h)"

text \<open>The reason on the last step of the trace, which some clients give in place of a return value.\<close>

definition finalReason :: "StructLog list \<Rightarrow> string result" where
  "finalReason logs =
     (if logs = [] then Inr ''''
      else case sl_Op (last logs) of
        None \<Rightarrow> Inl PanicNilDereference
      | Some op' \<Rightarrow>
          Inr (if op' = ''REVERT'' then (case sl_Reason (last logs) of None \<Rightarrow> '''' | Some r \<Rightarrow> r)
               else ''''))"

text \<open>The message for a revert reason; an error of the hexadecimal decoding is ignored.\<close>

definition revertMessage :: "'tc receiptEnv \<Rightarrow> string \<Rightarrow> string" where
  "revertMessage E revertReason =
     (let returnDataBytes = fst (hexDecodeString (padHexData revertReason));
          errorMessage = (case re_errorString E returnDataBytes of None \<Rightarrow> '''' | Some d \<Rightarrow> d)
      in if errorMessage \<noteq> '''' then errorMessage
         else if returnDataBytes \<noteq> []
         then ce_errorText (re_conn E) (MsgReturnValueNotDecoded revertReason)
         else ce_errorText (re_conn E) MsgReturnValueNotAvailable)"

definition getErrorInfo ::
  "'tc receiptEnv \<Rightarrow> string \<Rightarrow> hexbytes \<Rightarrow> 'tc ethConnector \<Rightarrow>
   (string option \<times> string option) result \<times> 'tc ethConnector" where
  "getErrorInfo E transactionHash revertFromReceipt c =
     (case revertFromReceipt of
        Some _ \<Rightarrow>
          (let r = ce_hashString (re_conn E) revertFromReceipt
           in (Inr (Some r, Some (revertMessage E r)), c))
      | None \<Rightarrow>
          if \<not> c_traceTXForRevertReason c
          then (Inr (Some '''', Some (revertMessage E '''')), c)
          else (case re_debugTraceTransaction E (c_tick c) transactionHash of
                  Inl e \<Rightarrow> Inr (None, Some (ce_errorText (re_conn E) (MsgUnableToCallDebug e)))
                | Inr None \<Rightarrow> Inl PanicNilDereference
                | Inr (Some debugTrace) \<Rightarrow>
                    (case (if dt_ReturnValue debugTrace = '''' then finalReason (dt_StructLogs debugTrace)
                           else Inr (dt_ReturnValue debugTrace)) of
                       Inl e \<Rightarrow> Inl e
                     | Inr r \<Rightarrow> Inr (Some r, Some (revertMessage E r))), c_ticked c))"

section \<open>The receipt\<close>

definition isSuccess :: "TxReceiptJSONRPC \<Rightarrow> bool" where
  "isSuccess r \<longleftrightarrow> (case rc_Status r of None \<Rightarrow> False | Some st \<Rightarrow> st > 0)"

definition receiptOf ::
  "'tc receiptEnv \<Rightarrow> TxReceiptJSONRPC \<Rightarrow> string option \<Rightarrow> string option \<Rightarrow> TransactionReceiptResponse" where
  "receiptOf E r returnData message =
     (let txIndex = uint (rc_TransactionIndex r); blockNumber = uint (rc_BlockNumber r) in
      \<lparr>tr_BlockNumber = blockNumber, tr_TransactionIndex = txIndex,
       tr_BlockHash = ce_hashString (re_conn E) (rc_BlockHash r), tr_Success = isSuccess r,
       tr_ProtocolID = ProtocolIDForReceipt (Some blockNumber) (Some txIndex),
       tr_ExtraInfo =
         \<lparr>xi_ContractAddress = rc_ContractAddress r, xi_CumulativeGasUsed = rc_CumulativeGasUsed r,
          xi_From = rc_From r, xi_To = rc_To r, xi_GasUsed = rc_GasUsed r, xi_Status = rc_Status r,
          xi_ErrorMessage = message, xi_ReturnValue = returnData\<rparr>,
       tr_ContractLocation =
         map_option (\<lambda>a. ''{\"address\":\"'' @ ce_addressString (re_conn E) a @ ''\"}'')
           (rc_ContractAddress r),
       tr_Events = [], tr_Logs = None\<rparr>)"

definition enrichTransactionReceipt ::
  "'tc receiptEnv \<Rightarrow> TxReceiptJSONRPC \<Rightarrow> 'tc ethConnector \<Rightarrow>
   TransactionReceiptResponse result \<times> 'tc ethConnector" where
  "enrichTransactionReceipt E r c =
     (if isSuccess r then (Inr (receiptOf E r None None), c)
      else (case getErrorInfo E (ce_hashString (re_conn E) (rc_TransactionHash r))
                   (rc_RevertReason r) c of
              (Inl e, c1) \<Rightarrow> (Inl e, c1)
            | (Inr (returnData, message), c1) \<Rightarrow> (Inr (receiptOf E r returnData message), c1)))"

text \<open>Whether an answer that disagrees with what the caller saw can be trusted, with the head that was
  observed.\<close>

definition receiptDefinitive ::
  "'tc connEnv \<Rightarrow> TransactionReceiptRequest \<Rightarrow> 'tc ethConnector \<Rightarrow> (u64 \<times> bool) \<times> 'tc ethConnector" where
  "receiptDefinitive E req c =
     (case (lightMode c, tq_BlockNumber req) of
        (True, Some n) \<Rightarrow>
          (case ce_highestBlock E (c_tick c) of
             None \<Rightarrow> (0, False)
           | Some observedHead \<Rightarrow>
               (observedHead, observedHead \<ge> bigUint64 n + 2 * word_of_int (c_checkpointBlockGap c)),
           c_ticked c)
      | _ \<Rightarrow> ((0, True), c))"

section \<open>The events of a receipt\<close>

text \<open>The filters are tried in turn on a log: a later match replaces an earlier one only if it also
  decoded.\<close>

fun bestMatch ::
  "'tc connEnv \<Rightarrow> bool \<Rightarrow> abiEntry list \<Rightarrow> LogJSONRPC \<Rightarrow> eventFilter list \<Rightarrow> Event option \<Rightarrow>
   'tc ethConnector \<Rightarrow> Event option result \<times> 'tc ethConnector" where
  "bestMatch E extractSigner methods ethLog [] best c = (Inr best, c)"
| "bestMatch E extractSigner methods ethLog (f # fs) best c =
     (case ee_filterEnrichEthLog E extractSigner f methods ethLog c of
        (Inl e, c1) \<Rightarrow> (Inl e, c1)
      | (Inr (event, matches, decoded, err), c1) \<Rightarrow>
          bestMatch E extractSigner methods ethLog fs
            (if matches \<and> err = None \<and> (decoded \<or> best = None) then event else best) c1)"

fun receiptEvents ::
  "'tc connEnv \<Rightarrow> bool \<Rightarrow> abiEntry list \<Rightarrow> eventFilter list \<Rightarrow> LogJSONRPC list \<Rightarrow> 'tc ethConnector \<Rightarrow>
   Event list result \<times> 'tc ethConnector" where
  "receiptEvents E extractSigner methods fs [] c = (Inr [], c)"
| "receiptEvents E extractSigner methods fs (ethLog # logs) c =
     (case bestMatch E extractSigner methods ethLog fs None c of
        (Inl e, c1) \<Rightarrow> (Inl e, c1)
      | (Inr best, c1) \<Rightarrow>
          (case receiptEvents E extractSigner methods fs logs c1 of
             (Inl e, c2) \<Rightarrow> (Inl e, c2)
           | (Inr es, c2) \<Rightarrow> (Inr ((case best of None \<Rightarrow> [] | Some e \<Rightarrow> [e]) @ es), c2)))"

section \<open>The request\<close>

fun parseMethods :: "'tc receiptEnv \<Rightarrow> string list \<Rightarrow> abiEntry list option" where
  "parseMethods E [] = Some []"
| "parseMethods E (m # ms) =
     (case re_parseMethod E m of
        None \<Rightarrow> None
      | Some e \<Rightarrow> map_option ((#) e) (parseMethods E ms))"

definition parseReceiptRequest ::
  "'tc receiptEnv \<Rightarrow> TransactionReceiptRequest \<Rightarrow> (eventFilter list \<times> abiEntry list) result result" where
  "parseReceiptRequest E req =
     (case (if tq_EventFilters req = [] then Inr (Inr ('''', []))
            else parseEventFilters (re_conn E) (tq_EventFilters req)) of
        Inl e \<Rightarrow> Inl e
      | Inr (Inl e) \<Rightarrow> Inr (Inl e)
      | Inr (Inr (_, filters)) \<Rightarrow>
          (case parseMethods E (tq_Methods req) of
             None \<Rightarrow> Inr (Inl MsgUnmarshalABIMethodFail)
           | Some methods \<Rightarrow> Inr (Inr (filters, methods))))"

text \<open>Whether the receipt lies in another block than the one the caller saw.\<close>

definition otherBlock :: "'tc receiptEnv \<Rightarrow> TransactionReceiptRequest \<Rightarrow> TxReceiptJSONRPC \<Rightarrow> bool" where
  "otherBlock E req r \<longleftrightarrow>
     tq_BlockHash req \<noteq> '''' \<and>
     \<not> EqualFold (ce_hashString (re_conn E) (rc_BlockHash r)) (tq_BlockHash req)"

text \<open>\<open>req.BlockNumber.Uint64()\<close>, where the code has established that it is not nil.\<close>

definition requestBlock :: "TransactionReceiptRequest \<Rightarrow> u64" where
  "requestBlock req = (case tq_BlockNumber req of None \<Rightarrow> 0 | Some n \<Rightarrow> bigUint64 n)"

definition respondReceipt ::
  "'tc receiptEnv \<Rightarrow> TransactionReceiptRequest \<Rightarrow> eventFilter list \<Rightarrow> abiEntry list \<Rightarrow> TxReceiptJSONRPC \<Rightarrow>
   'tc ethConnector \<Rightarrow> TransactionReceiptResponse result \<times> 'tc ethConnector" where
  "respondReceipt E req filters methods r c =
     (case enrichTransactionReceipt E r c of
        (Inl e, c1) \<Rightarrow> (Inl e, c1)
      | (Inr resp, c1) \<Rightarrow>
          (case (if filters = [] then (Inr [], c1)
                 else receiptEvents (re_conn E) (tq_ExtractSigner req) methods filters (rc_Logs r) c1) of
             (Inl e, c2) \<Rightarrow> (Inl e, c2)
           | (Inr es, c2) \<Rightarrow>
               (Inr (resp\<lparr>tr_Events := es,
                          tr_Logs := if tq_IncludeLogs req then Some (rc_Logs r) else None\<rparr>), c2)))"

definition TransactionReceipt ::
  "'tc receiptEnv \<Rightarrow> TransactionReceiptRequest \<Rightarrow> 'tc ethConnector \<Rightarrow>
   ((ErrorReason \<times> failure) + TransactionReceiptResponse) result \<times> 'tc ethConnector" where
  "TransactionReceipt E req c =
     (case parseReceiptRequest E req of
        Inl e \<Rightarrow> (Inl e, c)
      | Inr (Inl e) \<Rightarrow> (Inr (Inl (ErrorReasonInvalidInputs, e)), c)
      | Inr (Inr (filters, methods)) \<Rightarrow>
          (case re_getTransactionReceipt E (c_tick c) (tq_TransactionHash req) of
             Inl e \<Rightarrow> (Inr (Inl (ReasonNone, RPCFailure e)), c_ticked c)
           | Inr None \<Rightarrow>
               (case receiptDefinitive (re_conn E) req (c_ticked c) of
                  ((observedHead, definitive), c1) \<Rightarrow>
                    (Inr (Inl
                       (if \<not> definitive
                        then (ErrorReasonNodeBehind,
                              MsgReceiptNodeBehind (tq_TransactionHash req) (requestBlock req) observedHead)
                        else (ErrorReasonNotFound, MsgReceiptNotAvailable (tq_TransactionHash req)))), c1))
           | Inr (Some r) \<Rightarrow>
               (case (if otherBlock E req r then receiptDefinitive (re_conn E) req (c_ticked c)
                      else ((0, True), c_ticked c)) of
                  ((observedHead, definitive), c1) \<Rightarrow>
                    (if \<not> definitive
                     then (Inr (Inl (ErrorReasonNodeBehind,
                             MsgReceiptBlockMismatchNodeBehind (tq_TransactionHash req) (rc_BlockNumber r)
                               (rc_BlockHash r) (requestBlock req) (tq_BlockHash req) observedHead)), c1)
                     else (case respondReceipt E req filters methods r c1 of
                             (Inl e, c2) \<Rightarrow> (Inl e, c2)
                           | (Inr resp, c2) \<Rightarrow> (Inr (Inr resp), c2))))))"

end
