(* ===== verification/ReceiptProofs.thy ===== *)
theory ReceiptProofs
  imports Receipts
begin

text \<open>
  What a receipt answer means: when the connector gives one that disagrees with the block the caller
  saw, and which event it gives for a log that several filters match.
\<close>

section \<open>Definitive answers\<close>

text \<open>The threshold of \<open>receiptDefinitive\<close>, when the sum does not wrap.\<close>

lemma uint_of_int_small: "0 \<le> k \<Longrightarrow> k < 2 ^ 64 \<Longrightarrow> uint (word_of_int k :: u64) = k"
  by (simp add: uint_word_of_int)

lemma definitive_threshold:
  assumes "0 \<le> n" and "0 \<le> gap" and "n + 2 * gap < 2 ^ 64"
  shows "uint (bigUint64 n + 2 * word_of_int gap) = n + 2 * gap"
proof -
  have "bigUint64 n + 2 * word_of_int gap = (word_of_int (n + 2 * gap) :: u64)"
    using assms(1) by (simp add: bigUint64_def)
  then show ?thesis using assms by (simp only: uint_of_int_small)
qed

text \<open>The head that was observed lies two gaps above the block of the caller.\<close>

definition headPassed :: "'tc connEnv \<Rightarrow> int \<Rightarrow> 'tc ethConnector \<Rightarrow> bool" where
  "headPassed E n c \<longleftrightarrow>
     (\<exists>h. ce_highestBlock E (c_tick c) = Some h \<and> n + 2 * c_checkpointBlockGap c \<le> uint h)"

lemma receiptDefinitive_headPassed:
  assumes "receiptDefinitive E req c = ((h, definitive), c')" and "lightMode c"
    and "tq_BlockNumber req = Some n" and "0 \<le> n" and "0 \<le> c_checkpointBlockGap c"
    and "n + 2 * c_checkpointBlockGap c < 2 ^ 64"
  shows "definitive \<longleftrightarrow> headPassed E n c"
  using assms(1-3) definitive_threshold [OF assms(4-6)]
  by (auto simp: receiptDefinitive_def headPassed_def word_le_def split: option.splits)

lemma enrich_blockHash:
  "enrichTransactionReceipt E r c = (Inr resp, c') \<Longrightarrow>
     tr_BlockHash resp = ce_hashString (re_conn E) (rc_BlockHash r)"
  by (auto simp: enrichTransactionReceipt_def receiptOf_def Let_def
      split: if_splits sum.splits prod.splits)

lemma respondReceipt_fields:
  assumes "respondReceipt E req filters methods r c = (Inr resp, c')"
  shows "tr_BlockHash resp = ce_hashString (re_conn E) (rc_BlockHash r) \<and>
    (\<exists>c1. if filters = [] then tr_Events resp = []
          else receiptEvents (re_conn E) (tq_ExtractSigner req) methods filters (rc_Logs r) c1 =
                 (Inr (tr_Events resp), c'))"
proof -
  obtain resp1 c1 es where e: "enrichTransactionReceipt E r c = (Inr resp1, c1)"
    and l: "(if filters = [] then (Inr [], c1)
             else receiptEvents (re_conn E) (tq_ExtractSigner req) methods filters (rc_Logs r) c1) = (Inr es, c')"
    and resp: "resp = resp1\<lparr>tr_Events := es, tr_Logs := if tq_IncludeLogs req then Some (rc_Logs r) else None\<rparr>"
    using assms by (auto simp: respondReceipt_def split: sum.splits prod.splits)
  have "if filters = [] then tr_Events resp = []
        else receiptEvents (re_conn E) (tq_ExtractSigner req) methods filters (rc_Logs r) c1 =
               (Inr (tr_Events resp), c')"
    using l resp by (auto split: if_splits)
  with enrich_blockHash [OF e] resp show ?thesis by auto
qed

text \<open>The ways a request for a receipt can end, once it parses and the node answers.\<close>

lemma TransactionReceipt_cases:
  assumes "TransactionReceipt E req c = (Inr r, c')"
  obtains e where "r = Inl (ErrorReasonInvalidInputs, e)"
  | e where "r = Inl (ReasonNone, e)"
  | h d e where "re_getTransactionReceipt E (c_tick c) (tq_TransactionHash req) = Inr None"
      "receiptDefinitive (re_conn E) req (c_ticked c) = ((h, d), c')"
      "r = Inl (if d then ErrorReasonNotFound else ErrorReasonNodeBehind, e)"
  | rc h e where "re_getTransactionReceipt E (c_tick c) (tq_TransactionHash req) = Inr (Some rc)"
      "otherBlock E req rc" "receiptDefinitive (re_conn E) req (c_ticked c) = ((h, False), c')"
      "r = Inl (ErrorReasonNodeBehind, e)"
  | rc c1 filters methods resp where
      "re_getTransactionReceipt E (c_tick c) (tq_TransactionHash req) = Inr (Some rc)"
      "parseReceiptRequest E req = Inr (Inr (filters, methods))"
      "otherBlock E req rc \<longrightarrow> (\<exists>h. receiptDefinitive (re_conn E) req (c_ticked c) = ((h, True), c1))"
      "respondReceipt E req filters methods rc c1 = (Inr resp, c')" "r = Inr resp"
  using assms
  by (auto simp: TransactionReceipt_def split: sum.splits option.splits prod.splits if_splits)

section \<open>The best match\<close>

type_synonym matchResult = "Event option \<times> bool \<times> bool \<times> failure option"

text \<open>What the enricher says about one log, for each filter in turn.\<close>

inductive matchResults ::
  "'tc connEnv \<Rightarrow> bool \<Rightarrow> abiEntry list \<Rightarrow> LogJSONRPC \<Rightarrow> eventFilter list \<Rightarrow> 'tc ethConnector \<Rightarrow>
   matchResult list \<Rightarrow> 'tc ethConnector \<Rightarrow> bool"
  for E signer methods ethLog where
  no_filter: "matchResults E signer methods ethLog [] c [] c"
| next_filter: "ee_filterEnrichEthLog E signer f methods ethLog c = (Inr r, c1) \<Longrightarrow>
    matchResults E signer methods ethLog fs c1 rs c2 \<Longrightarrow>
    matchResults E signer methods ethLog (f # fs) c (r # rs) c2"

definition matched :: "matchResult \<Rightarrow> bool" where
  "matched r \<longleftrightarrow> (case r of (event, matches, decoded, err) \<Rightarrow> matches \<and> err = None)"

definition decodedMatch :: "matchResult \<Rightarrow> bool" where
  "decodedMatch r \<longleftrightarrow> (case r of (event, matches, decoded, err) \<Rightarrow> matches \<and> err = None \<and> decoded)"

text \<open>The event to give: the last one that decoded; if none did, the first that matched.\<close>

definition bestOf :: "matchResult list \<Rightarrow> Event option" where
  "bestOf rs =
     (if filter decodedMatch rs \<noteq> [] then fst (last (filter decodedMatch rs))
      else case filter matched rs of [] \<Rightarrow> None | r # _ \<Rightarrow> fst r)"

lemma matched_has_event:
  "ee_filterEnrichEthLog E signer f methods ethLog c = (Inr r, c1) \<Longrightarrow> matched r \<Longrightarrow> fst r \<noteq> None"
  by (auto simp: ee_filterEnrichEthLog_def matched_def Let_def
      split: sum.splits prod.splits bool.splits)

lemma decoded_matched: "decodedMatch r \<Longrightarrow> matched r"
  by (simp add: decodedMatch_def matched_def split: prod.splits)

definition better :: "Event option \<Rightarrow> matchResult list \<Rightarrow> Event option" where
  "better best rs =
     (if filter decodedMatch rs \<noteq> [] then fst (last (filter decodedMatch rs))
      else if best \<noteq> None then best
      else case filter matched rs of [] \<Rightarrow> None | r # _ \<Rightarrow> fst r)"

lemma better_None [simp]: "better None rs = bestOf rs"
  by (simp add: better_def bestOf_def)

lemma better_Nil [simp]: "better best [] = best"
  by (simp add: better_def)

lemma better_Cons:
  assumes "matched r \<longrightarrow> fst r \<noteq> None"
  shows "better best (r # rs) =
    better (if matched r \<and> (decodedMatch r \<or> best = None) then fst r else best) rs"
  using assms decoded_matched [of r] by (auto simp: better_def)

lemma bestMatch_better:
  "bestMatch E signer methods ethLog fs best c = (Inr b, c') \<Longrightarrow>
     \<exists>rs. matchResults E signer methods ethLog fs c rs c' \<and> b = better best rs"
proof (induction fs arbitrary: best c)
  case Nil
  then show ?case by (auto intro: no_filter)
next
  case (Cons f fs)
  from Cons.prems obtain event matches decoded err c1
    where ee: "ee_filterEnrichEthLog E signer f methods ethLog c = (Inr (event, matches, decoded, err), c1)"
      and rest: "bestMatch E signer methods ethLog fs
        (if matches \<and> err = None \<and> (decoded \<or> best = None) then event else best) c1 = (Inr b, c')"
    by (auto split: sum.splits prod.splits)
  let ?r = "(event, matches, decoded, err)"
  from Cons.IH [OF rest] obtain rs where rs: "matchResults E signer methods ethLog fs c1 rs c'"
    "b = better (if matches \<and> err = None \<and> (decoded \<or> best = None) then event else best) rs" by blast
  have "better best (?r # rs) = b"
    using better_Cons [of ?r best rs] matched_has_event [OF ee] rs(2)
    by (auto simp: matched_def decodedMatch_def)
  with next_filter [OF ee rs(1)] show ?case by blast
qed

text \<open>The events of a receipt: at most one for each log, the best one.\<close>

inductive eachLog ::
  "'tc connEnv \<Rightarrow> bool \<Rightarrow> abiEntry list \<Rightarrow> eventFilter list \<Rightarrow> LogJSONRPC list \<Rightarrow> 'tc ethConnector \<Rightarrow>
   matchResult list list \<Rightarrow> 'tc ethConnector \<Rightarrow> bool"
  for E signer methods fs where
  no_log: "eachLog E signer methods fs [] c [] c"
| next_log: "matchResults E signer methods ethLog fs c rs c1 \<Longrightarrow>
    eachLog E signer methods fs logs c1 rss c2 \<Longrightarrow>
    eachLog E signer methods fs (ethLog # logs) c (rs # rss) c2"

inductive_cases eachLog_ConsE: "eachLog E signer methods fs (ethLog # logs) c rss c'"

lemma receiptEvents_best:
  "receiptEvents E signer methods fs logs c = (Inr es, c') \<Longrightarrow>
     \<exists>rss. eachLog E signer methods fs logs c rss c' \<and>
       es = List.map_filter bestOf rss"
proof (induction logs arbitrary: c es)
  case Nil
  then show ?case by (auto intro: no_log simp: List.map_filter_simps)
next
  case (Cons g logs)
  from Cons.prems obtain best c1 es1
    where b: "bestMatch E signer methods g fs None c = (Inr best, c1)"
      and rest: "receiptEvents E signer methods fs logs c1 = (Inr es1, c')"
      and es: "es = (case best of None \<Rightarrow> [] | Some e \<Rightarrow> [e]) @ es1"
    by (auto split: sum.splits prod.splits)
  from bestMatch_better [OF b] obtain rs where rs: "matchResults E signer methods g fs c rs c1"
    "best = bestOf rs" by auto
  from Cons.IH [OF rest] obtain rss where rss: "eachLog E signer methods fs logs c1 rss c'"
    "es1 = List.map_filter bestOf rss" by blast
  have "es = List.map_filter bestOf (rs # rss)"
    using es rs(2) rss(2) by (simp add: List.map_filter_simps split: option.split)
  with next_log [OF rs(1) rss(1)] show ?case by blast
qed

lemma eachLog_length: "eachLog E signer methods fs logs c rss c' \<Longrightarrow> length rss = length logs"
  by (induction rule: eachLog.induct) auto

end
