(* ===== verification/TxCalls.thy ===== *)
theory TxCalls
  imports CanonicalChain Encoding
begin

text \<open>
  Calls and gas estimates: \<open>internal/ethereum/exec_query.go\<close>, \<open>estimate_gas.go\<close>, and what they share
  with the preparation of transactions (\<open>prepare_transaction.go\<close>: the parsing of the method and its
  parameters, the transaction object).

  The environment \<open>txEnv\<close> holds the ABI library, JSON parsing, the parsing and printing of addresses
  and byte strings, and four methods of the node, whose first argument is the number of calls made
  so far. That number, \<open>t\<close>, is the only state: the functions here write nothing else. A JSON value
  and an ABI entry are opaque strings; an entry that was null is \<open>None\<close>. As elsewhere a panic is the
  outer left summand, and an answer's left summand is the reason and the error.
\<close>

section \<open>Data\<close>

record rpcError =
  er_Message :: string
  er_Data :: string

text \<open>\<open>ethsigner.Transaction\<close>: \<open>From\<close> is raw JSON, here with its quotes.\<close>

record transaction =
  t_From :: "string option"
  t_To :: "address option"
  t_Nonce :: "int option"
  t_GasPrice :: "int option"
  t_MaxPriorityFeePerGas :: "int option"
  t_MaxFeePerGas :: "int option"
  t_GasLimit :: "int option"
  t_Value :: "int option"
  t_Data :: "8 word list"

record txHeaders =
  th_From :: string
  th_To :: string
  th_Nonce :: "int option"
  th_Gas :: "int option"
  th_Value :: "int option"

record TransactionInput =
  ti_Headers :: txHeaders
  ti_Method :: string
  ti_Params :: "string option list"
  ti_Errors :: "string list"

record txEnv =
  te_newAddress :: "string \<Rightarrow> address option"
  te_addressString :: "address \<Rightarrow> string"
  te_hexString :: "8 word list \<Rightarrow> string"
  te_parseEntry :: "string \<Rightarrow> string option option"
  te_parseParam :: "string \<Rightarrow> string option"
  te_parseExternalData :: "string \<Rightarrow> string option list \<Rightarrow> string + string"
  te_encodeCallData :: "string \<Rightarrow> string \<Rightarrow> string + 8 word list"
  te_encodeABIData :: "string \<Rightarrow> string + 8 word list"
  te_decodeOutputs :: "string \<Rightarrow> 8 word list \<Rightarrow> string + string"
  te_serialize :: "string \<Rightarrow> string + string"
  te_errorString :: "string option list \<Rightarrow> 8 word list \<Rightarrow> string option"
  te_unmarshalHex :: "string \<Rightarrow> hexbytes option"
  te_unmarshalString :: "string \<Rightarrow> string option"
  te_unmarshalInteger :: "string \<Rightarrow> int option option"
  te_getInteger :: "string \<Rightarrow> string \<Rightarrow> int"
    \<comment> \<open>a field of a JSON object as an integer, 0 where there is none\<close>
  te_parseABI :: "string \<Rightarrow> string option option"
  te_constructor :: "string option \<Rightarrow> string option result"
  te_errorText :: "failure \<Rightarrow> string"
  te_gasFactor :: "int \<times> int" \<comment> \<open>mantissa and binary exponent of the factor, a finite float64\<close>
  te_ethCall :: "nat \<Rightarrow> transaction \<Rightarrow> string \<Rightarrow> rpcError + hexbytes"
  te_estimateGas :: "nat \<Rightarrow> transaction \<Rightarrow> rpcError + int"
  te_sendTransaction :: "nat \<Rightarrow> transaction \<Rightarrow> rpcError + hexbytes"
  te_sendRawTransaction :: "nat \<Rightarrow> string \<Rightarrow> rpcError + hexbytes"

section \<open>The transaction object\<close>

datatype txType = txTypeQuery | txTypeDeployContract | txTypeInvokeContract | txTypePrePrepared

definition quoted :: "string \<Rightarrow> string" where
  "quoted s = ''\"'' @ s @ ''\"''"

text \<open>The \<open>from\<close> address may be missing for a query; the \<open>to\<close> address of a deployment is not looked at,
  and that of a prepared transaction may be empty.\<close>

definition fromField :: "txEnv \<Rightarrow> txType \<Rightarrow> string \<Rightarrow> string option result" where
  "fromField E ty fromString =
     (case te_newAddress E fromString of
        None \<Rightarrow> if ty \<noteq> txTypeQuery then Inl (MsgInvalidFromAddress fromString) else Inr None
      | Some a \<Rightarrow> Inr (Some (quoted (te_addressString E a))))"

definition toField :: "txEnv \<Rightarrow> txType \<Rightarrow> string \<Rightarrow> address option result" where
  "toField E ty toString =
     (if ty \<noteq> txTypeDeployContract \<and> (ty \<noteq> txTypePrePrepared \<or> toString \<noteq> '''')
      then (case te_newAddress E toString of
              None \<Rightarrow> Inl (MsgInvalidToAddress toString)
            | Some a \<Rightarrow> Inr (Some a))
      else Inr None)"

definition buildTx ::
  "txEnv \<Rightarrow> txType \<Rightarrow> txHeaders \<Rightarrow> 8 word list \<Rightarrow> transaction result" where
  "buildTx E ty h bytes =
     (case fromField E ty (th_From h) of
        Inl e \<Rightarrow> Inl e
      | Inr from' \<Rightarrow>
          (case toField E ty (th_To h) of
             Inl e \<Rightarrow> Inl e
           | Inr to' \<Rightarrow>
               Inr \<lparr>t_From = from', t_To = to', t_Nonce = th_Nonce h, t_GasPrice = None,
                    t_MaxPriorityFeePerGas = None, t_MaxFeePerGas = None, t_GasLimit = th_Gas h,
                    t_Value = th_Value h, t_Data = bytes\<rparr>))"

section \<open>The method and its parameters\<close>

fun parseParams :: "txEnv \<Rightarrow> nat \<Rightarrow> string option list \<Rightarrow> string option list result" where
  "parseParams E i [] = Inr []"
| "parseParams E i (p # ps) =
     (case (case p of None \<Rightarrow> Inr None
            | Some s \<Rightarrow> (case te_parseParam E s of
                           None \<Rightarrow> Inl (MsgUnmarshalParamFail i)
                         | Some v \<Rightarrow> Inr (Some v))) of
        Inl e \<Rightarrow> Inl e
      | Inr v \<Rightarrow> (case parseParams E (Suc i) ps of Inl e \<Rightarrow> Inl e | Inr vs \<Rightarrow> Inr (v # vs)))"

definition prepareCallData ::
  "txEnv \<Rightarrow> TransactionInput \<Rightarrow> (8 word list \<times> string) result result" where
  "prepareCallData E req =
     (case te_parseEntry E (ti_Method req) of
        None \<Rightarrow> Inr (Inl MsgUnmarshalABIMethodFail)
      | Some method \<Rightarrow>
          (case parseParams E 0 (ti_Params req) of
             Inl e \<Rightarrow> Inr (Inl e)
           | Inr ethParams \<Rightarrow>
               (case method of
                  None \<Rightarrow> Inl PanicNilDereference
                | Some entry \<Rightarrow>
                    (case te_parseExternalData E entry ethParams of
                       Inl e \<Rightarrow> Inr (Inl (LibraryFailure e))
                     | Inr paramValues \<Rightarrow>
                         (case te_encodeCallData E entry paramValues of
                            Inl e \<Rightarrow> Inr (Inl (LibraryFailure e))
                          | Inr callData \<Rightarrow> Inr (Inr (callData, entry)))))))"

fun buildErrorsABI :: "txEnv \<Rightarrow> string list \<Rightarrow> string option list result" where
  "buildErrorsABI E [] = Inr []"
| "buildErrorsABI E (e # es) =
     (case te_parseEntry E e of
        None \<Rightarrow> Inl MsgUnmarshalABIErrorsFail
      | Some x \<Rightarrow> (case buildErrorsABI E es of Inl err \<Rightarrow> Inl err | Inr xs \<Rightarrow> Inr (x # xs)))"

section \<open>Reverts\<close>

text \<open>The empty string means that the output is no error.\<close>

definition processRevertReason :: "txEnv \<Rightarrow> 8 word list \<Rightarrow> string option list \<Rightarrow> string" where
  "processRevertReason E outputData errorAbis =
     (if length outputData mod 32 = 4
      then (case te_errorString E errorAbis outputData of
              Some r \<Rightarrow> r
            | None \<Rightarrow> te_hexString E outputData)
      else '''')"

definition attemptProcessingRevertData ::
  "txEnv \<Rightarrow> string option list \<Rightarrow> rpcError \<Rightarrow> (ErrorReason \<times> failure) option" where
  "attemptProcessingRevertData E errors rpcErr =
     (if er_Data rpcErr = '''' then None
      else case te_unmarshalHex E (er_Data rpcErr) of
        None \<Rightarrow> None
      | Some revertData \<Rightarrow>
          (let revertReason = processRevertReason E (bytesOf revertData) errors in
           if revertReason \<noteq> ''''
           then Some (ErrorReasonTransactionReverted, MsgReverted revertReason) else None))"

section \<open>Calls\<close>

definition callTransaction ::
  "txEnv \<Rightarrow> transaction \<Rightarrow> string option \<Rightarrow> string option list \<Rightarrow> string option \<Rightarrow> nat \<Rightarrow>
   ((ErrorReason \<times> failure) + string option) \<times> nat" where
  "callTransaction E tx method errors blockNumber t =
     (case te_ethCall E t tx (case blockNumber of None \<Rightarrow> ''latest'' | Some b \<Rightarrow> b) of
        Inl rpcErr \<Rightarrow>
          (case attemptProcessingRevertData E errors rpcErr of
             Some r \<Rightarrow> Inl r
           | None \<Rightarrow>
               (let reason = MapError CallRPCMethods (er_Message rpcErr) in
                Inl (reason, if reason = ErrorReasonTransactionReverted
                             then MsgReverted (er_Message rpcErr) else RPCFailure (er_Message rpcErr))))
      | Inr output \<Rightarrow>
          (let outputData = bytesOf output in
           if outputData = [] then Inr None
           else (let revertReason = processRevertReason E outputData errors in
                 if revertReason \<noteq> '''' then Inl (ErrorReasonTransactionReverted, MsgReverted revertReason)
                 else (case method of
                         None \<Rightarrow> Inr (Some ''null'')
                       | Some entry \<Rightarrow>
                           (case te_decodeOutputs E entry outputData of
                              Inl e \<Rightarrow> Inl (ReasonNone, MsgReturnDataInvalid)
                            | Inr v \<Rightarrow> (case te_serialize E v of
                                           Inl e \<Rightarrow> Inl (ReasonNone, MsgReturnDataInvalid)
                                         | Inr json \<Rightarrow> Inr (Some json)))))), Suc t)"

definition QueryInvoke ::
  "txEnv \<Rightarrow> TransactionInput \<Rightarrow> string option \<Rightarrow> nat \<Rightarrow>
   ((ErrorReason \<times> failure) + string option) result \<times> nat" where
  "QueryInvoke E req blockNumber t =
     (case prepareCallData E req of
        Inl e \<Rightarrow> (Inl e, t)
      | Inr (Inl e) \<Rightarrow> (Inr (Inl (ErrorReasonInvalidInputs, e)), t)
      | Inr (Inr (callData, method)) \<Rightarrow>
          (case buildErrorsABI E (ti_Errors req) of
             Inl e \<Rightarrow> (Inr (Inl (ErrorReasonInvalidInputs, e)), t)
           | Inr errors \<Rightarrow>
               (case buildTx E txTypeQuery (ti_Headers req) callData of
                  Inl e \<Rightarrow> (Inr (Inl (ErrorReasonInvalidInputs, e)), t)
                | Inr tx \<Rightarrow>
                    (case callTransaction E tx (Some method) errors blockNumber t of
                       (r, t1) \<Rightarrow> (Inr r, t1)))))"

section \<open>Gas estimates\<close>

text \<open>\<open>math/big\<close>: an integer as a \<open>Float\<close> has a precision of its bit length, 64 at least; a product is
  rounded to that precision, to the nearest value and in a tie to the even one; \<open>Int\<close> truncates.\<close>

fun bitLen :: "nat \<Rightarrow> nat" where
  "bitLen n = (if n = 0 then 0 else Suc (bitLen (n div 2)))"

declare bitLen.simps [simp del]

definition roundToEven :: "nat \<Rightarrow> nat \<Rightarrow> nat" where
  "roundToEven prec n =
     (let s = bitLen n - prec in
      if s = 0 then n
      else (let q = n div 2 ^ s; r = n mod 2 ^ s; half = 2 ^ (s - 1)
            in (if r > half \<or> (r = half \<and> odd q) then q + 1 else q) * 2 ^ s))"

definition truncScaled :: "nat \<Rightarrow> int \<Rightarrow> nat" where
  "truncScaled n e = (if e \<ge> 0 then n * 2 ^ nat e else n div 2 ^ nat (- e))"

definition scaleGas :: "int \<times> int \<Rightarrow> int \<Rightarrow> int" where
  "scaleGas factor estimate =
     (case factor of
        (m, e) \<Rightarrow>
          sgn (estimate * m) *
          int (truncScaled (roundToEven (max (bitLen (nat \<bar>estimate\<bar>)) 64) (nat \<bar>estimate * m\<bar>)) e))"

definition gasEstimate ::
  "txEnv \<Rightarrow> ('bc, 'rc) blockListener option \<Rightarrow> transaction \<Rightarrow> string option \<Rightarrow> string option list \<Rightarrow> nat \<Rightarrow>
   ((ErrorReason \<times> failure) + int) \<times> nat" where
  "gasEstimate E bl tx method errors t =
     (case te_estimateGas E t tx of
        Inl rpcErr \<Rightarrow>
          (case attemptProcessingRevertData E errors rpcErr of
             Some r \<Rightarrow> (Inl r, Suc t)
           | None \<Rightarrow>
               (case callTransaction E tx method errors None (Suc t) of
                  (Inl (ErrorReasonTransactionReverted, errCall), t1) \<Rightarrow>
                    (Inl (ErrorReasonTransactionReverted, errCall), t1)
                | (_, t1) \<Rightarrow>
                    (Inl (MapError CallRPCMethods (er_Message rpcErr), RPCFailure (er_Message rpcErr)), t1)))
      | Inr estimate \<Rightarrow>
          (let scaledLimit = scaleGas (te_gasFactor E) estimate in
           case Option.bind bl GetBlockGasLimit of
             Some gasLimit \<Rightarrow>
               (if gasLimit < scaledLimit
                then Inl (ReasonNone, MsgTransactionEstimateTooLargeForBlock scaledLimit estimate gasLimit)
                else Inr scaledLimit)
           | None \<Rightarrow> Inr scaledLimit, Suc t))"

text \<open>The request of the API: no data, and the \<open>to\<close> address may be empty.\<close>

definition GasEstimate ::
  "txEnv \<Rightarrow> ('bc, 'rc) blockListener option \<Rightarrow> TransactionInput \<Rightarrow> nat \<Rightarrow>
   ((ErrorReason \<times> failure) + int) \<times> nat" where
  "GasEstimate E bl req t =
     (let h = ti_Headers req in
      case te_newAddress E (th_From h) of
        None \<Rightarrow> (Inl (ErrorReasonInvalidInputs, MsgInvalidFromAddress (th_From h)), t)
      | Some from' \<Rightarrow>
          (let tx = \<lparr>t_From = Some (quoted (te_addressString E from')), t_To = None,
                     t_Nonce = th_Nonce h, t_GasPrice = None, t_MaxPriorityFeePerGas = None,
                     t_MaxFeePerGas = None, t_GasLimit = th_Gas h, t_Value = th_Value h, t_Data = []\<rparr> in
           if th_To h = '''' then gasEstimate E bl tx None [] t
           else (case te_newAddress E (th_To h) of
                   None \<Rightarrow> (Inl (ErrorReasonInvalidInputs, MsgInvalidToAddress (th_To h)), t)
                 | Some to' \<Rightarrow> gasEstimate E bl (tx\<lparr>t_To := Some to'\<rparr>) None [] t)))"

end
