(* ===== verification/Transactions.thy ===== *)
theory Transactions
  imports TxCalls
begin

text \<open>
  The preparation and the submission of transactions: \<open>internal/ethereum/prepare_transaction.go\<close>,
  \<open>deploy_contract_prepare.go\<close> and \<open>send_transaction.go\<close>. The environment and the conventions are
  those of \<open>TxCalls\<close>.
\<close>

section \<open>Preparation\<close>

record TransactionPrepareResponse =
  pr_Gas :: int
  pr_TransactionData :: string

definition ensureGasEstimate ::
  "txEnv \<Rightarrow> ('bc, 'rc) blockListener option \<Rightarrow> transaction \<Rightarrow> string option \<Rightarrow> string option list \<Rightarrow>
   int option \<Rightarrow> nat \<Rightarrow> ((ErrorReason \<times> failure) + int) \<times> nat" where
  "ensureGasEstimate E bl tx method errors gasRequest t =
     (case gasRequest of
        Some g \<Rightarrow> if g = 0 then gasEstimate E bl tx method errors t else (Inr g, t)
      | None \<Rightarrow> gasEstimate E bl tx method errors t)"

text \<open>What \<open>TransactionPrepare\<close> and \<open>DeployContractPrepare\<close> do once the call data is known.\<close>

definition prepareWith ::
  "txEnv \<Rightarrow> ('bc, 'rc) blockListener option \<Rightarrow> txType \<Rightarrow> txHeaders \<Rightarrow> 8 word list \<Rightarrow> string option \<Rightarrow>
   string list \<Rightarrow> nat \<Rightarrow> ((ErrorReason \<times> failure) + TransactionPrepareResponse) \<times> nat" where
  "prepareWith E bl ty h callData method errorSpecs t =
     (case buildTx E ty h callData of
        Inl e \<Rightarrow> (Inl (ErrorReasonInvalidInputs, e), t)
      | Inr tx \<Rightarrow>
          (case buildErrorsABI E errorSpecs of
             Inl e \<Rightarrow> (Inl (ErrorReasonInvalidInputs, e), t)
           | Inr errors \<Rightarrow>
               (case ensureGasEstimate E bl tx method errors (th_Gas h) t of
                  (Inl r, t1) \<Rightarrow> (Inl r, t1)
                | (Inr gas, t1) \<Rightarrow>
                    (Inr \<lparr>pr_Gas = gas, pr_TransactionData = te_hexString E callData\<rparr>, t1))))"

definition TransactionPrepare ::
  "txEnv \<Rightarrow> ('bc, 'rc) blockListener option \<Rightarrow> TransactionInput \<Rightarrow> nat \<Rightarrow>
   ((ErrorReason \<times> failure) + TransactionPrepareResponse) result \<times> nat" where
  "TransactionPrepare E bl req t =
     (case prepareCallData E req of
        Inl e \<Rightarrow> (Inl e, t)
      | Inr (Inl e) \<Rightarrow> (Inr (Inl (ErrorReasonInvalidInputs, e)), t)
      | Inr (Inr (callData, method)) \<Rightarrow>
          (case prepareWith E bl txTypeInvokeContract (ti_Headers req) callData (Some method)
                  (ti_Errors req) t of
             (r, t1) \<Rightarrow> (Inr r, t1)))"

section \<open>Deployment\<close>

record ContractDeployPrepareRequest =
  dp_Headers :: txHeaders
  dp_Contract :: string
  dp_Definition :: string
  dp_Params :: "string option list"
  dp_Errors :: "string list"

text \<open>The bytecode, as hexadecimal or else as Base64; the prefix counts for hexadecimal only.\<close>

definition decodeBytecode :: "string \<Rightarrow> 8 word list option" where
  "decodeBytecode s =
     (case hexDecodeString (TrimPrefix s ''0x'') of
        (bs, True) \<Rightarrow> Some bs
      | (_, False) \<Rightarrow> base64DecodeString s)"

definition prepareDeployData ::
  "txEnv \<Rightarrow> ContractDeployPrepareRequest \<Rightarrow> (8 word list \<times> string option) result result" where
  "prepareDeployData E req =
     (case Option.bind (te_unmarshalString E (dp_Contract req)) decodeBytecode of
        None \<Rightarrow> Inr (Inl MsgDecodeBytecodeFailed)
      | Some bytecode \<Rightarrow>
          (case te_parseABI E (dp_Definition req) of
             None \<Rightarrow> Inr (Inl MsgUnmarshalABIMethodFail)
           | Some a \<Rightarrow>
               (case te_constructor E a of
                  Inl e \<Rightarrow> Inl e
                | Inr None \<Rightarrow> Inr (Inr (bytecode, None))
                | Inr (Some method) \<Rightarrow>
                    (case parseParams E 0 (dp_Params req) of
                       Inl e \<Rightarrow> Inr (Inl e)
                     | Inr ethParams \<Rightarrow>
                         (case te_parseExternalData E method ethParams of
                            Inl e \<Rightarrow> Inr (Inl (LibraryFailure e))
                          | Inr paramValues \<Rightarrow>
                              (case te_encodeABIData E paramValues of
                                 Inl e \<Rightarrow> Inr (Inl (LibraryFailure e))
                               | Inr callData \<Rightarrow> Inr (Inr (bytecode @ callData, Some method))))))))"

definition DeployContractPrepare ::
  "txEnv \<Rightarrow> ('bc, 'rc) blockListener option \<Rightarrow> ContractDeployPrepareRequest \<Rightarrow> nat \<Rightarrow>
   ((ErrorReason \<times> failure) + TransactionPrepareResponse) result \<times> nat" where
  "DeployContractPrepare E bl req t =
     (case prepareDeployData E req of
        Inl e \<Rightarrow> (Inl e, t)
      | Inr (Inl e) \<Rightarrow> (Inr (Inl (ErrorReasonInvalidInputs, e)), t)
      | Inr (Inr (callData, method)) \<Rightarrow>
          (case prepareWith E bl txTypeDeployContract ((dp_Headers req)\<lparr>th_To := ''''\<rparr>) callData method
                  (dp_Errors req) t of
             (r, t1) \<Rightarrow> (Inr r, t1)))"

section \<open>Submission\<close>

record TransactionSendRequest =
  sd_Headers :: txHeaders
  sd_PreSigned :: bool
  sd_TransactionData :: string
  sd_GasPrice :: "string option"

text \<open>The gas price comes as an object with the fields of EIP-1559 or of a legacy price, or as a plain
  number; a JSON null in its place leaves the price of the transaction nil.\<close>

definition mapGasPrice :: "txEnv \<Rightarrow> string option \<Rightarrow> transaction \<Rightarrow> transaction result" where
  "mapGasPrice E input tx =
     (case input of
        None \<Rightarrow> Inr (tx\<lparr>t_GasPrice := Some 0\<rparr>)
      | Some json \<Rightarrow>
          (let maxPriorityFeePerGas = te_getInteger E json ''maxPriorityFeePerGas'';
               maxFeePerGas = te_getInteger E json ''maxFeePerGas'';
               gasPrice = te_getInteger E json ''gasPrice'' in
           if maxPriorityFeePerGas > 0 \<or> maxFeePerGas > 0
           then Inr (tx\<lparr>t_MaxPriorityFeePerGas := Some maxPriorityFeePerGas,
                        t_MaxFeePerGas := Some maxFeePerGas\<rparr>)
           else if gasPrice = 0
           then (case te_unmarshalInteger E json of
                   None \<Rightarrow> Inl MsgGasPriceError
                 | Some g \<Rightarrow> Inr (tx\<lparr>t_GasPrice := g\<rparr>))
           else Inr (tx\<lparr>t_GasPrice := Some gasPrice\<rparr>)))"

text \<open>The transaction that is submitted when the request is not signed already.\<close>

definition transactionToSend :: "txEnv \<Rightarrow> TransactionSendRequest \<Rightarrow> transaction result" where
  "transactionToSend E req =
     (case hexDecodeString (TrimPrefix (sd_TransactionData req) ''0x'') of
        (_, False) \<Rightarrow> Inl (MsgInvalidTXData (sd_TransactionData req))
      | (txData, True) \<Rightarrow>
          (case buildTx E txTypePrePrepared (sd_Headers req) txData of
             Inl e \<Rightarrow> Inl e
           | Inr tx \<Rightarrow> mapGasPrice E (sd_GasPrice req) tx))"

definition sendResult ::
  "txEnv \<Rightarrow> rpcError + hexbytes \<Rightarrow> (ErrorReason \<times> failure) + string" where
  "sendResult E answer' =
     (case (case answer' of
              Inl rpcErr \<Rightarrow> Inl (er_Message rpcErr)
            | Inr txHash \<Rightarrow>
                (if length (bytesOf txHash) \<noteq> 32
                 then Inl (te_errorText E (MsgInvalidTXHashReturned (length (bytesOf txHash))))
                 else Inr (bytesOf txHash))) of
        Inl text \<Rightarrow> Inl (MapError SendRPCMethods text, RPCFailure text)
      | Inr txHash \<Rightarrow> Inr (te_hexString E txHash))"

definition TransactionSend ::
  "txEnv \<Rightarrow> TransactionSendRequest \<Rightarrow> nat \<Rightarrow> ((ErrorReason \<times> failure) + string) \<times> nat" where
  "TransactionSend E req t =
     (if sd_PreSigned req
      then (sendResult E (te_sendRawTransaction E t (sd_TransactionData req)), Suc t)
      else (case transactionToSend E req of
              Inl e \<Rightarrow> (Inl (ErrorReasonInvalidInputs, e), t)
            | Inr tx \<Rightarrow> (sendResult E (te_sendTransaction E t tx), Suc t)))"

end
