(* ===== verification/TxProofs.thy ===== *)
theory TxProofs
  imports Transactions
begin

text \<open>
  Facts about calls and transactions: the rounding of a scaled gas estimate never takes it below the
  estimate when the factor is at least one, which answers of the node count as a revert, and what a
  transaction that is submitted looks like.
\<close>

section \<open>Scaling\<close>

lemma bitLen_upper: "n < 2 ^ bitLen n"
proof (induction n rule: bitLen.induct)
  case (1 n)
  then show ?case by (cases "n = 0") (simp_all add: bitLen.simps [of n])
qed

lemma bitLen_lower: "n \<noteq> 0 \<Longrightarrow> 2 ^ (bitLen n - 1) \<le> n"
proof (induction n rule: bitLen.induct)
  case (1 n)
  show ?case
  proof (cases "n div 2 = 0")
    case True
    with 1(2) show ?thesis by (simp add: bitLen.simps [of n] bitLen.simps [of 0])
  next
    case False
    then have "0 < bitLen (n div 2)" by (simp add: bitLen.simps [of "n div 2"])
    then obtain k where k: "bitLen (n div 2) = Suc k" using gr0_implies_Suc by blast
    have "2 ^ k \<le> n div 2" using 1 False k by simp
    then show ?thesis using 1(2) k by (simp add: bitLen.simps [of n])
  qed
qed

text \<open>Rounding up to an even neighbour or down to the truncated value: never below the latter.\<close>

lemma roundToEven_trunc:
  "bitLen n - prec = s \<Longrightarrow> n div 2 ^ s * 2 ^ s \<le> roundToEven prec n"
  by (auto simp: roundToEven_def Let_def)

text \<open>A number of at most \<open>prec\<close> bits, scaled by a power of two, bounds what is rounded from below.\<close>

lemma roundToEven_ge:
  assumes g: "g < 2 ^ prec" and le: "g * 2 ^ k \<le> n"
  shows "g * 2 ^ k \<le> roundToEven prec n"
proof (cases "n = 0 \<or> bitLen n \<le> prec")
  case True
  then show ?thesis using le by (auto simp: roundToEven_def bitLen.simps [of 0])
next
  case False
  define s where "s = bitLen n - prec"
  have s: "0 < s" "bitLen n = prec + s" using False by (simp_all add: s_def)
  have trunc: "n div 2 ^ s * 2 ^ s \<le> roundToEven prec n"
    by (rule roundToEven_trunc) (simp add: s_def)
  show ?thesis
  proof (cases "s \<le> k")
    case True
    then have split: "g * 2 ^ k = (g * 2 ^ (k - s)) * 2 ^ s"
      by (simp add: mult.assoc flip: power_add)
    have "g * 2 ^ (k - s) * 2 ^ s \<le> n" using le unfolding split .
    then have "g * 2 ^ (k - s) \<le> n div 2 ^ s" by (simp only: less_eq_div_iff_mult_less_eq zero_less_power zero_less_numeral)
    then have "g * 2 ^ k \<le> n div 2 ^ s * 2 ^ s" unfolding split by (rule mult_le_mono1)
    with trunc show ?thesis by simp
  next
    case k: False
    have "(2 :: nat) ^ (prec + (s - 1)) \<le> n" using bitLen_lower [of n] s False by simp
    moreover have "(2 :: nat) ^ (prec + (s - 1)) = 2 ^ (prec + (s - 1) - s) * 2 ^ s" if "0 < prec"
      using that s(1) by (simp flip: power_add)
    ultimately have top: "2 ^ (prec + (s - 1)) \<le> n div 2 ^ s * 2 ^ s" if "0 < prec"
      using that by (metis less_eq_div_iff_mult_less_eq mult_le_mono1 zero_less_numeral zero_less_power)
    show ?thesis
    proof (cases "prec = 0")
      case True
      with g show ?thesis by simp
    next
      case False
      have "g * 2 ^ k \<le> 2 ^ prec * 2 ^ (s - 1)"
        using g k s(1) by (intro mult_mono) (auto intro: power_increasing)
      then have "g * 2 ^ k \<le> 2 ^ (prec + (s - 1))" by (simp add: power_add)
      with top trunc False show ?thesis by linarith
    qed
  qed
qed

text \<open>The factor is at least one.\<close>

definition atLeastOne :: "int \<times> int \<Rightarrow> bool" where
  "atLeastOne factor \<longleftrightarrow> 2 ^ nat (- snd factor) \<le> fst factor * 2 ^ nat (snd factor)"

lemma truncScaled_ge:
  assumes "g < 2 ^ prec" and "2 ^ nat (- e) \<le> m * 2 ^ nat e" and "0 < g"
  shows "g \<le> truncScaled (roundToEven prec (g * m)) e"
proof (cases "0 \<le> e")
  case True
  with assms(2) have "0 < m" by (cases m) auto
  then have "g * 2 ^ 0 \<le> g * m" by simp
  with roundToEven_ge [OF assms(1), of 0 "g * m"] have "g \<le> roundToEven prec (g * m)" by simp
  also have "\<dots> \<le> roundToEven prec (g * m) * 2 ^ nat e" by simp
  finally show ?thesis using True by (simp add: truncScaled_def)
next
  case False
  then have "g * 2 ^ nat (- e) \<le> g * m" using assms(2) by simp
  from roundToEven_ge [OF assms(1) this] show ?thesis
    using False by (simp add: truncScaled_def less_eq_div_iff_mult_less_eq)
qed

lemma scaleGas_ge:
  assumes "atLeastOne factor" and "0 \<le> g"
  shows "g \<le> scaleGas factor g"
proof (cases "g = 0")
  case True
  then show ?thesis by (simp add: scaleGas_def split: prod.split)
next
  case False
  obtain m e where f: "factor = (m, e)" by (cases factor)
  have one: "2 ^ nat (- e) \<le> m * 2 ^ nat e" using assms(1) f by (simp add: atLeastOne_def)
  have m: "0 < m"
  proof (rule ccontr)
    assume "\<not> 0 < m"
    then have "m * 2 ^ nat e \<le> 0" by (simp add: mult_nonpos_nonneg)
    moreover have "(0 :: int) < 2 ^ nat (- e)" by simp
    ultimately show False using one by linarith
  qed
  have g: "0 < g" using assms(2) False by simp
  have "int (2 ^ nat (- e)) \<le> int (nat m * 2 ^ nat e)" using one m by simp
  then have one': "2 ^ nat (- e) \<le> nat m * 2 ^ nat e" by linarith
  have "nat g < 2 ^ max (bitLen (nat g)) 64"
    using bitLen_upper [of "nat g"] power_increasing [of "bitLen (nat g)" "max (bitLen (nat g)) 64" "2 :: nat"]
    by linarith
  from truncScaled_ge [OF this one'] g
  have "nat g \<le> truncScaled (roundToEven (max (bitLen (nat g)) 64) (nat g * nat m)) e" by simp
  then show ?thesis using g m by (simp add: scaleGas_def f nat_mult_distrib sgn_mult abs_mult)
qed

text \<open>With the factor one the estimate is unchanged.\<close>

lemma roundToEven_id: "n < 2 ^ prec \<Longrightarrow> roundToEven prec n = n"
proof -
  assume n: "n < 2 ^ prec"
  have "bitLen n \<le> prec"
  proof (cases "n = 0")
    case False
    show ?thesis
    proof (rule ccontr)
      assume "\<not> bitLen n \<le> prec"
      then have "(2 :: nat) ^ prec \<le> 2 ^ (bitLen n - 1)" by (intro power_increasing) auto
      with bitLen_lower [OF False] n show False by linarith
    qed
  qed (simp add: bitLen.simps [of 0])
  then show ?thesis by (simp add: roundToEven_def)
qed

lemma scaleGas_one: "0 \<le> g \<Longrightarrow> scaleGas (1, 0) g = g"
proof -
  assume g: "0 \<le> g"
  have "nat g < 2 ^ max (bitLen (nat g)) 64"
    using bitLen_upper [of "nat g"] power_increasing [of "bitLen (nat g)" "max (bitLen (nat g)) 64" "2 :: nat"]
    by linarith
  then show ?thesis using g by (cases "g = 0") (simp_all add: scaleGas_def truncScaled_def roundToEven_id)
qed

section \<open>Reverts\<close>

text \<open>The data carries a revert: a selector and encoded arguments, whose reason is not empty.\<close>

definition carriesRevert :: "txEnv \<Rightarrow> string option list \<Rightarrow> 8 word list \<Rightarrow> bool" where
  "carriesRevert E errors bytes \<longleftrightarrow>
     length bytes mod 32 = 4 \<and> te_errorString E errors bytes \<noteq> Some []"

definition revertReasonOf :: "txEnv \<Rightarrow> string option list \<Rightarrow> 8 word list \<Rightarrow> string" where
  "revertReasonOf E errors bytes =
     (case te_errorString E errors bytes of Some r \<Rightarrow> r | None \<Rightarrow> te_hexString E bytes)"

definition prints_bytes :: "txEnv \<Rightarrow> bool" where
  "prints_bytes E \<longleftrightarrow> (\<forall>bs. bs \<noteq> [] \<longrightarrow> te_hexString E bs \<noteq> [])"

lemma processRevertReason_carries:
  assumes "prints_bytes E"
  shows "processRevertReason E bytes errors \<noteq> [] \<longleftrightarrow> carriesRevert E errors bytes"
    and "carriesRevert E errors bytes \<Longrightarrow>
      processRevertReason E bytes errors = revertReasonOf E errors bytes"
proof -
  have "te_hexString E bytes \<noteq> []" if "length bytes mod 32 = 4"
    using that assms by (cases "bytes = []") (auto simp: prints_bytes_def)
  then show "processRevertReason E bytes errors \<noteq> [] \<longleftrightarrow> carriesRevert E errors bytes"
    by (auto simp: processRevertReason_def carriesRevert_def split: option.splits)
  show "carriesRevert E errors bytes \<Longrightarrow>
      processRevertReason E bytes errors = revertReasonOf E errors bytes"
    by (simp add: processRevertReason_def carriesRevert_def revertReasonOf_def)
qed

text \<open>The data of an error of the node, if there is any that parses.\<close>

definition revertDataOf :: "txEnv \<Rightarrow> rpcError \<Rightarrow> 8 word list option" where
  "revertDataOf E err =
     (if er_Data err = [] then None else map_option bytesOf (te_unmarshalHex E (er_Data err)))"

lemma attempt_carries:
  assumes "prints_bytes E"
  shows "attemptProcessingRevertData E errors err =
    (case revertDataOf E err of
       None \<Rightarrow> None
     | Some bytes \<Rightarrow>
         if carriesRevert E errors bytes
         then Some (ErrorReasonTransactionReverted, MsgReverted (revertReasonOf E errors bytes)) else None)"
  using processRevertReason_carries [OF assms]
  by (auto simp: attemptProcessingRevertData_def revertDataOf_def Let_def split: option.splits)

text \<open>The reason a call gives for a revert, \<open>None\<close> if the answer of the node is none.\<close>

definition answerReverts ::
  "txEnv \<Rightarrow> string option list \<Rightarrow> rpcError + hexbytes \<Rightarrow> string option" where
  "answerReverts E errors answer' =
     (case answer' of
        Inr output \<Rightarrow>
          if carriesRevert E errors (bytesOf output) then Some (revertReasonOf E errors (bytesOf output))
          else None
      | Inl err \<Rightarrow>
          (case revertDataOf E err of
             Some bytes \<Rightarrow>
               if carriesRevert E errors bytes then Some (revertReasonOf E errors bytes)
               else if MapError CallRPCMethods (er_Message err) = ErrorReasonTransactionReverted
               then Some (er_Message err) else None
           | None \<Rightarrow>
               if MapError CallRPCMethods (er_Message err) = ErrorReasonTransactionReverted
               then Some (er_Message err) else None))"

lemma carries_nonempty: "carriesRevert E errors bytes \<Longrightarrow> bytes \<noteq> []"
  by (auto simp: carriesRevert_def)

lemma callTransaction_reverts:
  assumes "prints_bytes E"
    and "callTransaction E tx method errors blockNumber t = (r, t')"
    and "answer' = te_ethCall E t tx (case blockNumber of None \<Rightarrow> ''latest'' | Some b \<Rightarrow> b)"
  shows "(case answerReverts E errors answer' of
            Some reason \<Rightarrow> r = Inl (ErrorReasonTransactionReverted, MsgReverted reason)
          | None \<Rightarrow> \<forall>e. r \<noteq> Inl (ErrorReasonTransactionReverted, e))"
  using assms(2) processRevertReason_carries [OF assms(1)]
  by (auto simp: callTransaction_def answerReverts_def attempt_carries [OF assms(1)] Let_def
      assms(3) [symmetric] dest: carries_nonempty split: sum.splits option.splits if_splits)

section \<open>Estimates\<close>

lemma gasEstimate_bounds:
  assumes "gasEstimate E bl tx method errors t = (Inr g, t')"
  shows "\<exists>estimate. te_estimateGas E t tx = Inr estimate \<and> g = scaleGas (te_gasFactor E) estimate \<and>
    (\<forall>l limit. bl = Some l \<longrightarrow> GetBlockGasLimit l = Some limit \<longrightarrow> g \<le> limit)"
  using assms
  by (auto simp: gasEstimate_def Let_def split: sum.splits option.splits prod.splits if_splits
      ErrorReason.splits)

lemma ensureGasEstimate_gas:
  "ensureGasEstimate E bl tx method errors gas t = (Inr g, t') \<Longrightarrow>
     (gas = Some g \<and> g \<noteq> 0) \<or>
     ((gas = None \<or> gas = Some 0) \<and> gasEstimate E bl tx method errors t = (Inr g, t'))"
  by (auto simp: ensureGasEstimate_def split: option.splits if_splits)

text \<open>The parts of a preparation that succeeded: the call data, and where the gas came from.\<close>

lemma TransactionPrepare_parts:
  assumes "TransactionPrepare E bl req t = (Inr (Inr p), t')"
  shows "\<exists>callData method tx errors. prepareCallData E req = Inr (Inr (callData, method)) \<and>
    pr_TransactionData p = te_hexString E callData \<and>
    ensureGasEstimate E bl tx (Some method) errors (th_Gas (ti_Headers req)) t = (Inr (pr_Gas p), t')"
  using assms
  by (fastforce simp: TransactionPrepare_def prepareWith_def split: sum.splits prod.splits)

section \<open>Submissions\<close>

text \<open>A transaction has either the prices of EIP-1559 or a legacy price, which a JSON null leaves out.\<close>

definition priced :: "transaction \<Rightarrow> bool" where
  "priced tx \<longleftrightarrow>
     (t_GasPrice tx = None \<and>
        (\<exists>p m. t_MaxPriorityFeePerGas tx = Some p \<and> t_MaxFeePerGas tx = Some m \<and> (0 < p \<or> 0 < m))) \<or>
     (t_MaxPriorityFeePerGas tx = None \<and> t_MaxFeePerGas tx = None)"

lemma buildTx_fields:
  "buildTx E ty h bytes = Inr tx \<Longrightarrow>
     t_Data tx = bytes \<and> t_Nonce tx = th_Nonce h \<and> t_GasLimit tx = th_Gas h \<and> t_Value tx = th_Value h \<and>
     t_GasPrice tx = None \<and> t_MaxPriorityFeePerGas tx = None \<and> t_MaxFeePerGas tx = None \<and>
     fromField E ty (th_From h) = Inr (t_From tx) \<and> toField E ty (th_To h) = Inr (t_To tx)"
  by (auto simp: buildTx_def split: sum.splits)

lemma mapGasPrice_fields:
  assumes "mapGasPrice E input tx = Inr tx'"
    and "t_GasPrice tx = None" "t_MaxPriorityFeePerGas tx = None" "t_MaxFeePerGas tx = None"
  shows "priced tx' \<and> t_From tx' = t_From tx \<and> t_To tx' = t_To tx \<and> t_Nonce tx' = t_Nonce tx \<and>
    t_GasLimit tx' = t_GasLimit tx \<and> t_Value tx' = t_Value tx \<and> t_Data tx' = t_Data tx"
  using assms
  by (auto simp: mapGasPrice_def priced_def Let_def split: option.splits if_splits)

lemma transactionToSend_fields:
  assumes "transactionToSend E req = Inr tx"
  shows "hexDecodeString (TrimPrefix (sd_TransactionData req) ''0x'') = (t_Data tx, True) \<and> priced tx \<and>
    fromField E txTypePrePrepared (th_From (sd_Headers req)) = Inr (t_From tx) \<and>
    toField E txTypePrePrepared (th_To (sd_Headers req)) = Inr (t_To tx) \<and>
    t_Nonce tx = th_Nonce (sd_Headers req) \<and> t_GasLimit tx = th_Gas (sd_Headers req) \<and>
    t_Value tx = th_Value (sd_Headers req)"
proof -
  obtain bytes tx0 where "hexDecodeString (TrimPrefix (sd_TransactionData req) ''0x'') = (bytes, True)"
    and b: "buildTx E txTypePrePrepared (sd_Headers req) bytes = Inr tx0"
    and m: "mapGasPrice E (sd_GasPrice req) tx0 = Inr tx"
    using assms by (auto simp: transactionToSend_def split: prod.splits bool.splits sum.splits)
  with buildTx_fields [OF b] mapGasPrice_fields [OF m] show ?thesis by simp
qed

text \<open>A successful submission: the node answered with a hash of 32 bytes.\<close>

lemma sendResult_Inr:
  "sendResult E answer' = Inr s \<Longrightarrow> \<exists>h. answer' = Inr h \<and> length (bytesOf h) = 32 \<and> s = te_hexString E (bytesOf h)"
  by (auto simp: sendResult_def split: sum.splits if_splits)

lemma sendResult_Inl:
  "sendResult E answer' = Inl (reason, e) \<Longrightarrow>
     reason \<in> {ReasonNone, ErrorReasonNonceTooLow, ErrorReasonInsufficientFunds,
                ErrorReasonTransactionUnderpriced, ErrorKnownTransaction}"
  using MapError_range [of SendRPCMethods]
  by (auto simp: sendResult_def split: sum.splits if_splits)

section \<open>Data that is sent back\<close>

text \<open>The data of a prepared transaction is accepted when it is submitted, when byte strings are
  printed with the prefix \<open>0x\<close>.\<close>

definition prints_hex :: "txEnv \<Rightarrow> bool" where
  "prints_hex E \<longleftrightarrow> (\<forall>bs. te_hexString E bs = ''0x'' @ hexEncode bs)"

lemma prints_hex_bytes: "prints_hex E \<Longrightarrow> prints_bytes E"
  by (simp add: prints_hex_def prints_bytes_def)

lemma printed_data_decodes:
  "prints_hex E \<Longrightarrow> hexDecodeString (TrimPrefix (te_hexString E bs) ''0x'') = (bs, True)"
  by (simp only: prints_hex_def TrimPrefix_append hexDecode_hexEncode)

end
