(* ===== verification/Queries.thy ===== *)
theory Queries
  imports Confirmations Receipts
begin

text \<open>
  The remaining requests of the connector API: blocks (\<open>internal/ethereum/get_block_info.go\<close>),
  balances, gas prices and nonces (\<open>get_address_balance.go\<close>, \<open>get_gas_price.go\<close>,
  \<open>get_next_nonce.go\<close>), and the confirmations of a transaction (\<open>ethereum.go\<close>), which convert the
  confirmations between the strings of the API and the byte strings of the block listener.

  The methods of the node that only these requests use are the fields of \<open>queryEnv\<close>, with the
  library's parsing of a hexadecimal string.
\<close>

section \<open>Blocks\<close>

record BlockInfo =
  fb_BlockNumber :: int
  fb_BlockHash :: string
  fb_ParentHash :: string
  fb_TransactionHashes :: "string list"

definition transformBlockInfo :: "('bc, 'rc) env \<Rightarrow> BlockInfoJSONRPC \<Rightarrow> BlockInfo" where
  "transformBlockInfo E bi =
     \<lparr>fb_BlockNumber = uint (bi_Number bi), fb_BlockHash = hashString E (bi_Hash bi),
      fb_ParentHash = hashString E (bi_ParentHash bi),
      fb_TransactionHashes = map (hashString E) (bi_Transactions bi)\<rparr>"

definition blockAnswer ::
  "('bc, 'rc) env \<Rightarrow> BlockInfoJSONRPC option result \<Rightarrow> (ErrorReason \<times> failure) + BlockInfo" where
  "blockAnswer E r =
     (case r of
        Inl err \<Rightarrow> Inl (ReasonNone, err)
      | Inr None \<Rightarrow> Inl (ErrorReasonNotFound, MsgBlockNotAvailable)
      | Inr (Some blockInfo) \<Rightarrow> Inr (transformBlockInfo E blockInfo))"

definition BlockInfoByNumber ::
  "('bc, 'rc) env \<Rightarrow> int \<Rightarrow> bool \<Rightarrow> string \<Rightarrow> ('bc, 'rc) blockListener \<Rightarrow>
   ((ErrorReason \<times> failure) + BlockInfo) \<times> ('bc, 'rc) blockListener" where
  "BlockInfoByNumber E blockNumber allowCache expectedParentHash s =
     (case GetBlockInfoByNumber E (bigUint64 blockNumber) allowCache expectedParentHash '''' s of
        (r, s1) \<Rightarrow> (blockAnswer E r, s1))"

definition BlockInfoByHash ::
  "('bc, 'rc) env \<Rightarrow> string \<Rightarrow> ('bc, 'rc) blockListener \<Rightarrow>
   ((ErrorReason \<times> failure) + BlockInfo) \<times> ('bc, 'rc) blockListener" where
  "BlockInfoByHash E blockHash s =
     (case GetBlockInfoByHash E blockHash s of (r, s1) \<Rightarrow> (blockAnswer E r, s1))"

section \<open>Balances, prices and nonces\<close>

record queryEnv =
  qe_getBalance :: "nat \<Rightarrow> string \<Rightarrow> string \<Rightarrow> string + int"
  qe_gasPrice :: "nat \<Rightarrow> string + int"
  qe_getTransactionCount :: "nat \<Rightarrow> string \<Rightarrow> string \<Rightarrow> string + int"
  qe_newHexBytes :: "string \<Rightarrow> string + hexbytes"

definition rpcAnswer :: "string + 'a \<Rightarrow> (ErrorReason \<times> failure) + 'a" where
  "rpcAnswer r = (case r of Inl e \<Rightarrow> Inl (ReasonNone, RPCFailure e) | Inr x \<Rightarrow> Inr x)"

definition AddressBalance ::
  "queryEnv \<Rightarrow> string \<Rightarrow> string \<Rightarrow> nat \<Rightarrow> ((ErrorReason \<times> failure) + int) \<times> nat" where
  "AddressBalance E address' blockTag t =
     (rpcAnswer (qe_getBalance E t address' (if blockTag = '''' then ''latest'' else blockTag)), Suc t)"

text \<open>The price is given as a JSON string, in decimal.\<close>

definition showInt :: "int \<Rightarrow> string" where
  "showInt k = (if k < 0 then CHR ''-'' # showNat (nat (- k)) else showNat (nat k))"

definition GasPriceEstimate :: "queryEnv \<Rightarrow> nat \<Rightarrow> ((ErrorReason \<times> failure) + string) \<times> nat" where
  "GasPriceEstimate E t =
     (map_sum id (\<lambda>p. ''\"'' @ showInt p @ ''\"'') (rpcAnswer (qe_gasPrice E t)), Suc t)"

definition NextNonceForSigner ::
  "queryEnv \<Rightarrow> string \<Rightarrow> nat \<Rightarrow> ((ErrorReason \<times> failure) + int) \<times> nat" where
  "NextNonceForSigner E signer t =
     (rpcAnswer (qe_getTransactionCount E t signer ''pending''), Suc t)"

section \<open>Confirmations\<close>

record ffcapiBlockInfo =
  fm_BlockNumber :: u64
  fm_BlockHash :: string
  fm_ParentHash :: string

record ffcapiConfirmationUpdateResult =
  fc_Confirmations :: "ffcapiBlockInfo list"
  fc_Rebuilt :: bool
  fc_NewFork :: bool
  fc_Confirmed :: bool
  fc_CurrentConfirmationCount :: u64
  fc_TargetConfirmationCount :: u64
  fc_Receipt :: "TransactionReceiptResponse option"

text \<open>The first string that does not parse ends the conversion with its error.\<close>

fun ffcapiToEthRPCConfirmations ::
  "queryEnv \<Rightarrow> ffcapiBlockInfo list \<Rightarrow> MinimalBlockInfo list result" where
  "ffcapiToEthRPCConfirmations E [] = Inr []"
| "ffcapiToEthRPCConfirmations E (b # bs) =
     (case qe_newHexBytes E (fm_BlockHash b) of
        Inl e \<Rightarrow> Inl (LibraryFailure e)
      | Inr hash \<Rightarrow>
          (case qe_newHexBytes E (fm_ParentHash b) of
             Inl e \<Rightarrow> Inl (LibraryFailure e)
           | Inr parentHash \<Rightarrow>
               (case ffcapiToEthRPCConfirmations E bs of
                  Inl e \<Rightarrow> Inl e
                | Inr ec \<Rightarrow>
                    Inr (\<lparr>mb_BlockNumber = fm_BlockNumber b, mb_BlockHash = hash,
                          mb_ParentHash = parentHash\<rparr> # ec))))"

definition ethRPCtoFFCAPIConfirmations ::
  "(hexbytes \<Rightarrow> string) \<Rightarrow> MinimalBlockInfo list \<Rightarrow> ffcapiBlockInfo list" where
  "ethRPCtoFFCAPIConfirmations str ec =
     map (\<lambda>b. \<lparr>fm_BlockNumber = mb_BlockNumber b, fm_BlockHash = str (mb_BlockHash b),
              fm_ParentHash = str (mb_ParentHash b)\<rparr>) ec"

definition ReconcileConfirmations_API ::
  "queryEnv \<Rightarrow> 'tc receiptEnv \<Rightarrow> ('bc, 'rc) env \<Rightarrow> string \<Rightarrow> ffcapiBlockInfo list \<Rightarrow> u64 \<Rightarrow>
   ('bc, 'rc) blockListener \<Rightarrow> 'tc ethConnector \<Rightarrow>
   ffcapiConfirmationUpdateResult result \<times> ('bc, 'rc) blockListener \<times> 'tc ethConnector" where
  "ReconcileConfirmations_API Q R E txHash existingConfirmations targetConfirmationCount s c =
     (case ffcapiToEthRPCConfirmations Q existingConfirmations of
        Inl e \<Rightarrow> (Inl e, s, c)
      | Inr ec \<Rightarrow>
          (case ReconcileConfirmationsForTransaction E txHash ec targetConfirmationCount s of
             (Inl e, s1) \<Rightarrow> (Inl e, s1, c)
           | (Inr (u, receipt), s1) \<Rightarrow>
               (case (case receipt of
                        None \<Rightarrow> (Inr None, c)
                      | Some r \<Rightarrow> (case enrichTransactionReceipt R r c of
                                     (Inl e, c1) \<Rightarrow> (Inl e, c1)
                                   | (Inr resp, c1) \<Rightarrow> (Inr (Some resp), c1))) of
                  (Inl e, c1) \<Rightarrow> (Inl e, s1, c1)
                | (Inr resp, c1) \<Rightarrow>
                    (Inr \<lparr>fc_Confirmations = ethRPCtoFFCAPIConfirmations (hashString E) (cu_Confirmations u),
                          fc_Rebuilt = cu_Rebuilt u, fc_NewFork = cu_NewFork u,
                          fc_Confirmed = cu_Confirmed u,
                          fc_CurrentConfirmationCount = cu_CurrentConfirmationCount u,
                          fc_TargetConfirmationCount = cu_TargetConfirmationCount u,
                          fc_Receipt = resp\<rparr>, s1, c1))))"

section \<open>Facts\<close>

text \<open>The documented behaviour of the library: a byte string that is printed parses to itself; a nil
  slice prints like an empty one, which is what it parses to.\<close>

definition hex_roundtrip :: "queryEnv \<Rightarrow> (hexbytes \<Rightarrow> string) \<Rightarrow> bool" where
  "hex_roundtrip Q str \<longleftrightarrow>
     (\<forall>h. \<exists>h'. qe_newHexBytes Q (str h) = Inr h' \<and> hexEquals h' h)"

lemma hex_roundtripD:
  "hex_roundtrip Q str \<Longrightarrow> \<exists>h'. qe_newHexBytes Q (str h) = Inr h' \<and> hexEquals h' h"
  by (simp add: hex_roundtrip_def)

lemma confirmations_there_and_back:
  assumes "hex_roundtrip Q str"
  shows "\<exists>ec'. ffcapiToEthRPCConfirmations Q (ethRPCtoFFCAPIConfirmations str ec) = Inr ec' \<and>
    list_all2 mb_Equal ec' ec"
proof (induction ec)
  case Nil
  then show ?case by (simp add: ethRPCtoFFCAPIConfirmations_def)
next
  case (Cons b ec)
  then obtain ec' where ec': "ffcapiToEthRPCConfirmations Q (ethRPCtoFFCAPIConfirmations str ec) = Inr ec'"
    "list_all2 mb_Equal ec' ec" by blast
  obtain h where h: "qe_newHexBytes Q (str (mb_BlockHash b)) = Inr h" "hexEquals h (mb_BlockHash b)"
    using hex_roundtripD [OF assms] by blast
  obtain p where p: "qe_newHexBytes Q (str (mb_ParentHash b)) = Inr p" "hexEquals p (mb_ParentHash b)"
    using hex_roundtripD [OF assms] by blast
  let ?b = "\<lparr>mb_BlockNumber = mb_BlockNumber b, mb_BlockHash = h, mb_ParentHash = p\<rparr>"
  have "ffcapiToEthRPCConfirmations Q (ethRPCtoFFCAPIConfirmations str (b # ec)) = Inr (?b # ec')"
    using ec'(1) h(1) p(1) by (simp add: ethRPCtoFFCAPIConfirmations_def)
  moreover have "mb_Equal ?b b" using h(2) p(2) by (simp add: mb_Equal_def)
  ultimately show ?case using ec'(2) by auto
qed

text \<open>Lists that are equal block by block are linked together or not at all, so a list that is sent back
  is as good as the one that was given out.\<close>

lemma mb_IsParentOf_Equal:
  "mb_Equal a a' \<Longrightarrow> mb_Equal b b' \<Longrightarrow> mb_IsParentOf a b = mb_IsParentOf a' b'"
  by (simp add: mb_Equal_def mb_IsParentOf_def hexEquals_def)

lemma linked_Equal:
  "list_all2 mb_Equal xs ys \<Longrightarrow> successively mb_IsParentOf xs = successively mb_IsParentOf ys"
proof (induction xs ys rule: list_all2_induct)
  case (Cons x xs y ys)
  then show ?case
    by (cases xs; cases ys) (auto simp: successively_Cons mb_IsParentOf_Equal)
qed simp

end
