(* ===== verification/JSONFormat.thy ===== *)
theory JSONFormat
  imports EthRPC Encoding
begin

text \<open>
  \<open>pkg/ethrpc/jsonformatoptions.go\<close> and the \<open>FormatMap\<close> methods of \<open>ethrpc.go\<close>: the options that
  select how numbers, byte strings and addresses are rendered as JSON, and the maps that blocks,
  transactions, receipts and logs are rendered from.

  A Go value of type \<open>any\<close> is an \<open>anyValue\<close>, with one constructor for each type that the code
  switches on; a nil pointer, slice or map of a type is \<open>None\<close>. A map is an association list without
  duplicate keys. The serializers belong to the ABI library: \<open>renderers\<close> has one function for each
  kind, and what they return is \<open>VRendered\<close>. So is the last step, \<open>json.Marshal\<close> or
  \<open>json.MarshalIndent\<close>. The lists of supported values in two error messages are left out.
\<close>

section \<open>Options\<close>

datatype FormattingMode = FormatAsObjects | FormatAsFlatArrays | FormatAsSelfDescribingArrays
datatype IntSerializer = Base10StringIntSerializer | HexIntSerializer0xPrefix | JSONNumberIntSerializer
datatype FloatSerializer = Base10StringFloatSerializer
datatype ByteSerializer = HexByteSerializer0xPrefix | HexByteSerializer | Base64ByteSerializer
datatype AddressSerializer = HexAddrSerializer0xPrefix | HexAddrSerializerPlain | ChecksumAddrSerializer

record JSONSerializerSet =
  ss_Mode :: FormattingMode
  ss_Integer :: IntSerializer
  ss_Float :: FloatSerializer
  ss_Bytes :: ByteSerializer
  ss_Address :: AddressSerializer
  ss_Pretty :: bool

definition StandardSerializerSet :: JSONSerializerSet where
  "StandardSerializerSet =
     \<lparr>ss_Mode = FormatAsObjects, ss_Integer = Base10StringIntSerializer,
      ss_Float = Base10StringFloatSerializer, ss_Bytes = HexByteSerializer0xPrefix,
      ss_Address = HexAddrSerializer0xPrefix, ss_Pretty = False\<rparr>"

text \<open>\<open>url.ParseQuery\<close>: the pairs that parse, grouped by key, and whether there was no error. Go
  visits the map in an order of its own, the model in the order in which the keys appear.\<close>

fun queryUnescape :: "string \<Rightarrow> string option" where
  "queryUnescape (c # a # b # s) =
     (if c = CHR ''%'' then
        (if digitVal a < 16 \<and> digitVal b < 16
         then map_option ((#) (char_of (16 * digitVal a + digitVal b))) (queryUnescape s) else None)
      else map_option ((#) (if c = CHR ''+'' then CHR '' '' else c)) (queryUnescape (a # b # s)))"
| "queryUnescape (c # s) =
     (if c = CHR ''%'' then None
      else map_option ((#) (if c = CHR ''+'' then CHR '' '' else c)) (queryUnescape s))"
| "queryUnescape [] = Some []"

fun splitOn :: "char \<Rightarrow> string \<Rightarrow> string list" where
  "splitOn sep [] = [[]]"
| "splitOn sep (c # s) =
     (if c = sep then [] # splitOn sep s
      else case splitOn sep s of [] \<Rightarrow> [[c]] | p # ps \<Rightarrow> (c # p) # ps)"

definition cut :: "char \<Rightarrow> string \<Rightarrow> string \<times> string" where
  "cut sep s = (takeWhile (\<lambda>c. c \<noteq> sep) s, drop 1 (dropWhile (\<lambda>c. c \<noteq> sep) s))"

fun addValue :: "string \<Rightarrow> string \<Rightarrow> (string \<times> string list) list \<Rightarrow> (string \<times> string list) list" where
  "addValue k v [] = [(k, [v])]"
| "addValue k v ((k', vs) # m) =
     (if k = k' then (k', vs @ [v]) # m else (k', vs) # addValue k v m)"

definition parsePart ::
  "string \<Rightarrow> (string \<times> string list) list \<times> bool \<Rightarrow> (string \<times> string list) list \<times> bool" where
  "parsePart part acc =
     (case acc of
        (m, ok) \<Rightarrow>
          if CHR '';'' \<in> set part then (m, False)
          else if part = [] then (m, ok)
          else (case cut (CHR ''='') part of
                  (key, value) \<Rightarrow>
                    (case (queryUnescape key, queryUnescape value) of
                       (Some k, Some v) \<Rightarrow> (addValue k v m, ok)
                     | _ \<Rightarrow> (m, False))))"

definition ParseQuery :: "string \<Rightarrow> (string \<times> string list) list \<times> bool" where
  "ParseQuery query = fold parsePart (splitOn (CHR ''&'') query) ([], True)"

text \<open>One value of one option.\<close>

definition applyOption ::
  "bool \<Rightarrow> string \<Rightarrow> string \<Rightarrow> JSONSerializerSet \<Rightarrow> JSONSerializerSet result" where
  "applyOption skipErrors option' v ss =
     (let unknown = (if skipErrors then Inr ss else Inl (MsgUnknownJSONFormatOptionValue v option'));
          name = ToLower option'; w = ToLower v in
      if name = ''mode'' then
        (if w = ''object'' then Inr (ss\<lparr>ss_Mode := FormatAsObjects\<rparr>)
         else if w = ''array'' then Inr (ss\<lparr>ss_Mode := FormatAsFlatArrays\<rparr>)
         else if w = ''self-describing'' then Inr (ss\<lparr>ss_Mode := FormatAsSelfDescribingArrays\<rparr>)
         else unknown)
      else if name = ''number'' then
        (if w = ''string'' then Inr (ss\<lparr>ss_Integer := Base10StringIntSerializer\<rparr>)
         else if w = ''hex-0x'' \<or> w = ''hex'' then Inr (ss\<lparr>ss_Integer := HexIntSerializer0xPrefix\<rparr>)
         else if w = ''json-number'' then Inr (ss\<lparr>ss_Integer := JSONNumberIntSerializer\<rparr>)
         else unknown)
      else if name = ''bytes'' then
        (if w = ''hex-0x'' \<or> w = ''hex'' then Inr (ss\<lparr>ss_Bytes := HexByteSerializer0xPrefix\<rparr>)
         else if w = ''hex-plain'' then Inr (ss\<lparr>ss_Bytes := HexByteSerializer\<rparr>)
         else if w = ''base64'' then Inr (ss\<lparr>ss_Bytes := Base64ByteSerializer\<rparr>)
         else unknown)
      else if name = ''address'' then
        (if w = ''hex-0x'' \<or> w = ''hex'' then Inr (ss\<lparr>ss_Address := HexAddrSerializer0xPrefix\<rparr>)
         else if w = ''hex-plain'' then Inr (ss\<lparr>ss_Address := HexAddrSerializerPlain\<rparr>)
         else if w = ''checksum'' then Inr (ss\<lparr>ss_Address := ChecksumAddrSerializer\<rparr>)
         else unknown)
      else if name = ''pretty'' then Inr (ss\<lparr>ss_Pretty := (v \<noteq> ''false'')\<rparr>)
      else if skipErrors then Inr ss else Inl (MsgUnknownJSONFormatOption option' v))"

fun applyValues ::
  "bool \<Rightarrow> string \<Rightarrow> string list \<Rightarrow> JSONSerializerSet \<Rightarrow> JSONSerializerSet result" where
  "applyValues skipErrors option' [] ss = Inr ss"
| "applyValues skipErrors option' (v # vs) ss =
     (case applyOption skipErrors option' v ss of
        Inl e \<Rightarrow> Inl e
      | Inr ss1 \<Rightarrow> applyValues skipErrors option' vs ss1)"

fun applyOptions ::
  "bool \<Rightarrow> (string \<times> string list) list \<Rightarrow> JSONSerializerSet \<Rightarrow> JSONSerializerSet result" where
  "applyOptions skipErrors [] ss = Inr ss"
| "applyOptions skipErrors ((option', values) # m) ss =
     (case applyValues skipErrors option' values ss of
        Inl e \<Rightarrow> Inl e
      | Inr ss1 \<Rightarrow> applyOptions skipErrors m ss1)"

definition GetSerializerSet :: "string \<Rightarrow> bool \<Rightarrow> JSONSerializerSet result" where
  "GetSerializerSet jfo skipErrors =
     (if jfo = '''' then Inr StandardSerializerSet
      else (case ParseQuery jfo of
              (options, ok) \<Rightarrow>
                if \<not> ok \<and> \<not> skipErrors then Inl (MsgInvalidJSONFormatOptions jfo)
                else applyOptions skipErrors options StandardSerializerSet))"

text \<open>The serializer that the ABI library builds from the set.\<close>

record Serializer =
  se_FormattingMode :: FormattingMode
  se_IntSerializer :: IntSerializer
  se_FloatSerializer :: FloatSerializer
  se_ByteSerializer :: ByteSerializer
  se_AddressSerializer :: AddressSerializer
  se_Pretty :: bool

definition ABISerializer :: "JSONSerializerSet \<Rightarrow> Serializer" where
  "ABISerializer ss =
     \<lparr>se_FormattingMode = ss_Mode ss, se_IntSerializer = ss_Integer ss,
      se_FloatSerializer = ss_Float ss, se_ByteSerializer = ss_Bytes ss,
      se_AddressSerializer = ss_Address ss, se_Pretty = ss_Pretty ss\<rparr>"

definition getABISerializer :: "string \<Rightarrow> bool \<Rightarrow> Serializer result" where
  "getABISerializer jfo skipErrors =
     (case GetSerializerSet jfo skipErrors of
        Inl e \<Rightarrow> Inl e
      | Inr ss \<Rightarrow> Inr (ABISerializer ss))"

definition GetABISerializer :: "string \<Rightarrow> Serializer result" where
  "GetABISerializer jfo = getABISerializer jfo False"

text \<open>\<open>None\<close> is the nil serializer.\<close>

definition GetABISerializerIgnoreErrors :: "string \<Rightarrow> Serializer option" where
  "GetABISerializerIgnoreErrors jfo =
     (case getABISerializer jfo True of Inl e \<Rightarrow> None | Inr s \<Rightarrow> Some s)"

definition StandardABISerializer :: Serializer where
  "StandardABISerializer = ABISerializer StandardSerializerSet"

text \<open>A caller that ignores errors always gets a serializer set.\<close>

lemma applyOption_skip: "\<exists>ss'. applyOption True option' v ss = Inr ss'"
  by (simp add: applyOption_def Let_def)

lemma applyValues_skip: "\<exists>ss'. applyValues True option' vs ss = Inr ss'"
proof (induction vs arbitrary: ss)
  case (Cons v vs)
  obtain ss1 where "applyOption True option' v ss = Inr ss1" using applyOption_skip by blast
  with Cons show ?case by simp
qed simp

lemma applyOptions_skip: "\<exists>ss'. applyOptions True m ss = Inr ss'"
proof (induction m arbitrary: ss)
  case (Cons x m)
  obtain k vs where x: "x = (k, vs)" by (cases x)
  obtain ss1 where "applyValues True k vs ss = Inr ss1" using applyValues_skip by blast
  with Cons x show ?case by simp
qed simp

lemma GetSerializerSet_skip: "\<exists>ss. GetSerializerSet jfo True = Inr ss"
  using applyOptions_skip by (auto simp: GetSerializerSet_def split: prod.split)

lemma GetABISerializerIgnoreErrors_some: "GetABISerializerIgnoreErrors jfo \<noteq> None"
  using GetSerializerSet_skip [of jfo]
  by (auto simp: GetABISerializerIgnoreErrors_def getABISerializer_def)

section \<open>Formatting\<close>

datatype (plugins del: code quickcheck_exhaustive quickcheck_narrowing quickcheck_random) anyValue =
    VBigInt "int option"
  | VUint64 "u64 option"
  | VFloat "string option"
  | VBytes hexbytes
  | VAddress "address option"
  | VList "anyValue list option"
  | VMap "(string \<times> anyValue) list option"
  | VBool bool
  | VRendered string

record renderers =
  rn_Integer :: "IntSerializer \<Rightarrow> int \<Rightarrow> string"
  rn_Float :: "FloatSerializer \<Rightarrow> string \<Rightarrow> string"
  rn_Bytes :: "ByteSerializer \<Rightarrow> 8 word list \<Rightarrow> string"
  rn_Address :: "AddressSerializer \<Rightarrow> address \<Rightarrow> string"
  rn_Marshal :: "bool \<Rightarrow> (string \<times> anyValue) list \<Rightarrow> string + string"
    \<comment> \<open>the argument says whether the JSON is indented\<close>

record MarshalOption =
  mo_RedactFields :: "string list"
  mo_OmitNullFields :: "string list"

definition redacts :: "MarshalOption list \<Rightarrow> string \<Rightarrow> bool" where
  "redacts opts k \<longleftrightarrow> list_ex (\<lambda>opt. k \<in> set (mo_RedactFields opt)) opts"

definition omitsNull :: "MarshalOption list \<Rightarrow> string \<Rightarrow> bool" where
  "omitsNull opts k \<longleftrightarrow> list_ex (\<lambda>opt. k \<in> set (mo_OmitNullFields opt)) opts"

text \<open>The formatted value, and whether it is nil; a nil value is returned as it is.\<close>

fun buildFormatElem ::
  "renderers \<Rightarrow> JSONSerializerSet \<Rightarrow> MarshalOption list \<Rightarrow> anyValue \<Rightarrow> anyValue \<times> bool"
and buildFormatElems ::
  "renderers \<Rightarrow> JSONSerializerSet \<Rightarrow> MarshalOption list \<Rightarrow> anyValue list \<Rightarrow> anyValue list"
and buildFormatMap ::
  "renderers \<Rightarrow> JSONSerializerSet \<Rightarrow> MarshalOption list \<Rightarrow> (string \<times> anyValue) list \<Rightarrow>
   (string \<times> anyValue) list" where
  "buildFormatElem R ss opts (VBigInt (Some i)) = (VRendered (rn_Integer R (ss_Integer ss) i), False)"
| "buildFormatElem R ss opts (VUint64 (Some n)) =
     (VRendered (rn_Integer R (ss_Integer ss) (uint n)), False)"
| "buildFormatElem R ss opts (VFloat (Some f)) = (VRendered (rn_Float R (ss_Float ss) f), False)"
| "buildFormatElem R ss opts (VBytes (Some bs)) = (VRendered (rn_Bytes R (ss_Bytes ss) bs), False)"
| "buildFormatElem R ss opts (VAddress (Some a)) =
     (VRendered (rn_Address R (ss_Address ss) a), False)"
| "buildFormatElem R ss opts (VList (Some vs)) = (VList (Some (buildFormatElems R ss opts vs)), False)"
| "buildFormatElem R ss opts (VMap (Some m)) = (VMap (Some (buildFormatMap R ss opts m)), False)"
| "buildFormatElem R ss opts (VBool b) = (VBool b, False)"
| "buildFormatElem R ss opts (VRendered s) = (VRendered s, False)"
| "buildFormatElem R ss opts v = (v, True)"
| "buildFormatElems R ss opts [] = []"
| "buildFormatElems R ss opts (v # vs) =
     fst (buildFormatElem R ss opts v) # buildFormatElems R ss opts vs"
| "buildFormatMap R ss opts [] = []"
| "buildFormatMap R ss opts ((k, v) # m) =
     (if redacts opts k then buildFormatMap R ss opts m
      else (case buildFormatElem R ss opts v of
              (fmtValue, isNil) \<Rightarrow>
                if isNil \<and> omitsNull opts k then buildFormatMap R ss opts m
                else (k, fmtValue) # buildFormatMap R ss opts m))"

section \<open>The maps of the JSON/RPC structures\<close>

abbreviation bytesField :: "string \<Rightarrow> hexbytes \<Rightarrow> string \<times> anyValue" where
  "bytesField k h \<equiv> (k, VBytes h)"

abbreviation numberField :: "string \<Rightarrow> u64 \<Rightarrow> string \<times> anyValue" where
  "numberField k n \<equiv> (k, VUint64 (Some n))"

abbreviation listField :: "string \<Rightarrow> anyValue list \<Rightarrow> string \<times> anyValue" where
  "listField k vs \<equiv> (k, VList (Some vs))"

text \<open>A field that is in the map only if its pointer is not nil.\<close>

definition optionalField :: "string \<Rightarrow> ('a option \<Rightarrow> anyValue) \<Rightarrow> 'a option \<Rightarrow> (string \<times> anyValue) list" where
  "optionalField k f x = (if x = None then [] else [(k, f x)])"

definition log_FormatMap :: "LogJSONRPC \<Rightarrow> (string \<times> anyValue) list" where
  "log_FormatMap l =
     [(''removed'', VBool (lg_Removed l)), numberField ''logIndex'' (lg_LogIndex l),
      numberField ''transactionIndex'' (lg_TransactionIndex l),
      numberField ''blockNumber'' (lg_BlockNumber l),
      bytesField ''transactionHash'' (lg_TransactionHash l),
      bytesField ''blockHash'' (lg_BlockHash l), (''address'', VAddress (lg_Address l)),
      bytesField ''data'' (lg_Data l), listField ''topics'' (map VBytes (lg_Topics l))] @
     optionalField ''blockTimestamp'' VUint64 (lg_BlockTimestamp l)"

definition receipt_FormatMap :: "TxReceiptJSONRPC \<Rightarrow> (string \<times> anyValue) list" where
  "receipt_FormatMap r =
     [bytesField ''transactionHash'' (rc_TransactionHash r),
      numberField ''transactionIndex'' (rc_TransactionIndex r),
      bytesField ''blockHash'' (rc_BlockHash r), numberField ''blockNumber'' (rc_BlockNumber r),
      (''from'', VAddress (rc_From r)), (''to'', VAddress (rc_To r)),
      (''cumulativeGasUsed'', VBigInt (rc_CumulativeGasUsed r)),
      (''effectiveGasPrice'', VBigInt (rc_EffectiveGasPrice r)), (''gasUsed'', VBigInt (rc_GasUsed r)),
      (''contractAddress'', VAddress (rc_ContractAddress r)),
      listField ''logs'' (map (\<lambda>l. VMap (Some (log_FormatMap l))) (rc_Logs r)),
      bytesField ''logsBloom'' (rc_LogsBloom r), (''status'', VUint64 (rc_Status r)),
      (''type'', VUint64 (rc_Type r))] @
     optionalField ''revertReason'' VBytes (rc_RevertReason r)"

definition tx_FormatMap :: "TxInfoJSONRPC \<Rightarrow> (string \<times> anyValue) list" where
  "tx_FormatMap t =
     [bytesField ''blockHash'' (tx_BlockHash t), numberField ''blockNumber'' (tx_BlockNumber t),
      (''chainId'', VBigInt (tx_ChainID t)), (''from'', VAddress (tx_From t)),
      (''gas'', VBigInt (tx_Gas t)), bytesField ''hash'' (tx_Hash t), bytesField ''input'' (tx_Input t),
      (''nonce'', VBigInt (tx_Nonce t)), (''to'', VAddress (tx_To t)),
      (''transactionIndex'', VUint64 (tx_TransactionIndex t)), (''type'', VUint64 (tx_Type t)),
      (''value'', VBigInt (tx_Value t)), (''v'', VBigInt (tx_V t)), (''r'', VBigInt (tx_R t)),
      (''s'', VBigInt (tx_S t))] @
     optionalField ''gasPrice'' VBigInt (tx_GasPrice t) @
     optionalField ''maxFeePerGas'' VBigInt (tx_MaxFeePerGas t) @
     optionalField ''maxPriorityFeePerGas'' VBigInt (tx_MaxPriorityFeePerGas t)"

definition blockInfo_FormatMap :: "BlockInfoJSONRPC \<Rightarrow> (string \<times> anyValue) list" where
  "blockInfo_FormatMap b =
     [numberField ''number'' (bi_Number b), bytesField ''hash'' (bi_Hash b),
      bytesField ''parentHash'' (bi_ParentHash b), numberField ''timestamp'' (bi_Timestamp b),
      bytesField ''logsBloom'' (bi_LogsBloom b),
      listField ''transactions'' (map VBytes (bi_Transactions b))]"

definition header_FormatMap :: "BlockHeaderJSONRPC \<Rightarrow> (string \<times> anyValue) list" where
  "header_FormatMap b =
     [numberField ''number'' (bh_Number b), bytesField ''hash'' (bh_Hash b),
      bytesField ''mixHash'' (bh_MixHash b), bytesField ''parentHash'' (bh_ParentHash b),
      bytesField ''nonce'' (bh_Nonce b), bytesField ''sha3Uncles'' (bh_SHA3Uncles b),
      bytesField ''logsBloom'' (bh_LogsBloom b),
      bytesField ''transactionsRoot'' (bh_TransactionsRoot b), bytesField ''stateRoot'' (bh_StateRoot b),
      bytesField ''receiptsRoot'' (bh_ReceiptsRoot b), (''miner'', VAddress (bh_Miner b)),
      (''difficulty'', VBigInt (bh_Difficulty b)), (''totalDifficulty'', VBigInt (bh_TotalDifficulty b)),
      bytesField ''extraData'' (bh_ExtraData b), (''baseFeePerGas'', VBigInt (bh_BaseFeePerGas b)),
      (''size'', VBigInt (bh_Size b)), (''gasLimit'', VBigInt (bh_GasLimit b)),
      (''gasUsed'', VBigInt (bh_GasUsed b)), numberField ''timestamp'' (bh_Timestamp b),
      listField ''uncles'' (map VBytes (bh_Uncles b))]"

definition hashes_FormatMap :: "EVMBlockWithTxHashesJSONRPC \<Rightarrow> (string \<times> anyValue) list" where
  "hashes_FormatMap b =
     header_FormatMap (ebh_Header b) @ [listField ''transactions'' (map VBytes (ebh_Transactions b))]"

definition transactions_FormatMap :: "EVMBlockWithTransactionsJSONRPC \<Rightarrow> (string \<times> anyValue) list" where
  "transactions_FormatMap b =
     header_FormatMap (ebt_Header b) @
     [listField ''transactions'' (map (\<lambda>t. VMap (Some (tx_FormatMap t))) (ebt_Transactions b))]"

text \<open>A structure of the JSON/RPC interface, as its \<open>MarshalFormat\<close> method renders it.\<close>

datatype marshalled =
    MReceipt TxReceiptJSONRPC
  | MTransaction TxInfoJSONRPC
  | MLog LogJSONRPC
  | MBlockInfo BlockInfoJSONRPC
  | MBlockWithHashes EVMBlockWithTxHashesJSONRPC
  | MBlockWithTransactions EVMBlockWithTransactionsJSONRPC

fun FormatMap :: "marshalled \<Rightarrow> (string \<times> anyValue) list" where
  "FormatMap (MReceipt r) = receipt_FormatMap r"
| "FormatMap (MTransaction t) = tx_FormatMap t"
| "FormatMap (MLog l) = log_FormatMap l"
| "FormatMap (MBlockInfo b) = blockInfo_FormatMap b"
| "FormatMap (MBlockWithHashes b) = hashes_FormatMap b"
| "FormatMap (MBlockWithTransactions b) = transactions_FormatMap b"

definition MarshalFormattedMap ::
  "renderers \<Rightarrow> JSONSerializerSet \<Rightarrow> MarshalOption list \<Rightarrow> (string \<times> anyValue) list \<Rightarrow> string + string" where
  "MarshalFormattedMap R ss opts m = rn_Marshal R (ss_Pretty ss) (buildFormatMap R ss opts m)"

definition MarshalFormat ::
  "renderers \<Rightarrow> JSONSerializerSet \<Rightarrow> MarshalOption list \<Rightarrow> marshalled \<Rightarrow> string + string" where
  "MarshalFormat R ss opts x = MarshalFormattedMap R ss opts (FormatMap x)"

section \<open>Facts\<close>

text \<open>The keys of all maps inside a value.\<close>

fun allKeys :: "anyValue \<Rightarrow> string set" and mapKeys :: "(string \<times> anyValue) list \<Rightarrow> string set"
  and listKeys :: "anyValue list \<Rightarrow> string set" where
  "allKeys (VList (Some vs)) = listKeys vs"
| "allKeys (VMap (Some m)) = mapKeys m"
| "allKeys _ = {}"
| "mapKeys [] = {}"
| "mapKeys ((k, v) # m) = insert k (allKeys v \<union> mapKeys m)"
| "listKeys [] = {}"
| "listKeys (v # vs) = allKeys v \<union> listKeys vs"

lemma format_redacts:
  "k \<in> allKeys (fst (buildFormatElem R ss opts v)) \<Longrightarrow> \<not> redacts opts k"
  "k \<in> listKeys (buildFormatElems R ss opts vs) \<Longrightarrow> \<not> redacts opts k"
  "k \<in> mapKeys (buildFormatMap R ss opts m) \<Longrightarrow> \<not> redacts opts k"
  by (induction R ss opts v and R ss opts vs and R ss opts m
      rule: buildFormatElem_buildFormatElems_buildFormatMap.induct)
     (auto split: if_splits prod.splits)

text \<open>The nil values are those of the six types that have one.\<close>

definition isNil :: "anyValue \<Rightarrow> bool" where
  "isNil v \<longleftrightarrow> v \<in> {VBigInt None, VUint64 None, VFloat None, VBytes None, VAddress None, VList None, VMap None}"

lemma buildFormatElem_nil: "snd (buildFormatElem R ss opts v) = isNil v"
  by (cases "(R, ss, opts, v)" rule: buildFormatElem.cases) (auto simp: isNil_def)

lemma buildFormatMap_keys: "(k, w) \<in> set (buildFormatMap R ss opts m) \<Longrightarrow> k \<in> fst ` set m"
  by (induction m) (auto split: prod.splits if_splits)

text \<open>Every other field is there, formatted by itself.\<close>

lemma buildFormatMap_lookup:
  "distinct (map fst m) \<Longrightarrow>
     map_of (buildFormatMap R ss opts m) k =
       (case map_of m k of
          None \<Rightarrow> None
        | Some v \<Rightarrow>
            if redacts opts k \<or> (isNil v \<and> omitsNull opts k) then None
            else Some (fst (buildFormatElem R ss opts v)))"
proof (induction m)
  case (Cons kv m)
  obtain k' v where kv: "kv = (k', v)" by (cases kv)
  have "map_of (buildFormatMap R ss opts m) k' = None"
    using Cons.prems kv by (auto simp: map_of_eq_None_iff dest: buildFormatMap_keys)
  moreover have "map_of m k' = None" using Cons.prems kv by (auto simp: map_of_eq_None_iff)
  ultimately show ?case
    using Cons kv buildFormatElem_nil [of R ss opts v]
    by (cases "buildFormatElem R ss opts v") (auto split: option.split)
qed simp

lemma FormatMap_distinct [simp]: "distinct (map fst (FormatMap x))"
  by (cases x)
     (simp_all add: receipt_FormatMap_def tx_FormatMap_def log_FormatMap_def blockInfo_FormatMap_def
        hashes_FormatMap_def transactions_FormatMap_def header_FormatMap_def optionalField_def)

end
