(* ===== verification/ApiExamples.thy ===== *)
theory ApiExamples
  imports ConnectorRuns ReceiptProofs TxProofs Queries JSONFormat EventExamples ConfirmationProperties
begin

text \<open>
  Concrete inputs for the witnesses of the properties of the connector API: a connector without
  streams and one whose only stream resumes a listener at a checkpoint, receipts that the node has or
  does not have yet, a node that estimates gas and accepts transactions, and a log to be formatted.
\<close>

section \<open>Streams\<close>

definition exConnector :: "(exTc, exBc, exRc) connector" where
  "exConnector = \<lparr>cn_eventStreams = Map.empty, cn_streams = [], cn_conn = exConn,
     cn_blockListener = exState []\<rparr>"

definition exResume :: EventListenerAddRequest where
  "exResume = exReq\<lparr>rq_Checkpoint := Some \<lparr>cp_Block = 40, cp_TransactionIndex = -1, cp_LogIndex = -1\<rparr>\<rparr>"

definition exResumed :: "(exTc, exBc, exRc) connector" where
  "exResumed = snd (EventStreamStart exConnEnv 3 [exResume] exConnector)"

lemma exConnector_ok [simp]: "conn_ok exConnector"
  by (simp add: conn_ok_def exConnector_def)

lemma ex_resume: "EventStreamStart exConnEnv 3 [exResume] exConnector = (Inr (Inr ()), exResumed)"
proof -
  have "fst (EventStreamStart exConnEnv 3 [exResume] exConnector) = Inr (Inr ())"
    by (simp add: EventStreamStart_def exConnector_def exResume_def exReq_def addEventListener_def
        newStream_def newListener_def parseEventFilters_def parseEventFilter_def exConnEnv_def
        parseListenerOptions_def ensureHWM_def)
  then show ?thesis unfolding exResumed_def by (metis prod.collapse)
qed

lemma ex_resume_run: "conn_run exConnEnv exConnector exResumed"
  using conn_step.start_stream [OF ex_resume] by blast

section \<open>Receipts\<close>

definition exReceiptEnv :: "TxReceiptJSONRPC option \<Rightarrow> exTc receiptEnv" where
  "exReceiptEnv r =
     \<lparr>re_conn = exConnEnv, re_getTransactionReceipt = (\<lambda>t h. Inr r),
      re_debugTraceTransaction = (\<lambda>t h. Inr None), re_parseMethod = (\<lambda>m. Some m),
      re_errorString = (\<lambda>bs. None)\<rparr>"

definition exReceiptReq :: "string list \<Rightarrow> TransactionReceiptRequest" where
  "exReceiptReq filters =
     \<lparr>tq_TransactionHash = ''t'', tq_EventFilters = filters, tq_Methods = [], tq_ExtractSigner = False,
      tq_IncludeLogs = False, tq_BlockNumber = Some 90, tq_BlockHash = ''b''\<rparr>"

text \<open>A receipt in block 90, whose hash prints as one zero character, with one log.\<close>

definition exDone :: TxReceiptJSONRPC where
  "exDone = (exReceipt 90)\<lparr>rc_BlockHash := Some [98], rc_Status := Some 1, rc_Logs := [exLog 90]\<rparr>"

section \<open>Transactions\<close>

definition exTxEnv :: "8 word list \<Rightarrow> txEnv" where
  "exTxEnv output =
     \<lparr>te_newAddress = (\<lambda>s. if s = '''' then None else Some [1]), te_addressString = (\<lambda>a. ''0x01''),
      te_hexString = (\<lambda>bs. ''0x'' @ hexEncode bs), te_parseEntry = (\<lambda>s. Some (Some s)),
      te_parseParam = (\<lambda>s. Some s), te_parseExternalData = (\<lambda>m ps. Inr ''v''),
      te_encodeCallData = (\<lambda>m v. Inr [1, 2, 3, 4]), te_encodeABIData = (\<lambda>v. Inr []),
      te_decodeOutputs = (\<lambda>m bs. Inr ''v''), te_serialize = (\<lambda>v. Inr v),
      te_errorString = (\<lambda>es bs. Some ''pop''), te_unmarshalHex = (\<lambda>s. None),
      te_unmarshalString = (\<lambda>s. Some s), te_unmarshalInteger = (\<lambda>s. Some (Some 7)),
      te_getInteger = (\<lambda>s k. 0), te_parseABI = (\<lambda>s. Some (Some s)), te_constructor = (\<lambda>a. Inr None),
      te_errorText = (\<lambda>e. ''''), te_gasFactor = (3, -1),
      te_ethCall = (\<lambda>t tx b. Inr (Some output)), te_estimateGas = (\<lambda>t tx. Inr 100000),
      te_sendTransaction = (\<lambda>t tx. Inr (Some (replicate 32 5))),
      te_sendRawTransaction = (\<lambda>t d. Inr None)\<rparr>"

lemma exTxEnv_prints [simp]: "prints_hex (exTxEnv out)"
  by (simp add: prints_hex_def exTxEnv_def)

definition exHeaders :: txHeaders where
  "exHeaders = \<lparr>th_From = ''0x01'', th_To = ''0x02'', th_Nonce = Some 1, th_Gas = None, th_Value = None\<rparr>"

definition exInput :: TransactionInput where
  "exInput = \<lparr>ti_Headers = exHeaders, ti_Method = ''m'', ti_Params = [Some ''p''], ti_Errors = []\<rparr>"

text \<open>A block listener whose head block has a gas limit.\<close>

definition exLimited :: "(exBc, exRc) blockListener" where
  "exLimited = (exState [])\<lparr>headBlockInfo := Some ((exInfo 1)\<lparr>bi_GasLimit := Some 30000000\<rparr>)\<rparr>"

lemma exLimited_limit [simp]: "GetBlockGasLimit exLimited = Some 30000000"
  by (simp add: GetBlockGasLimit_def exLimited_def)

lemma ex_scaled: "scaleGas (3, -1) 100000 = 150000"
proof -
  have "(2 :: nat) ^ 64 \<le> 2 ^ max (bitLen 100000) 64" by (rule power_increasing) simp_all
  then have "(300000 :: nat) < 2 ^ max (bitLen 100000) 64" by simp
  then have "roundToEven (max (bitLen 100000) 64) 300000 = 300000" by (rule roundToEven_id)
  then show ?thesis by (simp add: scaleGas_def truncScaled_def)
qed

definition exTx :: "8 word list \<Rightarrow> transaction" where
  "exTx bytes = \<lparr>t_From = Some (quoted ''0x01''), t_To = Some [1], t_Nonce = Some 1, t_GasPrice = None,
     t_MaxPriorityFeePerGas = None, t_MaxFeePerGas = None, t_GasLimit = None, t_Value = None,
     t_Data = bytes\<rparr>"

lemma ex_prepare:
  "TransactionPrepare (exTxEnv []) (Some exLimited) exInput 0 =
     (Inr (Inr \<lparr>pr_Gas = 150000, pr_TransactionData = ''0x'' @ hexEncode [1, 2, 3, 4]\<rparr>), 1)"
proof -
  have e: "gasEstimate (exTxEnv []) (Some exLimited) tx m es 0 = (Inr 150000, 1)" for tx m es
    by (simp add: gasEstimate_def exTxEnv_def ex_scaled Let_def)
  have b: "buildTx (exTxEnv []) txTypeInvokeContract exHeaders [1, 2, 3, 4] = Inr (exTx [1, 2, 3, 4])"
    by (simp add: buildTx_def fromField_def toField_def exTxEnv_def exHeaders_def exTx_def)
  have h: "te_hexString (exTxEnv []) bs = ''0x'' @ hexEncode bs" for bs by (simp add: exTxEnv_def)
  have c: "prepareCallData (exTxEnv []) exInput = Inr (Inr ([1, 2, 3, 4], ''m''))"
    by (simp add: prepareCallData_def exTxEnv_def exInput_def)
  have i: "ti_Headers exInput = exHeaders" "ti_Errors exInput = []" "th_Gas exHeaders = None"
    by (simp_all add: exInput_def exHeaders_def)
  show ?thesis
    by (simp add: TransactionPrepare_def c prepareWith_def ensureGasEstimate_def i b e h)
qed

definition exSend :: TransactionSendRequest where
  "exSend = \<lparr>sd_Headers = exHeaders, sd_PreSigned = False,
     sd_TransactionData = ''0x'' @ hexEncode [1, 2, 3, 4], sd_GasPrice = None\<rparr>"

lemma ex_send: "TransactionSend (exTxEnv []) exSend 1 = (Inr (''0x'' @ hexEncode (replicate 32 5)), 2)"
proof -
  have d: "hexDecodeString (TrimPrefix (sd_TransactionData exSend) ''0x'') = ([1, 2, 3, 4], True)"
    by (simp only: exSend_def TransactionSendRequest.simps TrimPrefix_append hexDecode_hexEncode)
  have b: "buildTx (exTxEnv []) txTypePrePrepared exHeaders [1, 2, 3, 4] = Inr (exTx [1, 2, 3, 4])"
    by (simp add: buildTx_def fromField_def toField_def exTxEnv_def exHeaders_def exTx_def)
  have "sd_Headers exSend = exHeaders" "sd_GasPrice exSend = None" "\<not> sd_PreSigned exSend"
    by (simp_all add: exSend_def)
  with b d show ?thesis
    by (simp add: TransactionSend_def transactionToSend_def mapGasPrice_def sendResult_def)
       (simp add: exTxEnv_def)
qed

section \<open>Confirmations\<close>

definition exQueryEnv :: queryEnv where
  "exQueryEnv =
     \<lparr>qe_getBalance = (\<lambda>t a b. Inr 0), qe_gasPrice = (\<lambda>t. Inr 0), qe_getTransactionCount = (\<lambda>t s b. Inr 0),
      qe_newHexBytes = (\<lambda>s. Inr (Some (map (\<lambda>c. of_nat (of_char c)) s)))\<rparr>"

definition exPrint :: "hexbytes \<Rightarrow> string" where
  "exPrint h = map (\<lambda>b. char_of (unat b)) (bytesOf h)"

lemma ex_hex_roundtrip [simp]: "hex_roundtrip exQueryEnv exPrint"
proof -
  have *: "word_of_nat (of_char (char_of (unat b) :: char)) = b" for b :: "8 word"
    using unat_byte_less [of b] by simp
  have "map ((\<lambda>c. word_of_nat (of_char c)) \<circ> (\<lambda>b. char_of (unat b) :: char)) bs = bs" for bs :: "8 word list"
    by (induction bs) (simp_all only: list.map comp_def *)
  then show ?thesis
    by (simp add: hex_roundtrip_def exQueryEnv_def exPrint_def hexEquals_def)
qed

text \<open>The chain of \<open>Examples\<close>, on a node whose hashes are printed so that they can be read back.\<close>

definition exPrintEnv :: "(exBc, exRc) env" where
  "exPrintEnv = (exEnv 3)\<lparr>hashString := exPrint\<rparr>"

definition exPrinted :: "(exBc, exRc) blockListener" where
  "exPrinted = snd (getReceiptAndBlock exPrintEnv ''t'' exChain)"

lemma exPrint_tx: "getReceiptAndBlock exPrintEnv ''t'' exChain = (Inr (Some (exInfo 1, exReceipt 1)), exPrinted)"
proof -
  have "fst (getReceiptAndBlock exPrintEnv ''t'' exChain) = Inr (Some (exInfo 1, exReceipt 1))"
    by (simp add: getReceiptAndBlock_def GetTransactionReceipt_def getCachedTransactionReceipt_def
        GetBlockInfoByNumber_def blockCacheGet_def queryBlockByNumber_def exPrintEnv_def exPrint_def
        GetEVMBlockWithTxHashesByNumber_def exEnv_def exState_def exLru_def exNode_def exReceipt_def
        hashes_ToBlockInfo_def nodeBlock_def ticked_def addToBlockCache_def exHash_def)
  then show ?thesis unfolding exPrinted_def by (metis prod.collapse)
qed

lemma ex_reconcile_api:
  obtains u s' where "ReconcileConfirmations_API exQueryEnv (exReceiptEnv None) exPrintEnv ''t'' [] 2 exChain exConn =
      (Inr u, s', exConn)"
proof -
  have same: "same_chain exChain exPrinted" using exPrint_tx by (rule getReceiptAndBlock_same)
  have blocks: "chainBlocks exPrinted = [exInfo 2, exInfo 3]"
    using same_chainD(2) [OF same] exState_chain [of "[exInfo 2, exInfo 3]"] by (simp add: chainBlocks_def)
  have ok: "chain_ok exPrinted"
    by (rule chain_ok_same [OF same exState_ok]) (auto simp: bi_IsParentOf_def exHash_def)
  have conf: "conf exPrinted = conf exChain" using same by (rule same_chainD)
  have holds: "holds_node_chain exBlock 3 exPrinted"
    by (auto simp: holds_node_chain_def blocks conf segment_def upt_rec intro!: exI [of _ 2])
  have node: "stable_node exPrintEnv exBlock 3"
    using exEnv_stable [of 3] by (simp add: stable_node_def exPrintEnv_def)
  have "of_node exBlock False 3 (exInfo 1)" by (simp add: of_node_def)
  from buildConfirmationList_stable [OF node _ ok holds, of "exInfo 1" 2 "toBlockInfoList []"] this
  obtain r s' where "buildConfirmationList exPrintEnv (toBlockInfoList []) (exInfo 1) 2 exPrinted = (Inr r, s')"
    by (auto simp: conf)
  then obtain r1 where r: "ReconcileConfirmationsForTransaction exPrintEnv ''t'' [] 2 exChain = (Inr (r1, Some (exReceipt 1)), s')"
    using exPrint_tx by (auto simp: ReconcileConfirmationsForTransaction_def)
  have "\<exists>resp. enrichTransactionReceipt (exReceiptEnv None) (exReceipt 1) exConn = (Inr resp, exConn)"
    by (simp add: enrichTransactionReceipt_def isSuccess_def exReceipt_def getErrorInfo_def exConn_def)
  with r that show thesis by (auto simp: ReconcileConfirmations_API_def)
qed

end
