(* ===== verification/ApiProperties.thy ===== *)
theory ApiProperties
  imports ApiExamples
begin

text \<open>
  The properties of the requests of the connector API: event streams and their restart, receipts,
  calls and transactions, confirmations, and the formatting of the JSON/RPC structures.
\<close>

section \<open>Event streams\<close>



text \<open>C33. A stream that is restarted resumes where it was. The checkpoint that \<open>EventListenerHWM\<close> gives
  for a listener, given back with the listener when a stream is started again, in any state of the
  connector and among any other listeners, is the checkpoint that \<open>EventListenerHWM\<close> gives then;
  nothing counts as detected yet, and the listener is in catch-up.\<close>

theorem restart_resumes_at_checkpoint:
  assumes "EventListenerHWM j l cn0 = Inr (cp, detected, catchup)" and "0 \<le> cp_Block cp"
    and "EventStreamStart E i ils cn = (Inr (Inr ()), cn')"
    and "il \<in> set ils" and "rq_ListenerID il = l" and "rq_Checkpoint il = Some cp"
  shows "EventListenerHWM i l cn' = Inr (cp, None, True)"
proof -
  obtain es where hwm: "\<And>l. EventListenerHWM i l cn' =
      (case getListenerHWM l es of Inl e \<Rightarrow> Inl (ErrorReasonNotFound, e) | Inr r \<Rightarrow> Inr r)"
    and "\<forall>il \<in> set ils. resumed il es"
    using EventStreamStart_HWM [OF assms(3)] by blast
  with assms(4) have "resumed il es" by blast
  from resumed_HWM [OF this] assms(2,5,6)
  have "getListenerHWM l es = Inr (\<lparr>cp_Block = cp_Block cp, cp_TransactionIndex = -1, cp_LogIndex = -1\<rparr>, None, True)"
    by auto
  with hwm [of l] EventListenerHWM_checkpoint [OF assms(1)] show ?thesis by simp
qed

theorem restart_resumes_at_checkpoint_witness:
  "EventListenerHWM 3 8 exResumed =
     Inr (\<lparr>cp_Block = 40, cp_TransactionIndex = -1, cp_LogIndex = -1\<rparr>, None, True)"
proof -
  obtain es where "\<And>l. EventListenerHWM 3 l exResumed =
      (case getListenerHWM l es of Inl e \<Rightarrow> Inl (ErrorReasonNotFound, e) | Inr r \<Rightarrow> Inr r)"
    and "resumed exResume es"
    using EventStreamStart_HWM [OF ex_resume] by auto
  with resumed_HWM [of exResume es]
  have "EventListenerHWM 3 8 exResumed =
      Inr (\<lparr>cp_Block = 40, cp_TransactionIndex = -1, cp_LogIndex = -1\<rparr>, None, True)"
    by (auto simp: exResume_def exReq_def)
  from restart_resumes_at_checkpoint [OF this _ ex_resume, of exResume] show ?thesis
    by (simp add: exResume_def exReq_def)
qed

section \<open>Receipts\<close>

text \<open>C34. In light mode an answer that contradicts the caller is only given when it is definitive. If the
  caller says in which block it saw the transaction, then "not found", or a receipt in another
  block, is answered only when the head that was observed is at least two gaps above that block;
  and the caller is told to try again only when it is not.\<close>

theorem light_receipts_are_definitive:
  assumes "TransactionReceipt E req c = (Inr r, c')" and "lightMode c"
    and "tq_BlockNumber req = Some n" and "0 \<le> n" and "0 \<le> c_checkpointBlockGap c"
    and "n + 2 * c_checkpointBlockGap c < 2 ^ 64" and "tq_BlockHash req \<noteq> []"
  shows "((case r of
             Inl (reason, e) \<Rightarrow> reason = ErrorReasonNotFound
           | Inr resp \<Rightarrow> \<not> EqualFold (tr_BlockHash resp) (tq_BlockHash req)) \<longrightarrow>
          headPassed (re_conn E) n (c_ticked c)) \<and>
    ((\<exists>e. r = Inl (ErrorReasonNodeBehind, e)) \<longrightarrow> \<not> headPassed (re_conn E) n (c_ticked c))"
proof -
  have definitive: "d \<longleftrightarrow> headPassed (re_conn E) n (c_ticked c)"
    if "receiptDefinitive (re_conn E) req (c_ticked c) = ((h, d), c1)" for h d c1
    using receiptDefinitive_headPassed [OF that] assms(2-6) by simp
  from assms(1) show ?thesis
  proof (cases rule: TransactionReceipt_cases)
    case (3 h d e)
    with definitive [OF 3(2)] show ?thesis by (auto split: if_splits)
  next
    case (4 rc h e)
    with definitive [OF 4(3)] show ?thesis by auto
  next
    case (5 rc c1 filters methods resp)
    have "tr_BlockHash resp = ce_hashString (re_conn E) (rc_BlockHash rc)"
      using respondReceipt_fields [OF 5(4)] by simp
    with 5 assms(7) definitive show ?thesis by (auto simp: otherBlock_def)
  qed auto
qed

theorem light_receipts_are_definitive_witness:
  "\<exists>e c'. TransactionReceipt (exReceiptEnv None) (exReceiptReq []) exLightConn =
      (Inr (Inl (ErrorReasonNotFound, e)), c') \<and> headPassed exConnEnv 90 (c_ticked exLightConn)"
proof -
  have light: "lightMode exLightConn" "c_checkpointBlockGap exLightConn = 5"
    by (simp_all add: exLightConn_def exConn_def lightMode_def)
  have "receiptDefinitive exConnEnv (exReceiptReq []) (c_ticked exLightConn) =
      ((100, True), c_ticked (c_ticked exLightConn))"
    using light by (simp add: receiptDefinitive_def exReceiptReq_def exConnEnv_def bigUint64_def)
  then have r: "TransactionReceipt (exReceiptEnv None) (exReceiptReq []) exLightConn =
      (Inr (Inl (ErrorReasonNotFound, MsgReceiptNotAvailable ''t'')), c_ticked (c_ticked exLightConn))"
    by (simp add: TransactionReceipt_def exReceiptEnv_def parseReceiptRequest_def)
       (simp add: exReceiptReq_def)
  have "headPassed (re_conn (exReceiptEnv None)) 90 (c_ticked exLightConn)"
    using light_receipts_are_definitive [OF r light(1), of 90] light(2) by (simp add: exReceiptReq_def)
  with r show ?thesis by (simp add: exReceiptEnv_def)
qed

text \<open>C35. A receipt gives at most one event for each of its logs, in their order, and it is the best one:
  of the filters whose event matched the log without an error, the last one that could decode it, or
  else the first one.\<close>

theorem receipt_events_best_match:
  assumes "TransactionReceipt E req c = (Inr (Inr resp), c')"
    and "re_getTransactionReceipt E (c_tick c) (tq_TransactionHash req) = Inr (Some r)"
    and "parseReceiptRequest E req = Inr (Inr (filters, methods))" and "filters \<noteq> []"
  shows "\<exists>c1 rss. eachLog (re_conn E) (tq_ExtractSigner req) methods filters (rc_Logs r) c1 rss c' \<and>
    length rss = length (rc_Logs r) \<and> tr_Events resp = List.map_filter bestOf rss"
  using assms(1)
proof (cases rule: TransactionReceipt_cases)
  case (5 rc c1 fs ms resp')
  with assms have same: "rc = r" "fs = filters" "ms = methods" "resp' = resp" by simp_all
  with respondReceipt_fields [OF 5(4)] assms(4) obtain c2 where
    "receiptEvents (re_conn E) (tq_ExtractSigner req) methods filters (rc_Logs r) c2 =
       (Inr (tr_Events resp), c')" by auto
  from receiptEvents_best [OF this] eachLog_length show ?thesis by blast
qed auto

theorem receipt_events_best_match_witness:
  "\<exists>resp c' c1 rss. TransactionReceipt (exReceiptEnv (Some exDone)) (exReceiptReq [''f'']) exConn =
      (Inr (Inr resp), c') \<and>
    eachLog exConnEnv False [] [exFilter] (rc_Logs exDone) c1 rss c' \<and> tr_Events resp = List.map_filter bestOf rss \<and>
    length rss = 1"
proof -
  let ?E = "exReceiptEnv (Some exDone)" and ?req = "exReceiptReq [''f'']"
  have p: "parseReceiptRequest ?E ?req = Inr (Inr ([exFilter], []))"
    by (simp add: parseReceiptRequest_def exReceiptEnv_def exReceiptReq_def parseEventFilters_def
        parseEventFilter_def exConnEnv_def exFilter_def)
  have g: "re_getTransactionReceipt ?E t h = Inr (Some exDone)" for t h by (simp add: exReceiptEnv_def)
  have m: "filterMatches exFilter (exLog 90) = Inr True"
    by (simp add: filterMatches_def exFilter_def exLog_def)
  have n: "logNumbers (exLog 90) = Inr \<lparr>cp_Block = 90, cp_TransactionIndex = 0, cp_LogIndex = 0\<rparr>"
    by (simp add: logNumbers_def exLog_def fitsInt64_def maxInt64_def)
  have *: "\<exists>e. enrichMatched exConnEnv False exFilter [] (exLog 90) c = (Inr e, c)"
    if "c_chainID c = ''1''" "\<not> c_eventBlockTimestamps c" for c
    using that by (simp add: enrichMatched_def ensureChainID_def eventTimestamp_def enrichTransaction_def)
  obtain e where e: "enrichMatched exConnEnv False exFilter [] (exLog 90) (c_ticked exConn) =
      (Inr e, c_ticked exConn)"
  proof -
    have "c_chainID (c_ticked exConn) = ''1''" "\<not> c_eventBlockTimestamps (c_ticked exConn)"
      by (simp_all add: exConn_def)
    with that *  show ?thesis by blast
  qed
  have "\<exists>es. receiptEvents exConnEnv False [] [exFilter] [exLog 90] (c_ticked exConn) = (Inr es, c_ticked exConn)"
    by (simp add: ee_filterEnrichEthLog_def n m e Let_def)
  moreover have "isSuccess exDone" by (simp add: isSuccess_def exDone_def)
  ultimately have "\<exists>resp. respondReceipt ?E ?req [exFilter] [] exDone (c_ticked exConn) = (Inr resp, c_ticked exConn)"
    by (auto simp: respondReceipt_def enrichTransactionReceipt_def)
       (auto simp: exReceiptEnv_def exReceiptReq_def exDone_def)
  then obtain resp where resp: "respondReceipt ?E ?req [exFilter] [] exDone (c_ticked exConn) = (Inr resp, c_ticked exConn)"
    by blast
  have "(char_of (98 :: nat) :: char) = CHR ''b''" by code_simp
  then have "\<not> otherBlock ?E ?req exDone"
    by (simp add: otherBlock_def exReceiptEnv_def exReceiptReq_def exDone_def exConnEnv_def)
  with p g resp have r: "TransactionReceipt ?E ?req exConn = (Inr (Inr resp), c_ticked exConn)"
    by (simp add: TransactionReceipt_def)
  have "rc_Logs exDone = [exLog 90]" "re_conn ?E = exConnEnv" "tq_ExtractSigner ?req = False"
    by (simp_all add: exDone_def exReceiptEnv_def exReceiptReq_def)
  with receipt_events_best_match [OF r g p] r show ?thesis by auto
qed

section \<open>Calls and transactions\<close>





text \<open>C38. What was prepared is what is sent. When the data that \<open>TransactionPrepare\<close> returned is given
  to \<open>TransactionSend\<close>, the transaction that reaches the node carries exactly the call data of the
  method and its parameters, the addresses of the request, and either the prices of EIP-1559 or a
  legacy price but never both; and the hash that is returned is one of 32 bytes from the node.\<close>

theorem prepared_data_is_sent:
  assumes "prints_hex E" and "TransactionPrepare E bl req t = (Inr (Inr p), t')"
    and "sd_TransactionData send = pr_TransactionData p" and "\<not> sd_PreSigned send"
    and "TransactionSend E send u = (Inr hash, u')"
  shows "\<exists>tx method h. prepareCallData E req = Inr (Inr (t_Data tx, method)) \<and> priced tx \<and>
    fromField E txTypePrePrepared (th_From (sd_Headers send)) = Inr (t_From tx) \<and>
    toField E txTypePrePrepared (th_To (sd_Headers send)) = Inr (t_To tx) \<and>
    te_sendTransaction E u tx = Inr h \<and> length (bytesOf h) = 32 \<and> hash = te_hexString E (bytesOf h)"
proof -
  obtain callData meth where call: "prepareCallData E req = Inr (Inr (callData, meth))"
    "pr_TransactionData p = te_hexString E callData"
    using TransactionPrepare_parts [OF assms(2)] by blast
  obtain tx where tx: "transactionToSend E send = Inr tx"
    and "sendResult E (te_sendTransaction E u tx) = Inr hash"
    using assms(4,5) by (auto simp: TransactionSend_def split: sum.splits)
  note fields = transactionToSend_fields [OF tx] and sent = sendResult_Inr [OF this(2)]
  have "t_Data tx = callData"
    using fields printed_data_decodes [OF assms(1), of callData] assms(3) call(2) by simp
  with call(1) fields sent show ?thesis by blast
qed

theorem prepared_data_is_sent_witness:
  "\<exists>tx h. t_Data tx = [1, 2, 3, 4] \<and> te_sendTransaction (exTxEnv []) 1 tx = Inr h \<and> length (bytesOf h) = 32"
proof -
  have "prepareCallData (exTxEnv []) exInput = Inr (Inr ([1, 2, 3, 4], ''m''))"
    by (simp add: prepareCallData_def exTxEnv_def exInput_def)
  moreover have "sd_TransactionData exSend = ''0x'' @ hexEncode [1, 2, 3, 4]" "\<not> sd_PreSigned exSend"
    by (simp_all add: exSend_def)
  ultimately show ?thesis
    using prepared_data_is_sent [OF exTxEnv_prints ex_prepare _ _ ex_send] by auto
qed

section \<open>Confirmations\<close>

text \<open>C39. A caller may send back the confirmations it was given. The strings of the answer parse, to
  blocks that equal, one by one, those the block listener confirmed, so that they are linked exactly
  when those were; the flags and counts of the answer are those of the block listener.\<close>

theorem confirmations_can_be_sent_back:
  assumes "ReconcileConfirmations_API Q R E txHash existing target s c = (Inr u, s', c')"
    and "hex_roundtrip Q (hashString E)"
  shows "\<exists>given v receipt sent. ffcapiToEthRPCConfirmations Q existing = Inr given \<and>
    ReconcileConfirmationsForTransaction E txHash given target s = (Inr (v, receipt), s') \<and>
    ffcapiToEthRPCConfirmations Q (fc_Confirmations u) = Inr sent \<and>
    list_all2 mb_Equal sent (cu_Confirmations v) \<and>
    successively mb_IsParentOf sent = successively mb_IsParentOf (cu_Confirmations v) \<and>
    fc_Confirmed u = cu_Confirmed v \<and> fc_NewFork u = cu_NewFork v \<and> fc_Rebuilt u = cu_Rebuilt v \<and>
    fc_CurrentConfirmationCount u = cu_CurrentConfirmationCount v \<and>
    fc_TargetConfirmationCount u = cu_TargetConfirmationCount v \<and> (fc_Receipt u = None \<longleftrightarrow> receipt = None)"
proof -
  obtain given v receipt where g: "ffcapiToEthRPCConfirmations Q existing = Inr given"
    and v: "ReconcileConfirmationsForTransaction E txHash given target s = (Inr (v, receipt), s')"
    and u: "u = \<lparr>fc_Confirmations = ethRPCtoFFCAPIConfirmations (hashString E) (cu_Confirmations v),
      fc_Rebuilt = cu_Rebuilt v, fc_NewFork = cu_NewFork v, fc_Confirmed = cu_Confirmed v,
      fc_CurrentConfirmationCount = cu_CurrentConfirmationCount v,
      fc_TargetConfirmationCount = cu_TargetConfirmationCount v, fc_Receipt = fc_Receipt u\<rparr>"
    and r: "fc_Receipt u = None \<longleftrightarrow> receipt = None"
    using assms(1) by (auto simp: ReconcileConfirmations_API_def
        split: sum.splits prod.splits option.splits)
  obtain sent where sent: "ffcapiToEthRPCConfirmations Q (fc_Confirmations u) = Inr sent"
    "list_all2 mb_Equal sent (cu_Confirmations v)"
    using confirmations_there_and_back [OF assms(2), of "cu_Confirmations v"] u
    by (metis ffcapiConfirmationUpdateResult.select_convs(1))
  have "fc_Confirmed u = cu_Confirmed v \<and> fc_NewFork u = cu_NewFork v \<and> fc_Rebuilt u = cu_Rebuilt v \<and>
    fc_CurrentConfirmationCount u = cu_CurrentConfirmationCount v \<and>
    fc_TargetConfirmationCount u = cu_TargetConfirmationCount v"
    by (subst (1 2 3 4 5) u) simp
  with g v sent linked_Equal [OF sent(2)] r show ?thesis
    by (intro exI [of _ given] exI [of _ v] exI [of _ receipt] exI [of _ sent]) simp
qed

theorem confirmations_can_be_sent_back_witness:
  "\<exists>u s' v receipt sent.
    ReconcileConfirmations_API exQueryEnv (exReceiptEnv None) exPrintEnv ''t'' [] 2 exChain exConn =
      (Inr u, s', exConn) \<and>
    ReconcileConfirmationsForTransaction exPrintEnv ''t'' [] 2 exChain = (Inr (v, receipt), s') \<and>
    ffcapiToEthRPCConfirmations exQueryEnv (fc_Confirmations u) = Inr sent \<and>
    list_all2 mb_Equal sent (cu_Confirmations v)"
proof -
  obtain u s' where u: "ReconcileConfirmations_API exQueryEnv (exReceiptEnv None) exPrintEnv ''t'' [] 2
      exChain exConn = (Inr u, s', exConn)" by (rule ex_reconcile_api)
  have "hex_roundtrip exQueryEnv (hashString exPrintEnv)" by (simp add: exPrintEnv_def)
  from confirmations_can_be_sent_back [OF u this] u show ?thesis by fastforce
qed

section \<open>Formatting\<close>


end
