(* ===== verification/ConnectorStart.thy ===== *)
theory ConnectorStart
  imports ConnectorConfig RpcClient EventActions ListenerLife Decimal
begin

text \<open>
  The construction of the connector from the configuration file, and its end: the configuration
  keys with their defaults (\<open>internal/ethereum/config.go\<close>), \<open>NewEthereumConnector\<close>, the serializer
  and \<open>WaitClosed\<close> of \<open>internal/ethereum/ethereum.go\<close>, and \<open>NewClient\<close> of \<open>pkg/ethrpc/client.go\<close>.

  The configuration library is not under src/: a section of the configuration is the record of its
  getters. \<open>defaultsAnswered\<close> states what the library documents of a known key that is not set. The
  library constructors (HTTP and WebSocket configuration, LRU caches, regular expressions) are
  given by their outcomes.
\<close>

section \<open>Keys and defaults\<close>

text \<open>A default, a float64 by its mantissa and binary exponent.\<close>

datatype confDefault =
    DefaultString string
  | DefaultInt int64
  | DefaultBool bool
  | DefaultFloat int int
  | NoDefault

definition InitConfig :: "(string \<times> confDefault) list" where
  "InitConfig =
     [(''ws.enabled'', DefaultBool False),
      (''rpcRoutingMode'', DefaultString ''auto''),
      (''blockCacheSize'', DefaultInt 250),
      (''receiptCache.enabled'', DefaultBool False),
      (''receiptCache.size'', DefaultInt 5000),
      (''blockPollingInterval'', DefaultString ''1s''),
      (''chainTrackingMode'', DefaultString ''full''),
      (''dataFormat'', DefaultString ''map''),
      (''gasEstimationFactor'', DefaultFloat 3 (-1)),
      (''events.blockTimestamps'', DefaultBool True),
      (''events.filterPollingInterval'', DefaultString ''1s''),
      (''events.filterPollingMode'', DefaultString ''server''),
      (''events.catchupPageSize'', DefaultInt 500),
      (''events.catchupThreshold'', DefaultInt 500),
      (''events.catchupDownscaleRegex'', DefaultString ''Response size is larger than.*limit''),
      (''events.checkpointBlockGap'', DefaultInt 50),
      (''queryLoopRetry.factor'', DefaultFloat 1 1),
      (''queryLoopRetry.initialDelay'', DefaultString ''100ms''),
      (''queryLoopRetry.maxDelay'', DefaultString ''30s''),
      (''retry.factor'', NoDefault),
      (''retry.initialDelay'', NoDefault),
      (''retry.maxDelay'', NoDefault),
      (''maxConcurrentRequests'', DefaultInt 50),
      (''txCacheSize'', DefaultInt 250),
      (''hederaCompatibilityMode'', DefaultBool False),
      (''traceTXForRevertReason'', DefaultBool False),
      (''maxAsyncBlockFetchConcurrency'', DefaultInt 25),
      (''useGetBlockReceipts'', DefaultBool False),
      (''retry.enabled'', DefaultBool True)]"

record confSection =
  cs_GetString :: "string \<Rightarrow> string"
  cs_GetInt64 :: "string \<Rightarrow> int64"
  cs_GetBool :: "string \<Rightarrow> bool"
  cs_GetFloat64 :: "string \<Rightarrow> int \<times> int"
  cs_GetDuration :: "string \<Rightarrow> int64"
  cs_IsSet :: "string \<Rightarrow> bool"

definition answersDefault :: "confSection \<Rightarrow> string \<times> confDefault \<Rightarrow> bool" where
  "answersDefault cs kd =
     (case kd of (k, d) \<Rightarrow>
        (case d of
           DefaultString s \<Rightarrow> cs_GetString cs k = s
         | DefaultInt i \<Rightarrow> cs_GetInt64 cs k = i
         | DefaultBool b \<Rightarrow> cs_GetBool cs k = b
         | DefaultFloat m e \<Rightarrow> cs_GetFloat64 cs k = (m, e)
         | NoDefault \<Rightarrow> True))"

definition defaultsAnswered :: "confSection \<Rightarrow> bool" where
  "defaultsAnswered cs \<longleftrightarrow> list_all (answersDefault cs) InitConfig"

section \<open>The RPC client\<close>

record ('http, 'ws) rpcConfig =
  rc_RoutingMode :: string
  rc_HTTP :: 'http
  rc_WS :: "'ws option"
  rc_MaxConcurrentRequests :: int64

definition NewClient :: "('http, 'ws) rpcConfig \<Rightarrow> client result" where
  "NewClient rc = NewClientWithBackends (rc_RoutingMode rc) (rc_WS rc \<noteq> None)"

section \<open>The connector\<close>

text \<open>The outcomes of the library constructors, the caches by their size.\<close>

record ('bc, 'rc, 'tc, 'http, 'ws) libraries =
  lib_GenerateWSConfig :: "'ws result"
  lib_GenerateHTTPConfig :: "'http result"
  lib_newTxCache :: "int64 \<Rightarrow> 'tc option"
  lib_newBlockCache :: "int64 \<Rightarrow> 'bc option"
  lib_newReceiptCache :: "int64 \<Rightarrow> 'rc option"
  lib_regexCompiles :: "string \<Rightarrow> bool"

definition readConfig ::
  "('bc, 'rc, 'tc, 'http, 'ws) libraries \<Rightarrow> confSection \<Rightarrow> ('bc, 'rc, 'tc) config" where
  "readConfig L cs =
     \<lparr>cf_ChainTrackingMode = cs_GetString cs ''chainTrackingMode'',
      cf_EventsFilterPollingMode = cs_GetString cs ''events.filterPollingMode'',
      cf_EventsCatchupPageSize = cs_GetInt64 cs ''events.catchupPageSize'',
      cf_EventsCatchupThreshold = cs_GetInt64 cs ''events.catchupThreshold'',
      cf_EventsCheckpointBlockGap = cs_GetInt64 cs ''events.checkpointBlockGap'',
      cf_EventsBlockTimestamps = cs_GetBool cs ''events.blockTimestamps'',
      cf_TraceTXForRevertReason = cs_GetBool cs ''traceTXForRevertReason'',
      cf_DataFormat = cs_GetString cs ''dataFormat'',
      cf_HederaCompatibilityMode = cs_GetBool cs ''hederaCompatibilityMode'',
      cf_UseGetBlockReceipts = cs_GetBool cs ''useGetBlockReceipts'',
      cf_ReceiptCacheEnabled = cs_GetBool cs ''receiptCache.enabled'',
      cf_newTxCache = lib_newTxCache L (cs_GetInt64 cs ''txCacheSize''),
      cf_regexCompiles = lib_regexCompiles L (cs_GetString cs ''events.catchupDownscaleRegex''),
      cf_newBlockCache = lib_newBlockCache L (cs_GetInt64 cs ''blockCacheSize''),
      cf_newReceiptCache = lib_newReceiptCache L (cs_GetInt64 cs ''receiptCache.size'')\<rparr>"

text \<open>The retry settings, the older keys of which are still read.\<close>

definition retrySettings :: "confSection \<Rightarrow> int64 \<times> (int \<times> int) \<times> int64" where
  "retrySettings cs =
     (withDeprecatedConfFallback (cs_IsSet cs) (cs_GetDuration cs)
        ''retry.initialDelay'' ''queryLoopRetry.initialDelay'',
      withDeprecatedConfFallback (cs_IsSet cs) (cs_GetFloat64 cs)
        ''retry.factor'' ''queryLoopRetry.factor'',
      withDeprecatedConfFallback (cs_IsSet cs) (cs_GetDuration cs)
        ''retry.maxDelay'' ''queryLoopRetry.maxDelay'')"

datatype FormattingMode =
    FormatAsObjects
  | FormatAsFlatArrays
  | FormatAsSelfDescribingArrays

definition formattingMode :: "string \<Rightarrow> FormattingMode option" where
  "formattingMode s =
     (if s = ''map'' then Some FormatAsObjects
      else if s = ''flat_array'' then Some FormatAsFlatArrays
      else if s = ''self_describing'' then Some FormatAsSelfDescribingArrays
      else None)"

definition defaultNameGenerator :: "nat \<Rightarrow> string" where
  "defaultNameGenerator idx = (if idx > 0 then ''output'' @ showNat idx else ''output'')"

record ('bc, 'rc, 'tc) Connector =
  k_conn :: "'tc ethConnector"
  k_blockListener :: "('bc, 'rc) blockListener"
  k_rpc :: client
  k_retry :: "int64 \<times> (int \<times> int) \<times> int64"
  k_gasEstimationFactor :: "int \<times> int"
  k_eventFilterPollingInterval :: int64
  k_formatting :: "FormattingMode option"

definition RPC :: "('bc, 'rc, 'tc) Connector \<Rightarrow> client" where
  "RPC k = k_rpc k"

definition BlockListener :: "('bc, 'rc, 'tc) Connector \<Rightarrow> ('bc, 'rc) blockListener" where
  "BlockListener k = k_blockListener k"

definition ConnectorWithRPC ::
  "('bc, 'rc, 'tc, 'http, 'ws) libraries \<Rightarrow> (nat \<Rightarrow> string + int) \<Rightarrow> confSection \<Rightarrow> client \<Rightarrow>
   ('bc, 'rc, 'tc) Connector result" where
  "ConnectorWithRPC L blockNumber cs rpc =
     (case NewEthereumConnectorWithRPC (readConfig L cs) blockNumber of
        Inl e \<Rightarrow> Inl e
      | Inr (c, bl) \<Rightarrow>
          Inr \<lparr>k_conn = c, k_blockListener = bl, k_rpc = rpc, k_retry = retrySettings cs,
               k_gasEstimationFactor = cs_GetFloat64 cs ''gasEstimationFactor'',
               k_eventFilterPollingInterval = cs_GetDuration cs ''events.filterPollingInterval'',
               k_formatting = formattingMode (cs_GetString cs ''dataFormat'')\<rparr>)"

definition NewEthereumConnector ::
  "('bc, 'rc, 'tc, 'http, 'ws) libraries \<Rightarrow> (nat \<Rightarrow> string + int) \<Rightarrow> confSection \<Rightarrow>
   ('bc, 'rc, 'tc) Connector result" where
  "NewEthereumConnector L blockNumber cs =
     (if cs_GetString cs ''url'' = '''' then Inl MsgMissingBackendURL
      else
        (case (if cs_GetBool cs ''ws.enabled'' then map_sum id Some (lib_GenerateWSConfig L)
               else Inr None) of
           Inl e \<Rightarrow> Inl e
         | Inr wsConf \<Rightarrow>
             (case lib_GenerateHTTPConfig L of
                Inl e \<Rightarrow> Inl e
              | Inr httpConf \<Rightarrow>
                  (case NewClient \<lparr>rc_RoutingMode = cs_GetString cs ''rpcRoutingMode'',
                          rc_HTTP = httpConf, rc_WS = wsConf,
                          rc_MaxConcurrentRequests = cs_GetInt64 cs ''maxConcurrentRequests''\<rparr> of
                     Inl e \<Rightarrow> Inl e
                   | Inr rpc \<Rightarrow> ConnectorWithRPC L blockNumber cs rpc))))"

section \<open>The end\<close>

text \<open>\<open>WaitClosed\<close> visits the streams of the map, in the order \<open>ids\<close> of the map's iteration: \<open>None\<close>
  while it waits, else the client, which it has closed. A nil block listener or client is skipped.\<close>

definition WaitClosed ::
  "nat list \<Rightarrow> ('bc, 'rc) listenerLife option \<Rightarrow> ('tc, 'bc, 'rc) connector \<Rightarrow> client option \<Rightarrow>
   client option option" where
  "WaitClosed ids life cn rpc =
     (if (case life of None \<Rightarrow> True | Some l \<Rightarrow> WaitClosed_returns l) \<and>
         list_all (\<lambda>i. case cn_eventStreams cn i of
                         None \<Rightarrow> True
                       | Some p \<Rightarrow> sr_phase (cn_streams cn ! p) = Stopped) ids
      then Some (map_option Close rpc) else None)"

section \<open>Which configurations are accepted\<close>

lemma NewBlockListener_accepts:
  "isl (NewBlockListener n hed lb ur tm pm bc rce rc) \<longleftrightarrow> n \<le> 0 \<or> bc = None \<or> rce \<and> rc = None"
  by (simp add: NewBlockListener_def split: option.split)

lemma formattingMode_None: "formattingMode s = None \<longleftrightarrow> s \<notin> {''map'', ''flat_array'', ''self_describing''}"
  by (simp add: formattingMode_def)

lemma NewEthereumConnectorWithRPC_accepts:
  "isl (NewEthereumConnectorWithRPC cf blockNumber) \<longleftrightarrow>
     chainTrackingMode (cf_ChainTrackingMode cf) = None \<or>
     eventFilterPollingMode (cf_EventsFilterPollingMode cf) = None \<or>
     cf_EventsCatchupPageSize cf < 1 \<or>
     chainTrackingMode (cf_ChainTrackingMode cf) = Some ChainTrackingModeLight \<and>
       cf_EventsCatchupPageSize cf < i64 (cf_EventsCheckpointBlockGap cf + 1) \<or>
     cf_newTxCache cf = None \<or> \<not> cf_regexCompiles cf \<or> formattingMode (cf_DataFormat cf) = None \<or>
     cf_EventsCheckpointBlockGap cf \<le> 0 \<or> cf_newBlockCache cf = None \<or>
     cf_ReceiptCacheEnabled cf \<and> cf_newReceiptCache cf = None"
proof -
  have isl_map: "isl (case x of Inl e \<Rightarrow> Inl e | Inr b \<Rightarrow> Inr (f b)) = isl x" for x and f :: "_ \<Rightarrow> 'z"
    by (cases x) simp_all
  show ?thesis
    unfolding NewEthereumConnectorWithRPC_def Let_def formattingMode_None [symmetric]
    by (cases "chainTrackingMode (cf_ChainTrackingMode cf)";
        cases "eventFilterPollingMode (cf_EventsFilterPollingMode cf)"; cases "cf_newTxCache cf";
        cases "formattingMode (cf_DataFormat cf)")
       (auto simp: isl_map NewBlockListener_accepts)
qed

lemma ConnectorWithRPC_accepts:
  "(\<exists>k. ConnectorWithRPC L blockNumber cs rpc = Inr k) \<longleftrightarrow>
     chainTrackingMode (cs_GetString cs ''chainTrackingMode'') \<noteq> None \<and>
     (chainTrackingMode (cs_GetString cs ''chainTrackingMode'') = Some ChainTrackingModeLight \<longrightarrow>
        i64 (cs_GetInt64 cs ''events.checkpointBlockGap'' + 1) \<le> cs_GetInt64 cs ''events.catchupPageSize'') \<and>
     eventFilterPollingMode (cs_GetString cs ''events.filterPollingMode'') \<noteq> None \<and>
     1 \<le> cs_GetInt64 cs ''events.catchupPageSize'' \<and>
     1 \<le> cs_GetInt64 cs ''events.checkpointBlockGap'' \<and>
     formattingMode (cs_GetString cs ''dataFormat'') \<noteq> None \<and>
     lib_regexCompiles L (cs_GetString cs ''events.catchupDownscaleRegex'') \<and>
     lib_newTxCache L (cs_GetInt64 cs ''txCacheSize'') \<noteq> None \<and>
     lib_newBlockCache L (cs_GetInt64 cs ''blockCacheSize'') \<noteq> None \<and>
     (cs_GetBool cs ''receiptCache.enabled'' \<longrightarrow>
        lib_newReceiptCache L (cs_GetInt64 cs ''receiptCache.size'') \<noteq> None)"
proof -
  let ?new = "NewEthereumConnectorWithRPC (readConfig L cs) blockNumber"
  have "(\<exists>k. ConnectorWithRPC L blockNumber cs rpc = Inr k) \<longleftrightarrow> \<not> isl ?new"
    by (cases ?new) (auto simp: ConnectorWithRPC_def)
  then show ?thesis
    by (auto simp: NewEthereumConnectorWithRPC_accepts readConfig_def not_less not_le)
qed

text \<open>The defaults start a connector in full mode, whatever the node answers.\<close>

lemma defaultsD:
  assumes "defaultsAnswered cs"
  shows "cs_GetString cs ''rpcRoutingMode'' = ''auto''" "cs_GetString cs ''chainTrackingMode'' = ''full''"
    "cs_GetString cs ''dataFormat'' = ''map''" "cs_GetString cs ''events.filterPollingMode'' = ''server''"
    "cs_GetString cs ''events.catchupDownscaleRegex'' = ''Response size is larger than.*limit''"
    "cs_GetInt64 cs ''events.catchupPageSize'' = 500" "cs_GetInt64 cs ''events.catchupThreshold'' = 500"
    "cs_GetInt64 cs ''events.checkpointBlockGap'' = 50" "cs_GetInt64 cs ''txCacheSize'' = 250"
    "cs_GetInt64 cs ''blockCacheSize'' = 250" "cs_GetInt64 cs ''receiptCache.size'' = 5000"
    "\<not> cs_GetBool cs ''ws.enabled''" "\<not> cs_GetBool cs ''receiptCache.enabled''"
    "cs_GetFloat64 cs ''gasEstimationFactor'' = (3, -1)"
  using assms by (simp_all add: defaultsAnswered_def InitConfig_def answersDefault_def)

lemma default_configuration_starts:
  assumes "defaultsAnswered cs" and "cs_GetString cs ''url'' \<noteq> ''''"
    and "lib_GenerateHTTPConfig L = Inr h"
    and "lib_newTxCache L 250 \<noteq> None" and "lib_newBlockCache L 250 \<noteq> None"
    and "lib_regexCompiles L ''Response size is larger than.*limit''"
  shows "\<exists>k. NewEthereumConnector L blockNumber cs = Inr k \<and> connector_ok (k_conn k) \<and>
    c_chainTrackingMode (k_conn k) = ChainTrackingModeFull \<and>
    GetMonitoredHeadLength (BlockListener k) = 50 \<and> \<not> HasWebSocket (RPC k)"
proof -
  note d = defaultsD [OF assms(1)]
  obtain rpc where rpc: "NewClientWithBackends ''auto'' False = Inr rpc" "\<not> wsBackend rpc"
    by (simp add: NewClientWithBackends_def parseRoutingMode_def)
  have "\<exists>k. ConnectorWithRPC L blockNumber cs rpc = Inr k"
    using assms(4-6) d
    by (auto simp: ConnectorWithRPC_accepts chainTrackingMode_def eventFilterPollingMode_def formattingMode_def)
  then obtain k where k: "ConnectorWithRPC L blockNumber cs rpc = Inr k" by blast
  then obtain c bl where new: "NewEthereumConnectorWithRPC (readConfig L cs) blockNumber = Inr (c, bl)"
    and kf: "k_conn k = c" "k_blockListener k = bl" "k_rpc k = rpc"
    by (auto simp: ConnectorWithRPC_def split: sum.splits)
  have size: "cf_EventsCatchupPageSize (readConfig L cs) < 2 ^ 63"
    "cf_EventsCheckpointBlockGap (readConfig L cs) < 2 ^ 63 - 1"
    by (simp_all add: readConfig_def d)
  have full: "c_chainTrackingMode c = ChainTrackingModeFull \<and> c_checkpointBlockGap c = 50"
    using new by (auto simp: NewEthereumConnectorWithRPC_def readConfig_def d chainTrackingMode_def
        Let_def split: option.splits if_splits sum.splits)
  have "NewEthereumConnector L blockNumber cs = Inr k"
    using assms(2,3) d rpc k by (simp add: NewEthereumConnector_def NewClient_def)
  with NewEthereumConnector_ok [OF new size] full kf rpc(2) show ?thesis
    by (simp add: BlockListener_def RPC_def HasWebSocket_def)
qed

text \<open>The names that the serializer makes up for outputs are pairwise different.\<close>

lemma defaultNameGenerator_inj: "defaultNameGenerator i = defaultNameGenerator j \<longleftrightarrow> i = j"
proof -
  have "i = j" if "showNat i = showNat j"
    using arg_cong [OF that, of bigSetString] by simp
  then show ?thesis using showNat_nonempty by (auto simp: defaultNameGenerator_def dest: sym)
qed

text \<open>When \<open>WaitClosed\<close> returns, the visited streams have stopped and every call of the client goes
  over HTTP.\<close>

lemma WaitClosed_closes:
  assumes "WaitClosed ids life cn (Some c) = Some r"
  shows "\<exists>c'. r = Some c' \<and> (client_ok c \<longrightarrow> routeFor c' m = HTTP)"
    and "i \<in> set ids \<Longrightarrow> cn_eventStreams cn i = Some p \<Longrightarrow> sr_phase (cn_streams cn ! p) = Stopped"
proof -
  have r: "r = Some (Close c)" using assms by (auto simp: WaitClosed_def split: if_splits)
  have "\<not> wsConnected (Close c)" if "client_ok c"
    using Close_ok [OF that] by (auto simp: client_ok_def)
  with r show "\<exists>c'. r = Some c' \<and> (client_ok c \<longrightarrow> routeFor c' m = HTTP)"
    by (simp add: routeFor_not_connected)
  show "i \<in> set ids \<Longrightarrow> cn_eventStreams cn i = Some p \<Longrightarrow> sr_phase (cn_streams cn ! p) = Stopped"
    using assms by (auto simp: WaitClosed_def list_all_iff split: if_splits)
qed

end
