(* ===== verification/CommandLine.thy ===== *)
theory CommandLine
  imports ConnectorStart
begin

text \<open>
  The process: \<open>cmd/evmconnect.go\<close>, \<open>cmd/version.go\<close>, \<open>cmd/config.go\<close> and \<open>evmconnect/main.go\<close>. The
  start of the root command up to its wait, the handler of the signals, the end, and the two
  commands that print. The parsing of the command line, the commands of the transaction manager and
  the manager itself are library code: the manager is the outcome of its constructor and of \<open>Start\<close>.
\<close>

section \<open>The version command\<close>

record buildVars =
  BuildDate :: string
  BuildCommit :: string
  BuildVersionOverride :: string

record Info =
  in_Version :: string
  in_Commit :: string
  in_Date :: string
  in_License :: string

text \<open>The version of the main module, when the binary has build information.\<close>

definition setBuildInfo :: "string option \<Rightarrow> Info \<Rightarrow> Info" where
  "setBuildInfo buildInfo info =
     (case buildInfo of None \<Rightarrow> info | Some v \<Rightarrow> info\<lparr>in_Version := v\<rparr>)"

definition versionInfo :: "string option \<Rightarrow> buildVars \<Rightarrow> Info" where
  "versionInfo buildInfo bv =
     (let info = \<lparr>in_Version = BuildVersionOverride bv, in_Commit = BuildCommit bv,
                  in_Date = BuildDate bv, in_License = ''Apache-2.0''\<rparr>
      in if in_Version info = '''' then setBuildInfo buildInfo info else info)"

text \<open>The members that \<open>omitempty\<close> leaves, in the order of the struct.\<close>

definition infoMembers :: "Info \<Rightarrow> (string \<times> string) list" where
  "infoMembers info =
     filter (\<lambda>(k, v). v \<noteq> '''')
       [(''Version'', in_Version info), (''Commit'', in_Commit info), (''Date'', in_Date info),
        (''License'', in_License info)]"

text \<open>\<open>encoding/json\<close>: a string with its escapes (of ASCII; other bytes of valid UTF-8 stay), and an
  object of strings that is indented by two blanks.\<close>

definition jsonHexDigit :: "nat \<Rightarrow> char" where
  "jsonHexDigit n = char_of (if n < 10 then 48 + n else 87 + n)"

definition jsonEscape :: "char \<Rightarrow> string" where
  "jsonEscape ch =
     (let n = of_char ch :: nat in
      if ch = CHR 0x22 \<or> ch = CHR 0x5C then [CHR 0x5C, ch]
      else if n = 8 then [CHR 0x5C, CHR ''b'']
      else if n = 9 then [CHR 0x5C, CHR ''t'']
      else if n = 10 then [CHR 0x5C, CHR ''n'']
      else if n = 12 then [CHR 0x5C, CHR ''f'']
      else if n = 13 then [CHR 0x5C, CHR ''r'']
      else if n < 32 \<or> ch \<in> {CHR ''<'', CHR ''>'', CHR ''&''}
      then CHR 0x5C # ''u00'' @ [jsonHexDigit (n div 16), jsonHexDigit (n mod 16)]
      else [ch])"

definition jsonString :: "string \<Rightarrow> string" where
  "jsonString s = CHR 0x22 # concat (map jsonEscape s) @ [CHR 0x22]"

fun jsonMembers :: "(string \<times> string) list \<Rightarrow> string" where
  "jsonMembers [] = ''''"
| "jsonMembers [(k, v)] = ''  '' @ jsonString k @ '': '' @ jsonString v @ [CHR 0x0A]"
| "jsonMembers ((k, v) # ms) = ''  '' @ jsonString k @ '': '' @ jsonString v @ '','' @ CHR 0x0A # jsonMembers ms"

definition MarshalIndent :: "Info \<Rightarrow> string" where
  "MarshalIndent info =
     (if infoMembers info = [] then ''{}''
      else CHR ''{'' # CHR 0x0A # jsonMembers (infoMembers info) @ ''}'')"

text \<open>The command: its error, and the lines that it prints. \<open>yamlMarshal\<close> is the YAML library.\<close>

definition versionCommand ::
  "(Info \<Rightarrow> string result) \<Rightarrow> string option \<Rightarrow> buildVars \<Rightarrow> bool \<Rightarrow> string \<Rightarrow>
   failure option \<times> string list" where
  "versionCommand yamlMarshal buildInfo bv shortened outputFormat =
     (let info = versionInfo buildInfo bv in
      if shortened then (None, [in_Version info])
      else (case (if outputFormat = ''json'' then Inr (MarshalIndent info)
                  else if outputFormat = ''yaml'' then yamlMarshal info
                  else Inl (MsgInvalidOutputType outputFormat)) of
              Inl e \<Rightarrow> (Some e, [])
            | Inr bytes \<Rightarrow> (None, [bytes])))"

text \<open>The \<open>docs\<close> command prints what the library generated, also when it failed.\<close>

definition configCommand :: "string \<times> failure option \<Rightarrow> failure option \<times> string list" where
  "configCommand generated = (snd generated, [fst generated])"

section \<open>The root command\<close>

record ('bc, 'rc, 'tc, 'http, 'ws) services =
  sv_ReadConfig :: "failure option"
  sv_connectorConfig :: confSection
  sv_libraries :: "('bc, 'rc, 'tc, 'http, 'ws) libraries"
  sv_blockNumber :: "nat \<Rightarrow> string + int"
  sv_NewManager :: "failure option"
  sv_newMetrics :: bool
  sv_Start :: "failure option"

datatype runPhase = Waiting | Returned "failure option"

record process =
  pr_phase :: runPhase
  pr_ctxDone :: bool
  pr_notified :: bool \<comment> \<open>after \<open>signal.Notify\<close>, with the handler started\<close>
  pr_sigs :: bool \<comment> \<open>a signal is in the channel, which has a buffer of one\<close>
  pr_handler :: bool \<comment> \<open>the handler still waits for a signal\<close>
  pr_managerStarted :: bool
  pr_managerCloses :: nat

text \<open>A return before the handler is started; the deferred \<open>cancelCtx\<close> has run.\<close>

definition returnsEarly :: "failure \<Rightarrow> process" where
  "returnsEarly e =
     \<lparr>pr_phase = Returned (Some e), pr_ctxDone = True, pr_notified = False, pr_sigs = False,
      pr_handler = False, pr_managerStarted = False, pr_managerCloses = 0\<rparr>"

text \<open>\<open>runManager\<close> up to its wait for the context.\<close>

definition runManager :: "failure option \<Rightarrow> process" where
  "runManager start =
     (case start of
        Some e \<Rightarrow>
          \<lparr>pr_phase = Returned (Some e), pr_ctxDone = True, pr_notified = True, pr_sigs = False,
           pr_handler = True, pr_managerStarted = False, pr_managerCloses = 0\<rparr>
      | None \<Rightarrow>
          \<lparr>pr_phase = Waiting, pr_ctxDone = False, pr_notified = True, pr_sigs = False,
           pr_handler = True, pr_managerStarted = True, pr_managerCloses = 0\<rparr>)"

definition run :: "('bc, 'rc, 'tc, 'http, 'ws) services \<Rightarrow> process" where
  "run S =
     (case sv_ReadConfig S of
        Some e \<Rightarrow> returnsEarly (MsgConfigFailed e)
      | None \<Rightarrow>
          (case NewEthereumConnector (sv_libraries S) (sv_blockNumber S) (sv_connectorConfig S) of
             Inl e \<Rightarrow> returnsEarly e
           | Inr c \<Rightarrow>
               (case sv_NewManager S of
                  Some e \<Rightarrow> returnsEarly e
                | None \<Rightarrow>
                    (case InitMetrics (sv_newMetrics S) (BlockListener c) of
                       (Some e, bl) \<Rightarrow> returnsEarly e
                     | (None, bl) \<Rightarrow> runManager (sv_Start S)))))"

text \<open>A signal that finds the buffer full is dropped. The handler takes one signal and cancels the
  context; the end of the wait closes the manager.\<close>

inductive process_step :: "process \<Rightarrow> process \<Rightarrow> bool" where
  process_signal: "pr_notified p \<Longrightarrow> process_step p (p\<lparr>pr_sigs := True\<rparr>)"
| process_handle: "pr_handler p \<Longrightarrow> pr_sigs p \<Longrightarrow>
     process_step p (p\<lparr>pr_sigs := False, pr_handler := False, pr_ctxDone := True\<rparr>)"
| process_close: "pr_phase p = Waiting \<Longrightarrow> pr_ctxDone p \<Longrightarrow>
     process_step p (p\<lparr>pr_managerCloses := Suc (pr_managerCloses p), pr_phase := Returned None\<rparr>)"

inductive_cases process_stepE: "process_step p p'"

abbreviation process_run :: "process \<Rightarrow> process \<Rightarrow> bool" where
  "process_run \<equiv> process_step\<^sup>*\<^sup>*"

text \<open>\<open>main\<close>: the exit code, once the command has returned.\<close>

definition main_exit :: "process \<Rightarrow> nat option" where
  "main_exit p =
     (case pr_phase p of
        Waiting \<Rightarrow> None
      | Returned None \<Rightarrow> Some 0
      | Returned (Some e) \<Rightarrow> Some 1)"

section \<open>The life of the process\<close>

text \<open>The first failure of a start, in the order of its stages.\<close>

definition startFailure :: "('bc, 'rc, 'tc, 'http, 'ws) services \<Rightarrow> failure option" where
  "startFailure S =
     (case filter (\<lambda>f. f \<noteq> None)
             [map_option MsgConfigFailed (sv_ReadConfig S),
              (case NewEthereumConnector (sv_libraries S) (sv_blockNumber S) (sv_connectorConfig S) of
                 Inl e \<Rightarrow> Some e | Inr k \<Rightarrow> None),
              sv_NewManager S, (if sv_newMetrics S then None else Some MsgMetricsInitFail), sv_Start S] of
        [] \<Rightarrow> None
      | f # _ \<Rightarrow> f)"

lemma run_starts:
  "(case startFailure S of
      Some e \<Rightarrow> pr_phase (run S) = Returned (Some e) \<and> \<not> pr_managerStarted (run S)
    | None \<Rightarrow> pr_phase (run S) = Waiting \<and> pr_managerStarted (run S) \<and> \<not> pr_ctxDone (run S) \<and>
        pr_notified (run S) \<and> pr_handler (run S)) \<and>
   pr_managerCloses (run S) = 0"
  by (auto simp: run_def startFailure_def runManager_def returnsEarly_def InitMetrics_def
      split: option.split sum.split)

definition process_ok :: "failure option \<Rightarrow> process \<Rightarrow> bool" where
  "process_ok f p \<longleftrightarrow>
     pr_managerStarted p = (f = None) \<and>
     pr_managerCloses p = (if pr_phase p = Returned None then 1 else 0) \<and>
     (case f of
        Some e \<Rightarrow> pr_phase p = Returned (Some e)
      | None \<Rightarrow> pr_phase p \<in> {Waiting, Returned None} \<and> pr_notified p \<and>
          (pr_ctxDone p \<longleftrightarrow> \<not> pr_handler p) \<and> (pr_phase p = Returned None \<longrightarrow> pr_ctxDone p))"

lemma run_ok: "process_ok (startFailure S) (run S)"
  using run_starts [of S] by (auto simp: process_ok_def split: option.splits)

lemma process_step_ok: "process_step p p' \<Longrightarrow> process_ok f p \<Longrightarrow> process_ok f p'"
  by (auto simp: process_ok_def elim!: process_stepE split: option.splits)

lemma process_run_ok: "process_run p p' \<Longrightarrow> process_ok f p \<Longrightarrow> process_ok f p'"
  by (induction rule: rtranclp_induct) (auto intro: process_step_ok)

text \<open>The process exits with 1 exactly when its start failed, and then without a started manager.
  Otherwise the manager is closed once, on the way to exit code 0, and only after a signal; and a
  signal can always end it.\<close>

theorem process_lifecycle:
  assumes "process_run (run S) p"
  shows "(main_exit p = Some 1 \<longleftrightarrow> startFailure S \<noteq> None) \<and>
    (pr_managerStarted p \<longleftrightarrow> startFailure S = None) \<and>
    pr_managerCloses p = (if main_exit p = Some 0 then 1 else 0) \<and>
    (main_exit p = Some 0 \<longrightarrow> pr_ctxDone p \<and> \<not> pr_handler p) \<and>
    (startFailure S = None \<longrightarrow> (\<exists>p'. process_run p p' \<and> main_exit p' = Some 0))"
proof -
  have ok: "process_ok (startFailure S) p" by (rule process_run_ok [OF assms run_ok])
  have "\<exists>p'. process_run p p' \<and> main_exit p' = Some 0" if f: "startFailure S = None"
  proof (cases "pr_phase p")
    case Waiting
    have "\<exists>p1. process_run p p1 \<and> pr_phase p1 = Waiting \<and> pr_ctxDone p1"
    proof (cases "pr_ctxDone p")
      case False
      with ok f have h: "pr_handler p" "pr_notified p" by (auto simp: process_ok_def)
      let ?p1 = "p\<lparr>pr_sigs := True\<rparr>"
      have "process_step p ?p1" using h by (intro process_signal)
      moreover have "process_step ?p1 (?p1\<lparr>pr_sigs := False, pr_handler := False, pr_ctxDone := True\<rparr>)"
        using h by (intro process_handle) simp_all
      ultimately have "process_run p (?p1\<lparr>pr_sigs := False, pr_handler := False, pr_ctxDone := True\<rparr>)"
        by (meson converse_rtranclp_into_rtranclp rtranclp.rtrancl_refl)
      with Waiting show ?thesis by (intro exI [of _ "?p1\<lparr>pr_sigs := False, pr_handler := False, pr_ctxDone := True\<rparr>"]) simp
    qed (use Waiting in blast)
    then obtain p1 where p1: "process_run p p1" "pr_phase p1 = Waiting" "pr_ctxDone p1" by blast
    from process_close [OF p1(2,3)] p1(1) show ?thesis
      by (intro exI [of _ "p1\<lparr>pr_managerCloses := Suc (pr_managerCloses p1), pr_phase := Returned None\<rparr>"])
         (simp add: main_exit_def rtranclp.rtrancl_into_rtrancl)
  next
    case (Returned r)
    with ok f have "main_exit p = Some 0" by (auto simp: process_ok_def main_exit_def)
    then show ?thesis by blast
  qed
  with ok show ?thesis
    by (auto simp: process_ok_def main_exit_def split: option.splits runPhase.splits if_splits)
qed

text \<open>With the defaults and a URL, a process whose services start waits for a signal.\<close>

lemma default_process_waits:
  assumes "sv_ReadConfig S = None" and "sv_NewManager S = None" and "sv_newMetrics S" and "sv_Start S = None"
    and "defaultsAnswered (sv_connectorConfig S)" and "cs_GetString (sv_connectorConfig S) ''url'' \<noteq> ''''"
    and "lib_GenerateHTTPConfig (sv_libraries S) = Inr h"
    and "lib_newTxCache (sv_libraries S) 250 \<noteq> None" and "lib_newBlockCache (sv_libraries S) 250 \<noteq> None"
    and "lib_regexCompiles (sv_libraries S) ''Response size is larger than.*limit''"
  shows "main_exit (run S) = None \<and> pr_managerStarted (run S)"
proof -
  have "startFailure S = None"
    using assms(1-4) default_configuration_starts [OF assms(5-10), of "sv_blockNumber S"]
    by (auto simp: startFailure_def)
  with run_starts [of S] show ?thesis by (simp add: main_exit_def)
qed

text \<open>The version command fails on an unknown output format, or when the YAML library does; the short
  form never fails. The version that is set at build time has precedence.\<close>

lemma versionCommand_fails:
  "(\<exists>e. fst (versionCommand yamlMarshal buildInfo bv shortened outputFormat) = Some e) \<longleftrightarrow>
     \<not> shortened \<and> outputFormat \<noteq> ''json'' \<and>
     (outputFormat = ''yaml'' \<longrightarrow> isl (yamlMarshal (versionInfo buildInfo bv)))"
  by (auto simp: versionCommand_def Let_def split: sum.split)

lemma versionInfo_override:
  "in_Version (versionInfo buildInfo bv) =
     (if BuildVersionOverride bv \<noteq> '''' then BuildVersionOverride bv
      else case buildInfo of None \<Rightarrow> '''' | Some v \<Rightarrow> v)"
  by (simp add: versionInfo_def setBuildInfo_def split: option.split)

end
