(* ===== verification/Messages.thy ===== *)
theory Messages
  imports Failures
begin

text \<open>
  \<open>internal/msgs/en_error_messages.go\<close>: the messages of the errors with their codes and status hints,
  under the names of their variables, and which of them a failure of the model is made from. The
  language tag is left out; there is only one.
\<close>

section \<open>Error messages\<close>

record errorMessage =
  em_key :: string
  em_translation :: string
  em_statusHint :: "nat list"

definition ffe :: "string \<Rightarrow> string \<Rightarrow> nat list \<Rightarrow> errorMessage" where
  "ffe key translation statusHint =
     \<lparr>em_key = key, em_translation = translation, em_statusHint = statusHint\<rparr>"

definition errorMessages :: "(string \<times> errorMessage) list" where
  \<open>errorMessages =
     [(''MsgRequestTypeNotImplemented'', ffe ''FF23010'' ''FFCAPI request '%s' not currently supported'' []),
      (''MsgBlockNotAvailable'', ffe ''FF23011'' ''Block not available'' []),
      (''MsgReceiptNotAvailable'', ffe ''FF23012'' (''Receipt not available for transaction '%s'' @ [CHR 0x27]) []),
      (''MsgUnmarshalABIMethodFail'', ffe ''FF23013'' ''Failed to parse method ABI: %s'' []),
      (''MsgUnmarshalParamFail'', ffe ''FF23014'' ''Failed to parse parameter %d: %s'' []),
      (''MsgGasPriceError'', ffe ''FF23015'' ''The gasPrice '%s' could not be parsed. Please supply a numeric string, or an object with 'gasPrice' field, or 'maxFeePerGas'/'maxPriorityFeePerGas' fields (EIP-1559)'' []),
      (''MsgInvalidOutputType'', ffe ''FF23016'' ''Invalid output type: %s'' []),
      (''MsgInvalidGasPrice'', ffe ''FF23017'' ''Failed to parse gasPrice '%s': %s'' []),
      (''MsgInvalidTXData'', ffe ''FF23018'' ''Failed to parse transaction data as hex '%s': %s'' []),
      (''MsgInvalidFromAddress'', ffe ''FF23019'' ''Invalid 'from' address '%s': %s'' []),
      (''MsgInvalidToAddress'', ffe ''FF23020'' ''Invalid 'to' address '%s': %s'' []),
      (''MsgReverted'', ffe ''FF23021'' ''EVM reverted: %s'' []),
      (''MsgReturnDataInvalid'', ffe ''FF23023'' ''EVM return data invalid: %s'' []),
      (''MsgNotInitialized'', ffe ''FF23024'' ''Not initialized'' []),
      (''MsgMissingBackendURL'', ffe ''FF23025'' ''URL must be set for the backend JSON/RPC endpoint'' []),
      (''MsgBadVersion'', ffe ''FF23026'' ''Bad FFCAPI Version '%s': %s'' []),
      (''MsgUnsupportedVersion'', ffe ''FF23027'' (''Unsupported FFCAPI Version '%s'' @ [CHR 0x27]) []),
      (''MsgUnsupportedRequestType'', ffe ''FF23028'' (''Unsupported FFCAPI request type '%s'' @ [CHR 0x27]) []),
      (''MsgMissingRequestID'', ffe ''FF23029'' ''Missing FFCAPI request id'' []),
      (''MsgUnknownConnector'', ffe ''FF23031'' (''Unknown connector type: '%s'' @ [CHR 0x27]) []),
      (''MsgBadDataFormat'', ffe ''FF23032'' ''Unknown data format option '%s' supported: %s'' []),
      (''MsgInvalidListenerOptions'', ffe ''FF23033'' ''Invalid listener options supplied: %v'' []),
      (''MsgInvalidFromBlock'', ffe ''FF23034'' (''Invalid fromBlock '%s'' @ [CHR 0x27]) []),
      (''MsgMissingEventFilter'', ffe ''FF23035'' ''Missing event filter - must specify one or more event filters'' []),
      (''MsgInvalidEventFilter'', ffe ''FF23036'' ''Invalid event filter: %s'' []),
      (''MsgMissingEventInFilter'', ffe ''FF23037'' ''Each filter must have an 'event' child containing the ABI definition of the event'' []),
      (''MsgListenerAlreadyStarted'', ffe ''FF23038'' ''Listener already started: %s'' []),
      (''MsgInvalidCheckpoint'', ffe ''FF23039'' ''Invalid checkpoint: %s'' []),
      (''MsgCacheInitFail'', ffe ''FF23040'' ''Failed to initialize %s cache'' []),
      (''MsgStreamNotStarted'', ffe ''FF23041'' ''Event stream %s not started'' []),
      (''MsgStreamAlreadyStarted'', ffe ''FF23042'' ''Event stream %s already started'' []),
      (''MsgListenerNotStarted'', ffe ''FF23043'' ''Event listener %s not started in event stream %s'' []),
      (''MsgListenerNotInitialized'', ffe ''FF23044'' ''Event listener %s not initialized in event stream %s'' []),
      (''MsgStreamNotStopped'', ffe ''FF23045'' ''Event stream %s not stopped'' []),
      (''MsgTimedOutQueryingChainHead'', ffe ''FF23046'' ''Timed out waiting for chain head block number'' []),
      (''MsgDecodeBytecodeFailed'', ffe ''FF23047'' ''Failed to decode 'bytecode' as hex or Base64'' []),
      (''MsgInvalidTXHashReturned'', ffe ''FF23048'' ''Received invalid transaction hash from node len=%d'' []),
      (''MsgUnmarshalErrorFail'', ffe ''FF23049'' ''Failed to parse error %d: %s'' []),
      (''MsgUnmarshalABIErrorsFail'', ffe ''FF23050'' ''Failed to parse errors ABI: %s'' []),
      (''MsgInvalidRegex'', ffe ''FF23051'' ''Invalid regular expression for auto-backoff catchup error: %s'' []),
      (''MsgUnableToCallDebug'', ffe ''FF23052'' ''Failed to call debug_traceTransaction to get error detail: %s'' []),
      (''MsgReturnValueNotDecoded'', ffe ''FF23053'' ''Error return value for custom error: %s'' []),
      (''MsgReturnValueNotAvailable'', ffe ''FF23054'' ''Error return value unavailable'' []),
      (''MsgInvalidProtocolID'', ffe ''FF23055'' ''Invalid protocol ID in event log: %s'' []),
      (''MsgFailedToRetrieveChainID'', ffe ''FF23056'' ''Failed to retrieve chain ID for event enrichment'' []),
      (''MsgFailedToRetrieveTransactionInfo'', ffe ''FF23057'' (''Failed to retrieve transaction info for transaction hash '%s'' @ [CHR 0x27]) []),
      (''MsgFailedToQueryReceipt'', ffe ''FF23058'' ''Failed to query receipt for transaction %s'' []),
      (''MsgFailedToQueryBlockInfo'', ffe ''FF23059'' ''Failed to query block info using hash %s'' []),
      (''MsgFailedToBuildConfirmationQueue'', ffe ''FF23060'' ''Failed to build confirmation'' []),
      (''MsgTransactionNotFound'', ffe ''FF23061'' ''Transaction not found: %s'' []),
      (''MsgInMemoryPartialChainNotCaughtUp'', ffe ''FF23062'' ''In-memory partial chain is waiting for the transaction block %d (%s) to be indexed'' []),
      (''MsgFailedToBuildExistingConfirmationInvalid'', ffe ''FF23063'' ''Failed to build confirmations, existing confirmations are not valid'' []),
      (''MsgFromBlockInvalid'', ffe ''FF23064'' ''From block invalid. Must be 'earliest', 'latest' or a decimal: %s'' [400]),
      (''MsgInvalidJSONFormatOptions'', ffe ''FF23065'' (''The JSON formatting options must be a valid set of key=value pairs in URL query string format '%s'' @ [CHR 0x27]) []),
      (''MsgUnknownJSONFormatOption'', ffe ''FF23066'' ''Unknown JSON formatting option '%s=%s'. Options must be URL query string key=value pairs (e.g. mode=object&number=hex-0x). Supported options and values: %s'' []),
      (''MsgObservedPanic'', ffe ''FF23067'' ''Observed panic: %v'' []),
      (''MsgReturnedBlockHashMismatch'', ffe ''FF23068'' ''Returned block %d hash %s does not match requested hash %s'' []),
      (''MsgInvalidChainTrackingMode'', ffe ''FF23069'' (''Invalid chain tracking mode '%s': must be 'light' or 'full'' @ [CHR 0x27]) []),
      (''MsgTransactionNotIncludedInChainHead'', ffe ''FF23070'' ''Transaction '%s' cannot be reconciled because chain head %d is before receipt block %s'' []),
      (''MsgTransactionEstimateTooLargeForBlock'', ffe ''FF23071'' ''Gas estimate %s (scaled at %.2f from estimate %s) too large for the current block gas limit %s'' []),
      (''MsgMonitoredHeadLengthInvalid'', ffe ''FF23072'' ''Monitored head length must be greater than or equal to 1 value=%d'' []),
      (''MsgUnknownJSONFormatOptionValue'', ffe ''FF23073'' ''Unknown value '%s' for JSON formatting option '%s'. Supported values: %s'' []),
      (''MsgMetricsInitFail'', ffe ''FF23074'' (''Failed to initialize metrics for subsystem '%s'' @ [CHR 0x27]) []),
      (''MsgInvalidRPCRoutingMode'', ffe ''FF23075'' (''Invalid JSON/RPC routing mode '%s': must be 'http', 'ws', 'auto' or 'legacy'' @ [CHR 0x27]) []),
      (''MsgWebSocketNotConfigured'', ffe ''FF23076'' ''A WebSocket connection is not configured'' []),
      (''MsgRPCClientClosed'', ffe ''FF23077'' ''The JSON/RPC client is closed'' []),
      (''MsgInvalidFilterPollingMode'', ffe ''FF23078'' (''Invalid filter polling mode '%s': must be 'server' or 'client'' @ [CHR 0x27]) []),
      (''MsgCatchupPageSizeInvalid'', ffe ''FF23079'' ''Catchup page size must be greater than or equal to 1 value=%d'' []),
      (''MsgLatestBlockNotFound'', ffe ''FF23080'' ''The node returned no latest block'' []),
      (''MsgLightModeCatchupPageSizeInvalid'', ffe ''FF23081'' ''In light chain tracking mode the catchup page size (%d) must be at least checkpointBlockGap+1 (%d), so a single page covers the unstable window at the head of the chain'' []),
      (''MsgReceiptNodeBehind'', ffe ''FF23082'' ''Receipt not available for transaction '%s' expected in block %d: the node that answered may be behind the observed chain head %d'' []),
      (''MsgReceiptBlockMismatchNodeBehind'', ffe ''FF23083'' ''Receipt for transaction '%s' is in block %d / %s, not the expected block %d / %s: the node that answered may be on a different fork, or behind the observed chain head %d'' [])]\<close>

definition errorNames :: "string list" where
  "errorNames = [''MsgRequestTypeNotImplemented'', ''MsgBlockNotAvailable'', ''MsgReceiptNotAvailable'', ''MsgUnmarshalABIMethodFail'', ''MsgUnmarshalParamFail'', ''MsgGasPriceError'', ''MsgInvalidOutputType'', ''MsgInvalidGasPrice'', ''MsgInvalidTXData'', ''MsgInvalidFromAddress'', ''MsgInvalidToAddress'', ''MsgReverted'', ''MsgReturnDataInvalid'', ''MsgNotInitialized'', ''MsgMissingBackendURL'', ''MsgBadVersion'', ''MsgUnsupportedVersion'', ''MsgUnsupportedRequestType'', ''MsgMissingRequestID'', ''MsgUnknownConnector'', ''MsgBadDataFormat'', ''MsgInvalidListenerOptions'', ''MsgInvalidFromBlock'', ''MsgMissingEventFilter'', ''MsgInvalidEventFilter'', ''MsgMissingEventInFilter'', ''MsgListenerAlreadyStarted'', ''MsgInvalidCheckpoint'', ''MsgCacheInitFail'', ''MsgStreamNotStarted'', ''MsgStreamAlreadyStarted'', ''MsgListenerNotStarted'', ''MsgListenerNotInitialized'', ''MsgStreamNotStopped'', ''MsgTimedOutQueryingChainHead'', ''MsgDecodeBytecodeFailed'', ''MsgInvalidTXHashReturned'', ''MsgUnmarshalErrorFail'', ''MsgUnmarshalABIErrorsFail'', ''MsgInvalidRegex'', ''MsgUnableToCallDebug'', ''MsgReturnValueNotDecoded'', ''MsgReturnValueNotAvailable'', ''MsgInvalidProtocolID'', ''MsgFailedToRetrieveChainID'', ''MsgFailedToRetrieveTransactionInfo'', ''MsgFailedToQueryReceipt'', ''MsgFailedToQueryBlockInfo'', ''MsgFailedToBuildConfirmationQueue'', ''MsgTransactionNotFound'', ''MsgInMemoryPartialChainNotCaughtUp'', ''MsgFailedToBuildExistingConfirmationInvalid'', ''MsgFromBlockInvalid'', ''MsgInvalidJSONFormatOptions'', ''MsgUnknownJSONFormatOption'', ''MsgObservedPanic'', ''MsgReturnedBlockHashMismatch'', ''MsgInvalidChainTrackingMode'', ''MsgTransactionNotIncludedInChainHead'', ''MsgTransactionEstimateTooLargeForBlock'', ''MsgMonitoredHeadLengthInvalid'', ''MsgUnknownJSONFormatOptionValue'', ''MsgMetricsInitFail'', ''MsgInvalidRPCRoutingMode'', ''MsgWebSocketNotConfigured'', ''MsgRPCClientClosed'', ''MsgInvalidFilterPollingMode'', ''MsgCatchupPageSizeInvalid'', ''MsgLatestBlockNotFound'', ''MsgLightModeCatchupPageSizeInvalid'', ''MsgReceiptNodeBehind'', ''MsgReceiptBlockMismatchNodeBehind'']"

text \<open>The variable that a failure is made from; a message of the common library, an error of a
  backend or a library, and a panic have none.\<close>

definition messageOf :: "failure \<Rightarrow> string option" where
  "messageOf e =
     (case e of
        MsgBlockNotAvailable \<Rightarrow> Some ''MsgBlockNotAvailable''
      | MsgReceiptNotAvailable x \<Rightarrow> Some ''MsgReceiptNotAvailable''
      | MsgUnmarshalABIMethodFail \<Rightarrow> Some ''MsgUnmarshalABIMethodFail''
      | MsgUnmarshalParamFail x \<Rightarrow> Some ''MsgUnmarshalParamFail''
      | MsgGasPriceError \<Rightarrow> Some ''MsgGasPriceError''
      | MsgInvalidOutputType x \<Rightarrow> Some ''MsgInvalidOutputType''
      | MsgInvalidTXData x \<Rightarrow> Some ''MsgInvalidTXData''
      | MsgInvalidFromAddress x \<Rightarrow> Some ''MsgInvalidFromAddress''
      | MsgInvalidToAddress x \<Rightarrow> Some ''MsgInvalidToAddress''
      | MsgReverted x \<Rightarrow> Some ''MsgReverted''
      | MsgReturnDataInvalid \<Rightarrow> Some ''MsgReturnDataInvalid''
      | MsgMissingBackendURL \<Rightarrow> Some ''MsgMissingBackendURL''
      | MsgBadDataFormat x \<Rightarrow> Some ''MsgBadDataFormat''
      | MsgInvalidListenerOptions \<Rightarrow> Some ''MsgInvalidListenerOptions''
      | MsgInvalidFromBlock x \<Rightarrow> Some ''MsgInvalidFromBlock''
      | MsgMissingEventFilter \<Rightarrow> Some ''MsgMissingEventFilter''
      | MsgInvalidEventFilter \<Rightarrow> Some ''MsgInvalidEventFilter''
      | MsgListenerAlreadyStarted x \<Rightarrow> Some ''MsgListenerAlreadyStarted''
      | MsgCacheInitFail x \<Rightarrow> Some ''MsgCacheInitFail''
      | MsgStreamNotStarted x \<Rightarrow> Some ''MsgStreamNotStarted''
      | MsgStreamAlreadyStarted x \<Rightarrow> Some ''MsgStreamAlreadyStarted''
      | MsgListenerNotStarted x \<Rightarrow> Some ''MsgListenerNotStarted''
      | MsgStreamNotStopped x \<Rightarrow> Some ''MsgStreamNotStopped''
      | MsgTimedOutQueryingChainHead \<Rightarrow> Some ''MsgTimedOutQueryingChainHead''
      | MsgDecodeBytecodeFailed \<Rightarrow> Some ''MsgDecodeBytecodeFailed''
      | MsgInvalidTXHashReturned x \<Rightarrow> Some ''MsgInvalidTXHashReturned''
      | MsgUnmarshalABIErrorsFail \<Rightarrow> Some ''MsgUnmarshalABIErrorsFail''
      | MsgInvalidRegex \<Rightarrow> Some ''MsgInvalidRegex''
      | MsgUnableToCallDebug x \<Rightarrow> Some ''MsgUnableToCallDebug''
      | MsgReturnValueNotDecoded x \<Rightarrow> Some ''MsgReturnValueNotDecoded''
      | MsgReturnValueNotAvailable \<Rightarrow> Some ''MsgReturnValueNotAvailable''
      | MsgFailedToRetrieveChainID \<Rightarrow> Some ''MsgFailedToRetrieveChainID''
      | MsgFailedToRetrieveTransactionInfo \<Rightarrow> Some ''MsgFailedToRetrieveTransactionInfo''
      | MsgFailedToQueryReceipt x y \<Rightarrow> Some ''MsgFailedToQueryReceipt''
      | MsgFailedToQueryBlockInfo x y \<Rightarrow> Some ''MsgFailedToQueryBlockInfo''
      | MsgFailedToBuildConfirmationQueue \<Rightarrow> Some ''MsgFailedToBuildConfirmationQueue''
      | MsgTransactionNotFound x \<Rightarrow> Some ''MsgTransactionNotFound''
      | MsgInMemoryPartialChainNotCaughtUp x y \<Rightarrow> Some ''MsgInMemoryPartialChainNotCaughtUp''
      | MsgInvalidJSONFormatOptions x \<Rightarrow> Some ''MsgInvalidJSONFormatOptions''
      | MsgUnknownJSONFormatOption x y \<Rightarrow> Some ''MsgUnknownJSONFormatOption''
      | MsgObservedPanic x \<Rightarrow> Some ''MsgObservedPanic''
      | MsgReturnedBlockHashMismatch x y z \<Rightarrow> Some ''MsgReturnedBlockHashMismatch''
      | MsgInvalidChainTrackingMode x \<Rightarrow> Some ''MsgInvalidChainTrackingMode''
      | MsgTransactionNotIncludedInChainHead x y z \<Rightarrow> Some ''MsgTransactionNotIncludedInChainHead''
      | MsgTransactionEstimateTooLargeForBlock x y z \<Rightarrow> Some ''MsgTransactionEstimateTooLargeForBlock''
      | MsgMonitoredHeadLengthInvalid x \<Rightarrow> Some ''MsgMonitoredHeadLengthInvalid''
      | MsgUnknownJSONFormatOptionValue x y \<Rightarrow> Some ''MsgUnknownJSONFormatOptionValue''
      | MsgMetricsInitFail \<Rightarrow> Some ''MsgMetricsInitFail''
      | MsgInvalidRPCRoutingMode x \<Rightarrow> Some ''MsgInvalidRPCRoutingMode''
      | MsgWebSocketNotConfigured \<Rightarrow> Some ''MsgWebSocketNotConfigured''
      | MsgRPCClientClosed \<Rightarrow> Some ''MsgRPCClientClosed''
      | MsgInvalidFilterPollingMode x \<Rightarrow> Some ''MsgInvalidFilterPollingMode''
      | MsgCatchupPageSizeInvalid x \<Rightarrow> Some ''MsgCatchupPageSizeInvalid''
      | MsgLatestBlockNotFound \<Rightarrow> Some ''MsgLatestBlockNotFound''
      | MsgLightModeCatchupPageSizeInvalid x y \<Rightarrow> Some ''MsgLightModeCatchupPageSizeInvalid''
      | MsgReceiptNodeBehind x y z \<Rightarrow> Some ''MsgReceiptNodeBehind''
      | MsgReceiptBlockMismatchNodeBehind x y z u v w \<Rightarrow> Some ''MsgReceiptBlockMismatchNodeBehind''
      | _ \<Rightarrow> None)"

section \<open>The error messages that are raised\<close>

lemma errorMessages_names: "map fst errorMessages = errorNames"
  by (simp add: errorMessages_def errorNames_def)

lemma errorNames_distinct: "distinct errorNames"
  by (simp add: errorNames_def)

lemma errorMessages_keys: "distinct (map (\<lambda>m. em_key (snd m)) errorMessages)"
  by (simp add: errorMessages_def ffe_def)

text \<open>The only message with a hint for the HTTP status.\<close>

lemma errorMessages_hint:
  "map fst (filter (\<lambda>m. em_statusHint (snd m) \<noteq> []) errorMessages) = [''MsgFromBlockInvalid'']"
  by (simp add: errorMessages_def ffe_def)

text \<open>The messages that the model raises, which are all that the code uses.\<close>

definition raisedNames :: "string list" where
  "raisedNames = [''MsgBlockNotAvailable'', ''MsgReceiptNotAvailable'', ''MsgUnmarshalABIMethodFail'', ''MsgUnmarshalParamFail'', ''MsgGasPriceError'', ''MsgInvalidOutputType'', ''MsgInvalidTXData'', ''MsgInvalidFromAddress'', ''MsgInvalidToAddress'', ''MsgReverted'', ''MsgReturnDataInvalid'', ''MsgMissingBackendURL'', ''MsgBadDataFormat'', ''MsgInvalidListenerOptions'', ''MsgInvalidFromBlock'', ''MsgMissingEventFilter'', ''MsgInvalidEventFilter'', ''MsgListenerAlreadyStarted'', ''MsgCacheInitFail'', ''MsgStreamNotStarted'', ''MsgStreamAlreadyStarted'', ''MsgListenerNotStarted'', ''MsgStreamNotStopped'', ''MsgTimedOutQueryingChainHead'', ''MsgDecodeBytecodeFailed'', ''MsgInvalidTXHashReturned'', ''MsgUnmarshalABIErrorsFail'', ''MsgInvalidRegex'', ''MsgUnableToCallDebug'', ''MsgReturnValueNotDecoded'', ''MsgReturnValueNotAvailable'', ''MsgFailedToRetrieveChainID'', ''MsgFailedToRetrieveTransactionInfo'', ''MsgFailedToQueryReceipt'', ''MsgFailedToQueryBlockInfo'', ''MsgFailedToBuildConfirmationQueue'', ''MsgTransactionNotFound'', ''MsgInMemoryPartialChainNotCaughtUp'', ''MsgInvalidJSONFormatOptions'', ''MsgUnknownJSONFormatOption'', ''MsgObservedPanic'', ''MsgReturnedBlockHashMismatch'', ''MsgInvalidChainTrackingMode'', ''MsgTransactionNotIncludedInChainHead'', ''MsgTransactionEstimateTooLargeForBlock'', ''MsgMonitoredHeadLengthInvalid'', ''MsgUnknownJSONFormatOptionValue'', ''MsgMetricsInitFail'', ''MsgInvalidRPCRoutingMode'', ''MsgWebSocketNotConfigured'', ''MsgRPCClientClosed'', ''MsgInvalidFilterPollingMode'', ''MsgCatchupPageSizeInvalid'', ''MsgLatestBlockNotFound'', ''MsgLightModeCatchupPageSizeInvalid'', ''MsgReceiptNodeBehind'', ''MsgReceiptBlockMismatchNodeBehind'']"

lemma messageOf_raised: "messageOf e = Some n \<Longrightarrow> n \<in> set raisedNames"
  by (cases e) (auto simp: messageOf_def raisedNames_def)

lemma raisedNames_declared: "\<forall>n \<in> set raisedNames. n \<in> set errorNames"
  by (simp add: raisedNames_def errorNames_def)

lemma raised_without_hint: "''MsgFromBlockInvalid'' \<notin> set raisedNames"
  by (simp add: raisedNames_def)

text \<open>The message of a failure is declared once, with a code that no other message has and without a
  hint for the HTTP status: how a request answers is up to the reason beside the error.\<close>

theorem raised_messages_are_declared:
  assumes "messageOf e = Some n"
  shows "\<exists>!m. (n, m) \<in> set errorMessages \<and> em_statusHint m = [] \<and>
    (\<forall>(n', m') \<in> set errorMessages. em_key m' = em_key m \<longrightarrow> n' = n)"
proof -
  have n: "n \<in> set raisedNames" by (rule messageOf_raised [OF assms])
  with raisedNames_declared have "n \<in> set (map fst errorMessages)" by (simp add: errorMessages_names)
  then obtain m where m: "(n, m) \<in> set errorMessages" by auto
  have hint: "em_statusHint m = []"
  proof (rule ccontr)
    assume "em_statusHint m \<noteq> []"
    with m have "n \<in> set (map fst (filter (\<lambda>m. em_statusHint (snd m) \<noteq> []) errorMessages))" by force
    with n show False unfolding errorMessages_hint by (simp add: raised_without_hint)
  qed
  have inj: "m1 = m2 \<and> n1 = n2" if "(n1, m1) \<in> set errorMessages" "(n2, m2) \<in> set errorMessages"
      "em_key m1 = em_key m2" for n1 n2 m1 m2
  proof -
    from errorMessages_keys have "inj_on (\<lambda>m. em_key (snd m)) (set errorMessages)" by (simp add: distinct_map)
    from inj_onD [OF this, of "(n1, m1)" "(n2, m2)"] that show ?thesis by simp
  qed
  have "m' = m" if "(n, m') \<in> set errorMessages" for m'
    using that m errorNames_distinct eq_key_imp_eq_value [of errorMessages n m' m] by (simp add: errorMessages_names)
  with m hint inj show ?thesis by blast
qed

end
