(* ===== verification/Descriptions.thy ===== *)
theory Descriptions
  imports ConnectorStart JSONFormat
begin

text \<open>
  The help texts of \<open>internal/msgs\<close>: the descriptions of the configuration keys with their types
  (\<open>en_config_descriptions.go\<close>) and of the fields of the JSON/RPC structures
  (\<open>en_field_descriptions.go\<close>). The facts tie them to the keys, defaults and parsers of the
  configuration, and to the members that the \<open>FormatMap\<close> methods write.
\<close>

section \<open>Descriptions\<close>

datatype fieldType = BooleanType | FloatType | IntType | TimeDurationType | Literal string

record configMessage =
  cm_key :: string
  cm_translation :: string
  cm_fieldType :: fieldType

definition ffc :: "string \<Rightarrow> string \<Rightarrow> fieldType \<Rightarrow> configMessage" where
  "ffc key translation fieldType =
     \<lparr>cm_key = key, cm_translation = translation, cm_fieldType = fieldType\<rparr>"

definition configDescriptions :: "configMessage list" where
  \<open>configDescriptions =
     [ffc ''config.connector.url'' ''URL of JSON/RPC endpoint for the Ethereum node/gateway'' (Literal ''string''),
      ffc ''config.connector.ws.enabled'' ''When true a WebSocket is established for block listening, in addition to the HTTP RPC connections used for other functions'' BooleanType,
      ffc ''config.connector.rpcRoutingMode'' ''Which connection JSON/RPC calls are made on when a WebSocket is enabled. 'auto' routes node-sticky chain queries (blocks, logs, filters, receipts) to the WebSocket and stateless calls (submission, gas, balance) to the HTTP connection pool. 'ws' routes everything to the WebSocket. 'http' routes everything to the HTTP connection pool, leaving the WebSocket to carry only the newHeads subscription. 'legacy' reproduces the routing used before this setting existed, where only the block listener used the WebSocket'' (Literal ''http,ws,auto,legacy''),
      ffc ''config.connector.dataFormat'' ''Configure the JSON data format for query output and events'' (Literal ''map,flat_array,self_describing''),
      ffc ''config.connector.gasEstimationFactor'' ''The factor to apply to the gas estimation to determine the gas limit'' FloatType,
      ffc ''config.connector.blockCacheSize'' ''Maximum of blocks to hold in the block info cache'' IntType,
      ffc ''config.connector.receiptCache.enabled'' ''When true, transaction receipts fetched during canonical chain build are cached in memory for reuse'' BooleanType,
      ffc ''config.connector.receiptCache.size'' ''Maximum of transaction receipts to hold in the receipt cache'' IntType,
      ffc ''config.connector.blockPollingInterval'' ''Interval for polling to check for new blocks'' TimeDurationType,
      ffc ''config.connector.queryLoopRetry.initialDelay'' ''Initial delay for retrying query requests to the RPC endpoint, applicable to all the query loops'' TimeDurationType,
      ffc ''config.connector.queryLoopRetry.factor'' ''Factor to increase the delay by, between each query request retry to the RPC endpoint, applicable to all the query loops'' FloatType,
      ffc ''config.connector.queryLoopRetry.maxDelay'' ''Maximum delay for between each query request retry to the RPC endpoint, applicable to all the query loops'' TimeDurationType,
      ffc ''config.connector.retry.initialDelay'' ''(Deprecated) Please refer to `connector.queryLoopRetry.initialDelay` to understand its original purpose and use that instead'' TimeDurationType,
      ffc ''config.connector.retry.factor'' ''(Deprecated) Please refer to `connector.queryLoopRetry.factor` to understand its original purpose and use that instead'' FloatType,
      ffc ''config.connector.retry.maxDelay'' ''(Deprecated) Please refer to `connector.queryLoopRetry.maxDelay` to understand its original purpose and use that instead'' TimeDurationType,
      ffc ''config.connector.events.blockTimestamps'' ''Whether to include the block timestamps in the event information'' BooleanType,
      ffc ''config.connector.events.catchupPageSize'' ''Number of blocks to query per poll when catching up to the head of the blockchain'' IntType,
      ffc ''config.connector.events.catchupThreshold'' ''How many blocks behind the stable threshold (the chain head minus checkpointBlockGap) an event stream or listener must be to enter catchup mode'' IntType,
      ffc ''config.connector.events.catchupDownscaleRegex'' ''An error pattern to check for from JSON/RPC providers if they limit response sizes to eth_getLogs(). If an error is returned from eth_getLogs() and that error matches the configured pattern, the number of logs requested (catchupPageSize) will be reduced automatically.'' (Literal ''string''),
      ffc ''config.connector.events.checkpointBlockGap'' ''The number of blocks at the head of the chain that should be considered unstable (could be dropped from the canonical chain after a re-org). Unless events with a full set of confirmations are detected, the restart checkpoint will be at least this many blocks behind the chain head. Note the target confirmation count can be smaller than this (must never be larger), and the target confirmation count is the only guaranteed re-delivery window at the head of a chain that can have re-orgs (non-immediate finality)'' IntType,
      ffc ''config.connector.events.filterPollingInterval'' ''The interval between polling calls to a filter, when checking for newly arrived events'' TimeDurationType,
      ffc ''config.connector.events.filterPollingMode'' ''How new blocks, and events in the steady state event loop once caught up with the head of the chain, are polled for. 'server' establishes node-side filters (eth_newBlockFilter for new blocks, eth_newFilter for events) and polls them with eth_getFilterChanges. 'client' polls the latest block with eth_getBlockByNumber and uses stateless eth_getLogs range queries, with the connector tracking its own poll positions, avoiding node-side filter state entirely. With chainTrackingMode 'light' new blocks are only ever detected by polling eth_blockNumber, in either mode. In 'client' mode with chainTrackingMode 'light', the checkpointBlockGap window of blocks behind the head is re-scanned on each polling interval to detect events moved by a re-org, with block-hash de-duplication of events already delivered.'' (Literal ''server,client''),
      ffc ''config.connector.txCacheSize'' ''Maximum of transactions to hold in the transaction info cache'' IntType,
      ffc ''config.connector.maxConcurrentRequests'' ''Maximum of concurrent requests to be submitted to the blockchain'' IntType,
      ffc ''config.connector.hederaCompatibilityMode'' ''Compatibility mode for Hedera, allowing non-standard block header hashes to be processed'' BooleanType,
      ffc ''config.connector.traceTXForRevertReason'' ''Enable the use of transaction trace functions (e.g. debug_traceTransaction) to obtain transaction revert reasons. This can place a high load on the EVM client.'' BooleanType,
      ffc ''config.connector.maxAsyncBlockFetchConcurrency'' ''Maximum concurrency when using asynchronous block downloading (minium 1)'' IntType,
      ffc ''config.connector.useGetBlockReceipts'' ''When true, the eth_getBlockReceipts call is available for this connector to use'' BooleanType,
      ffc ''config.connector.chainTrackingMode'' ''Tracking mode for connector block progression. light: fetches head block numbers only, does not download block details, disables block listener support, and confirmation results include only the confirmation count. full: fetches head block numbers and block details, maintains an in-memory partial chain, enables block listener support, and confirmation results include both confirmation count and block details.'' (Literal ''`light` or `full`'')]\<close>

definition ffm :: "string \<Rightarrow> string \<Rightarrow> string \<times> string" where
  "ffm key translation = (key, translation)"

definition fieldDescriptions :: "(string \<times> string) list" where
  \<open>fieldDescriptions =
     [ffm ''TxReceiptJSONRPC.transactionHash'' ''DATA, 32 Bytes - hash of the transaction.'',
      ffm ''TxReceiptJSONRPC.transactionIndex'' ''QUANTITY - integer of the transactions index position in the block.'',
      ffm ''TxReceiptJSONRPC.blockHash'' ''DATA, 32 Bytes - hash of the block where this transaction was in.'',
      ffm ''TxReceiptJSONRPC.blockNumber'' ''QUANTITY - block number where this transaction was in.'',
      ffm ''TxReceiptJSONRPC.from'' ''DATA, 20 Bytes - address of the sender.'',
      ffm ''TxReceiptJSONRPC.to'' ''DATA, 20 Bytes - address of the receiver. null when its a contract creation transaction.'',
      ffm ''TxReceiptJSONRPC.cumulativeGasUsed'' ''QUANTITY - The total amount of gas used when this transaction was executed in the block.'',
      ffm ''TxReceiptJSONRPC.effectiveGasPrice'' ''QUANTITY - The sum of the base fee and tip paid per unit of gas.'',
      ffm ''TxReceiptJSONRPC.gasUsed'' ''QUANTITY - The amount of gas used by this specific transaction alone.'',
      ffm ''TxReceiptJSONRPC.contractAddress'' ''DATA, 20 Bytes - The contract address created, if the transaction was a contract creation, otherwise null.'',
      ffm ''TxReceiptJSONRPC.logs'' ''Array - Array of log objects, which this transaction generated.'',
      ffm ''TxReceiptJSONRPC.logsBloom'' ''DATA, 256 Bytes - Bloom filter for light clients to quickly retrieve related logs.'',
      ffm ''TxReceiptJSONRPC.type'' ''QUANTITY - integer of the transaction type, 0x0 for legacy transactions, 0x1 for access list types, 0x2 for dynamic fees.'',
      ffm ''TxReceiptJSONRPC.status'' ''QUANTITY either 1 (success) or 0 (failure)'',
      ffm ''TxReceiptJSONRPC.revertReason'' ''Non-standard extension: The encoded revert data for the transaction'',
      ffm ''TxInfoJSONRPC.chainId'' ''QUANTITY - the chain id.'',
      ffm ''TxInfoJSONRPC.blockHash'' ''DATA, 32 Bytes - hash of the block where this transaction was in. null when its pending.'',
      ffm ''TxInfoJSONRPC.blockNumber'' ''QUANTITY - block number where this transaction was in. null when its pending.'',
      ffm ''TxInfoJSONRPC.from'' ''DATA, 20 Bytes - address of the sender.'',
      ffm ''TxInfoJSONRPC.gas'' ''QUANTITY - gas provided by the sender.'',
      ffm ''TxInfoJSONRPC.gasPrice'' ''QUANTITY - gas price provided by the sender in Wei.'',
      ffm ''TxInfoJSONRPC.hash'' ''DATA, 32 Bytes - hash of the transaction.'',
      ffm ''TxInfoJSONRPC.input'' ''DATA - the data send along with the transaction.'',
      ffm ''TxInfoJSONRPC.nonce'' ''QUANTITY - the number of transactions made by the sender prior to this one.'',
      ffm ''TxInfoJSONRPC.to'' ''DATA, 20 Bytes - address of the receiver. null when its a contract creation transaction.'',
      ffm ''TxInfoJSONRPC.transactionIndex'' ''QUANTITY - integer of the transactions index position in the block. null when its pending.'',
      ffm ''TxInfoJSONRPC.value'' ''QUANTITY - value transferred in Wei.'',
      ffm ''TxInfoJSONRPC.v'' ''QUANTITY - ECDSA recovery id'',
      ffm ''TxInfoJSONRPC.r'' ''QUANTITY - ECDSA signature r'',
      ffm ''TxInfoJSONRPC.s'' ''QUANTITY - ECDSA signature s'',
      ffm ''TxInfoJSONRPC.type'' ''QUANTITY - integer of the transaction type, 0x0 for legacy transactions, 0x1 for access list types, 0x2 for dynamic fees.'',
      ffm ''TxInfoJSONRPC.maxPriorityFeePerGas'' ''QUANTITY - the maximum price of the consumed gas to be included as a tip to the validator.'',
      ffm ''TxInfoJSONRPC.maxFeePerGas'' ''QUANTITY - the maximum fee per unit of gas willing to be paid for the transaction (inclusive of baseFeePerGas and maxPriorityFeePerGas).'',
      ffm ''LogFilterJSONRPC.fromBlock'' ''QUANTITY|TAG - (optional, default: "latest") Integer block number, or "latest" for the last proposed block, "safe" for the latest safe block, "finalized" for the latest finalized block, or "pending", "earliest" for transactions not yet in a block.'',
      ffm ''LogFilterJSONRPC.toBlock'' ''QUANTITY|TAG - (optional, default: "latest") Integer block number, or "latest" for the last proposed block, "safe" for the latest safe block, "finalized" for the latest finalized block, or "pending", "earliest" for transactions not yet in a block.'',
      ffm ''LogFilterJSONRPC.address'' ''DATA|Array, 20 Bytes - (optional) Contract address or a list of addresses from which logs should originate.'',
      ffm ''LogFilterJSONRPC.topics'' ''Array of DATA, - (optional) Array of 32 Bytes DATA topics. Topics are order-dependent. Each topic can also be an array of DATA with "or" options.'',
      ffm ''LogJSONRPC.removed'' ''TAG - true when the log was removed, due to a chain reorganization. false if its a valid log.'',
      ffm ''LogJSONRPC.logIndex'' ''QUANTITY - integer of the log index position in the block. null when its pending log.'',
      ffm ''LogJSONRPC.transactionIndex'' ''QUANTITY - integer of the transactions index position log was created from. null when its pending log.'',
      ffm ''LogJSONRPC.transactionHash'' ''DATA, 32 Bytes - hash of the transactions this log was created from. null when its pending log.'',
      ffm ''LogJSONRPC.blockHash'' ''DATA, 32 Bytes - hash of the block where this log was in. null when its pending. null when its pending log.'',
      ffm ''LogJSONRPC.blockTimestamp'' ''QUANTITY - the unix timestamp of the block where this log was in. Only returned by nodes that support it.'',
      ffm ''LogJSONRPC.blockNumber'' ''QUANTITY - the block number where this log was in. null when its pending. null when its pending log.'',
      ffm ''LogJSONRPC.address'' ''DATA, 20 Bytes - address from which this log originated.'',
      ffm ''LogJSONRPC.data'' ''DATA - variable-length non-indexed log data. (In solidity: zero or more 32 Bytes non-indexed log arguments.)'',
      ffm ''LogJSONRPC.topics'' ''Array of DATA - Array of 0 to 4 32 Bytes DATA of indexed log arguments. (In solidity: The first topic is the hash of the signature of the event (e.g., Deposit(address,bytes32,uint256)), except you declared the event with the anonymous specifier.)'',
      ffm ''BlockInfoJSONRPC.number'' ''QUANTITY - the block number. null when its pending block.'',
      ffm ''BlockInfoJSONRPC.hash'' ''DATA, 32 Bytes - hash of the block. null when its pending block.'',
      ffm ''BlockInfoJSONRPC.parentHash'' ''DATA, 32 Bytes - hash of the parent block.'',
      ffm ''BlockInfoJSONRPC.nonce'' ''DATA, 8 Bytes - hash of the generated proof-of-work. null when its pending block, 0x0 for proof-of-stake blocks (since The Merge)'',
      ffm ''BlockInfoJSONRPC.sha3Uncles'' ''DATA, 32 Bytes - SHA3 of the uncles data in the block.'',
      ffm ''BlockInfoJSONRPC.logsBloom'' ''DATA, 256 Bytes - the bloom filter for the logs of the block. null when its pending block.'',
      ffm ''BlockInfoJSONRPC.transactionsRoot'' ''DATA, 32 Bytes - the root of the transaction trie of the block.'',
      ffm ''BlockInfoJSONRPC.stateRoot'' ''DATA, 32 Bytes - the root of the final state trie of the block.'',
      ffm ''BlockInfoJSONRPC.receiptsRoot'' ''DATA, 32 Bytes - the root of the receipts trie of the block.'',
      ffm ''BlockInfoJSONRPC.miner'' ''DATA, 20 Bytes - the address of the beneficiary to whom the block rewards were given.'',
      ffm ''BlockInfoJSONRPC.mixHash'' ''DATA, a 256-bit hash encoded as a hexadecimal string.'',
      ffm ''BlockInfoJSONRPC.difficulty'' ''QUANTITY - integer of the difficulty for this block.'',
      ffm ''BlockInfoJSONRPC.totalDifficulty'' ''QUANTITY - integer of the total difficulty of the chain until this block.'',
      ffm ''BlockInfoJSONRPC.extraData'' ''DATA - the "extra data" field of this block.'',
      ffm ''BlockInfoJSONRPC.size'' ''QUANTITY - integer the size of this block in bytes.'',
      ffm ''BlockInfoJSONRPC.gasLimit'' ''QUANTITY - the maximum gas allowed in this block.'',
      ffm ''BlockInfoJSONRPC.gasUsed'' ''QUANTITY - the total used gas by all transactions in this block.'',
      ffm ''BlockInfoJSONRPC.timestamp'' ''QUANTITY - the unix timestamp for when the block was collated.'',
      ffm ''BlockInfoJSONRPC.transactions'' ''Array - Array of transaction objects, or 32 Bytes transaction hashes depending on the last given parameter.'',
      ffm ''BlockInfoJSONRPC.uncles'' ''Array - Array of uncle hashes.'',
      ffm ''BlockInfoJSONRPC.baseFeePerGas'' ''QUANTITY - the market price for gas'',
      ffm ''MinimalBlockInfo.blockNumber'' ''QUANTITY - the block number.'',
      ffm ''MinimalBlockInfo.blockHash'' ''DATA, 32 Bytes - hash of the block.'',
      ffm ''MinimalBlockInfo.parentHash'' ''DATA, 32 Bytes - hash of the parent block.'',
      ffm ''ConfirmationUpdateResult.confirmations'' ''The accumulated confirmation list for the transaction, sorted by block number, starting with the block containing the transaction.'',
      ffm ''ConfirmationUpdateResult.rebuilt'' '' true when the supplied existing confirmations contained invalid blocks, and the confirmation list was rebuilt from scratch.'',
      ffm ''ConfirmationUpdateResult.newFork'' ''true when a new fork was detected, relative to the supplied existing confirmations.'',
      ffm ''ConfirmationUpdateResult.confirmed'' ''true when the confirmation list is complete, and the transaction is confirmed.'',
      ffm ''ConfirmationUpdateResult.targetConfirmationCount'' ''The target number of confirmations for this reconcile request.'',
      ffm ''ConfirmationUpdateResult.currentConfirmationCount'' ''The current number of confirmations for this reconcile request.'',
      ffm ''ConfirmationUpdateResult.txnBlockTimestamp'' ''The on-chain timestamp of the block the transaction was included in. Only populated in "full" chain tracking mode.'']\<close>

section \<open>The configuration and its help\<close>

definition describedKeys :: "(string \<times> fieldType) list" where
  "describedKeys = map (\<lambda>m. (drop 17 (cm_key m), cm_fieldType m)) configDescriptions"

lemma configDescriptions_prefix:
  "\<forall>m \<in> set configDescriptions. take 17 (cm_key m) = ''config.connector.''"
  by (simp add: configDescriptions_def ffc_def)

lemma describedKeys_eq:
  "describedKeys =
     [(''url'', Literal ''string''),
      (''ws.enabled'', BooleanType),
      (''rpcRoutingMode'', Literal ''http,ws,auto,legacy''),
      (''dataFormat'', Literal ''map,flat_array,self_describing''),
      (''gasEstimationFactor'', FloatType),
      (''blockCacheSize'', IntType),
      (''receiptCache.enabled'', BooleanType),
      (''receiptCache.size'', IntType),
      (''blockPollingInterval'', TimeDurationType),
      (''queryLoopRetry.initialDelay'', TimeDurationType),
      (''queryLoopRetry.factor'', FloatType),
      (''queryLoopRetry.maxDelay'', TimeDurationType),
      (''retry.initialDelay'', TimeDurationType),
      (''retry.factor'', FloatType),
      (''retry.maxDelay'', TimeDurationType),
      (''events.blockTimestamps'', BooleanType),
      (''events.catchupPageSize'', IntType),
      (''events.catchupThreshold'', IntType),
      (''events.catchupDownscaleRegex'', Literal ''string''),
      (''events.checkpointBlockGap'', IntType),
      (''events.filterPollingInterval'', TimeDurationType),
      (''events.filterPollingMode'', Literal ''server,client''),
      (''txCacheSize'', IntType),
      (''maxConcurrentRequests'', IntType),
      (''hederaCompatibilityMode'', BooleanType),
      (''traceTXForRevertReason'', BooleanType),
      (''maxAsyncBlockFetchConcurrency'', IntType),
      (''useGetBlockReceipts'', BooleanType),
      (''chainTrackingMode'', Literal ''`light` or `full`'')]"
  by (simp add: describedKeys_def configDescriptions_def ffc_def)

text \<open>Of the keys of the connector, every one has its description, and nothing else is described but
  the URL, which the HTTP client adds; the description of \<open>retry.enabled\<close>, whose default only is set
  here, comes with that client as well.\<close>

theorem configuration_is_described:
  "distinct (map fst describedKeys) \<and>
   set (map fst InitConfig) - {''retry.enabled''} = set (map fst describedKeys) - {''url''}"
proof
  show "distinct (map fst describedKeys)" by (simp add: describedKeys_eq)
  have "set (map fst InitConfig) \<subseteq> insert ''retry.enabled'' (set (map fst describedKeys) - {''url''})"
    by (simp add: describedKeys_eq InitConfig_def)
  moreover have "set (map fst describedKeys) \<subseteq> insert ''url'' (set (map fst InitConfig) - {''retry.enabled''})"
    by (simp add: describedKeys_eq InitConfig_def)
  ultimately show "set (map fst InitConfig) - {''retry.enabled''} = set (map fst describedKeys) - {''url''}"
    by blast
qed

text \<open>A default is of the type that the help gives its key, and one of the values where these are
  listed.\<close>

definition literalValues :: "string \<Rightarrow> string list" where
  "literalValues t = (if t = ''`light` or `full`'' then [''light'', ''full''] else splitOn (CHR '','') t)"

fun fitsType :: "fieldType \<Rightarrow> confDefault \<Rightarrow> bool" where
  "fitsType t NoDefault = True"
| "fitsType BooleanType (DefaultBool b) = True"
| "fitsType FloatType (DefaultFloat m e) = True"
| "fitsType IntType (DefaultInt i) = True"
| "fitsType TimeDurationType (DefaultString s) = True"
| "fitsType (Literal t) (DefaultString s) = (t = ''string'' \<or> s \<in> set (literalValues t))"
| "fitsType t d = False"

theorem defaults_fit_described_types:
  "\<forall>(k, d) \<in> set InitConfig.
     k = ''retry.enabled'' \<or> (\<exists>t. map_of describedKeys k = Some t \<and> fitsType t d)"
  by (simp add: describedKeys_eq InitConfig_def literalValues_def)

text \<open>The values that the help lists are those that the code accepts, beside the empty string.\<close>

lemma listed_routing_modes:
  "\<exists>r. map_of describedKeys ''rpcRoutingMode'' = Some (Literal r) \<and>
     (parseRoutingMode s \<noteq> None \<longleftrightarrow> s = '''' \<or> s \<in> set (literalValues r))"
  by (simp add: describedKeys_eq literalValues_def parseRoutingMode_def)

lemma listed_polling_modes:
  "\<exists>r. map_of describedKeys ''events.filterPollingMode'' = Some (Literal r) \<and>
     (eventFilterPollingMode s \<noteq> None \<longleftrightarrow> s = '''' \<or> s \<in> set (literalValues r))"
  by (simp add: describedKeys_eq literalValues_def eventFilterPollingMode_def)

lemma listed_tracking_modes:
  "\<exists>r. map_of describedKeys ''chainTrackingMode'' = Some (Literal r) \<and>
     (chainTrackingMode s \<noteq> None \<longleftrightarrow> s = '''' \<or> s \<in> set (literalValues r))"
  by (auto simp: describedKeys_eq literalValues_def chainTrackingMode_def)

lemma listed_data_formats:
  "\<exists>r. map_of describedKeys ''dataFormat'' = Some (Literal r) \<and>
     (formattingMode s \<noteq> None \<longleftrightarrow> s \<in> set (literalValues r))"
  by (simp add: describedKeys_eq literalValues_def formattingMode_def)

section \<open>The members of the structures and their help\<close>

definition fieldKeys :: "string list" where
  "fieldKeys =
     [''TxReceiptJSONRPC.transactionHash'', ''TxReceiptJSONRPC.transactionIndex'',
      ''TxReceiptJSONRPC.blockHash'', ''TxReceiptJSONRPC.blockNumber'',
      ''TxReceiptJSONRPC.from'', ''TxReceiptJSONRPC.to'', ''TxReceiptJSONRPC.cumulativeGasUsed'',
      ''TxReceiptJSONRPC.effectiveGasPrice'', ''TxReceiptJSONRPC.gasUsed'',
      ''TxReceiptJSONRPC.contractAddress'', ''TxReceiptJSONRPC.logs'',
      ''TxReceiptJSONRPC.logsBloom'', ''TxReceiptJSONRPC.type'', ''TxReceiptJSONRPC.status'',
      ''TxReceiptJSONRPC.revertReason'', ''TxInfoJSONRPC.chainId'', ''TxInfoJSONRPC.blockHash'',
      ''TxInfoJSONRPC.blockNumber'', ''TxInfoJSONRPC.from'', ''TxInfoJSONRPC.gas'',
      ''TxInfoJSONRPC.gasPrice'', ''TxInfoJSONRPC.hash'', ''TxInfoJSONRPC.input'',
      ''TxInfoJSONRPC.nonce'', ''TxInfoJSONRPC.to'', ''TxInfoJSONRPC.transactionIndex'',
      ''TxInfoJSONRPC.value'', ''TxInfoJSONRPC.v'', ''TxInfoJSONRPC.r'', ''TxInfoJSONRPC.s'',
      ''TxInfoJSONRPC.type'', ''TxInfoJSONRPC.maxPriorityFeePerGas'',
      ''TxInfoJSONRPC.maxFeePerGas'', ''LogFilterJSONRPC.fromBlock'',
      ''LogFilterJSONRPC.toBlock'', ''LogFilterJSONRPC.address'', ''LogFilterJSONRPC.topics'',
      ''LogJSONRPC.removed'', ''LogJSONRPC.logIndex'', ''LogJSONRPC.transactionIndex'',
      ''LogJSONRPC.transactionHash'', ''LogJSONRPC.blockHash'', ''LogJSONRPC.blockTimestamp'',
      ''LogJSONRPC.blockNumber'', ''LogJSONRPC.address'', ''LogJSONRPC.data'',
      ''LogJSONRPC.topics'', ''BlockInfoJSONRPC.number'', ''BlockInfoJSONRPC.hash'',
      ''BlockInfoJSONRPC.parentHash'', ''BlockInfoJSONRPC.nonce'',
      ''BlockInfoJSONRPC.sha3Uncles'', ''BlockInfoJSONRPC.logsBloom'',
      ''BlockInfoJSONRPC.transactionsRoot'', ''BlockInfoJSONRPC.stateRoot'',
      ''BlockInfoJSONRPC.receiptsRoot'', ''BlockInfoJSONRPC.miner'',
      ''BlockInfoJSONRPC.mixHash'', ''BlockInfoJSONRPC.difficulty'',
      ''BlockInfoJSONRPC.totalDifficulty'', ''BlockInfoJSONRPC.extraData'',
      ''BlockInfoJSONRPC.size'', ''BlockInfoJSONRPC.gasLimit'', ''BlockInfoJSONRPC.gasUsed'',
      ''BlockInfoJSONRPC.timestamp'', ''BlockInfoJSONRPC.transactions'',
      ''BlockInfoJSONRPC.uncles'', ''BlockInfoJSONRPC.baseFeePerGas'',
      ''MinimalBlockInfo.blockNumber'', ''MinimalBlockInfo.blockHash'',
      ''MinimalBlockInfo.parentHash'', ''ConfirmationUpdateResult.confirmations'',
      ''ConfirmationUpdateResult.rebuilt'', ''ConfirmationUpdateResult.newFork'',
      ''ConfirmationUpdateResult.confirmed'',
      ''ConfirmationUpdateResult.targetConfirmationCount'',
      ''ConfirmationUpdateResult.currentConfirmationCount'',
      ''ConfirmationUpdateResult.txnBlockTimestamp'']"

lemma fieldDescriptions_keys: "map fst fieldDescriptions = fieldKeys"
  by (simp add: fieldDescriptions_def fieldKeys_def ffm_def)

definition describedFields :: "string \<Rightarrow> string list" where
  "describedFields struct =
     map (drop (Suc (length struct)))
       (filter (\<lambda>k. take (Suc (length struct)) k = struct @ ''.'') (map fst fieldDescriptions))"

lemma describedFields_eq:
  "describedFields ''TxReceiptJSONRPC'' =
     [''transactionHash'', ''transactionIndex'', ''blockHash'', ''blockNumber'', ''from'',
      ''to'', ''cumulativeGasUsed'', ''effectiveGasPrice'', ''gasUsed'', ''contractAddress'',
      ''logs'', ''logsBloom'', ''type'', ''status'', ''revertReason'']"
  "describedFields ''TxInfoJSONRPC'' =
     [''chainId'', ''blockHash'', ''blockNumber'', ''from'', ''gas'', ''gasPrice'', ''hash'',
      ''input'', ''nonce'', ''to'', ''transactionIndex'', ''value'', ''v'', ''r'', ''s'',
      ''type'', ''maxPriorityFeePerGas'', ''maxFeePerGas'']"
  "describedFields ''LogFilterJSONRPC'' =
     [''fromBlock'', ''toBlock'', ''address'', ''topics'']"
  "describedFields ''LogJSONRPC'' =
     [''removed'', ''logIndex'', ''transactionIndex'', ''transactionHash'', ''blockHash'',
      ''blockTimestamp'', ''blockNumber'', ''address'', ''data'', ''topics'']"
  "describedFields ''BlockInfoJSONRPC'' =
     [''number'', ''hash'', ''parentHash'', ''nonce'', ''sha3Uncles'', ''logsBloom'',
      ''transactionsRoot'', ''stateRoot'', ''receiptsRoot'', ''miner'', ''mixHash'',
      ''difficulty'', ''totalDifficulty'', ''extraData'', ''size'', ''gasLimit'', ''gasUsed'',
      ''timestamp'', ''transactions'', ''uncles'', ''baseFeePerGas'']"
  "describedFields ''MinimalBlockInfo'' =
     [''blockNumber'', ''blockHash'', ''parentHash'']"
  "describedFields ''ConfirmationUpdateResult'' =
     [''confirmations'', ''rebuilt'', ''newFork'', ''confirmed'', ''targetConfirmationCount'',
      ''currentConfirmationCount'', ''txnBlockTimestamp'']"
  unfolding describedFields_def fieldDescriptions_keys by code_simp+

text \<open>What \<open>FormatMap\<close> writes is described.\<close>

lemma optionalField_keys: "k \<in> A \<Longrightarrow> fst ` set (optionalField k f x) \<subseteq> A"
  by (simp add: optionalField_def)

lemma log_members: "fst ` set (log_FormatMap l) \<subseteq> set (describedFields ''LogJSONRPC'')"
  unfolding log_FormatMap_def set_append image_Un Un_subset_iff
  by (intro conjI optionalField_keys) (simp_all add: describedFields_eq)

lemma receipt_members: "fst ` set (receipt_FormatMap r) \<subseteq> set (describedFields ''TxReceiptJSONRPC'')"
  unfolding receipt_FormatMap_def set_append image_Un Un_subset_iff
  by (intro conjI optionalField_keys) (simp_all add: describedFields_eq)

lemma tx_members: "fst ` set (tx_FormatMap t) \<subseteq> set (describedFields ''TxInfoJSONRPC'')"
  unfolding tx_FormatMap_def set_append image_Un Un_subset_iff
  by (intro conjI optionalField_keys) (simp_all add: describedFields_eq)

lemma header_members: "fst ` set (header_FormatMap h) \<subseteq> set (describedFields ''BlockInfoJSONRPC'')"
  by (simp add: header_FormatMap_def describedFields_eq)

lemma block_members:
  "fst ` set (hashes_FormatMap h) \<subseteq> set (describedFields ''BlockInfoJSONRPC'')"
  "fst ` set (transactions_FormatMap b) \<subseteq> set (describedFields ''BlockInfoJSONRPC'')"
  unfolding hashes_FormatMap_def transactions_FormatMap_def set_append image_Un Un_subset_iff
  by (intro conjI header_members; simp add: describedFields_eq)+

text \<open>Of a cached block it leaves out two of the members that the structure and the descriptions have,
  the gas limit and the base fee.\<close>

theorem blockInfo_leaves_out:
  "{''gasLimit'', ''baseFeePerGas''} \<subseteq> set (describedFields ''BlockInfoJSONRPC'') - fst ` set (blockInfo_FormatMap b)"
  by (simp add: blockInfo_FormatMap_def describedFields_eq)

end
