(* ===== verification/Spec2Isabelle.thy ===== *)
theory Spec2Isabelle
  imports RetryUtil RpcClient ConfirmationProperties PollerProperties StreamProperties ScanProperties
    ConnectorProperties ApiProperties ListenerProperties CommandLine Messages Descriptions
begin

text \<open>
  A model of the FireFly connector for EVM chains (evmconnect), and the theorems that make it correct.

  \<^bold>\<open>The program.\<close> The connector stands between FireFly's transaction manager and an Ethereum node. A
  block listener follows the head of the chain: one of three pollers reads the node, the blocks that
  it finds are reconciled into a short list, the canonical chain, and consumers are told which blocks
  changed. The receipts of the blocks on the list are cached, and the confirmations of a transaction
  are built on the list. Event streams read the logs of the node for their listeners: a listener that
  is behind catches up on its own, the others form the lead group, which is polled with a filter of
  the node or by a scan with eth_getLogs. Each listener has a high water mark, from which it
  resumes after a restart. The rest are requests: receipts, preparation and submission of
  transactions, calls, gas estimates and small queries. Everything goes through one JSON/RPC client,
  which routes a call to HTTP or to a WebSocket.

  \<^bold>\<open>Theories and sources.\<close>
  \<^item> Foundations: \<open>Prelude\<close> (integers at their width, lists, the locale \<open>high_water\<close>), \<open>Failures\<close>
    (errors and panics as one datatype, \<open>internal/msgs\<close>), \<open>Decimal\<close> and \<open>Encoding\<close> (what is used of
    Go's number formatting, hexadecimal and Base64).
  \<^item> \<open>pkg/ethrpc\<close>: \<open>EthRPC\<close> (the JSON/RPC records and their conversions, \<open>ethrpc.go\<close>), \<open>JSONFormat\<close>
    (\<open>jsonformatoptions.go\<close> and the \<open>FormatMap\<close> methods), \<open>RpcClient\<close> (\<open>client.go\<close>).
    \<open>pkg/etherrors\<close> is \<open>EthErrors\<close>, \<open>internal/retryutil\<close> is \<open>RetryUtil\<close>.
  \<^item> \<open>pkg/ethblocklistener\<close>: \<open>BlockListenerState\<close> (the struct, its environment and its metrics),
    \<open>BlockQuery\<close> (\<open>blocklistener_blockquery.go\<close>), \<open>ReceiptCache\<close> (\<open>block_receipt_fetcher.go\<close>),
    \<open>CanonicalChain\<close> (the list, \<open>blocklistener.go\<close>), \<open>Pollers\<close> (\<open>blocklistener_pollers.go\<close> and the
    listen loop), \<open>ListenerLife\<close> (the goroutines, the channels and the waits), \<open>Confirmations\<close>
    (\<open>confirmation_reconciler.go\<close>).
  \<^item> \<open>internal/ethereum\<close>, events: \<open>EventTypes\<close>, \<open>EventEnricher\<close> (\<open>event_enricher.go\<close>), \<open>EventListener\<close>
    (\<open>event_listener.go\<close>), \<open>EventStream\<close> (\<open>event_stream.go\<close>: listeners, queries, dispatch),
    \<open>ScanPosition\<close> (the poll position of \<open>event_stream_getlogs.go\<close>), \<open>StreamLoops\<close> (one definition per
    pass of every loop), \<open>StreamSteps\<close> (their interleaving), \<open>EventActions\<close> (\<open>event_actions.go\<close>).
  \<^item> \<open>internal/ethereum\<close>, requests: \<open>ConnectorConfig\<close> and \<open>ConnectorStart\<close> (\<open>ethereum.go\<close>, \<open>config.go\<close>),
    \<open>Receipts\<close> (\<open>get_receipt.go\<close>), \<open>TxCalls\<close> (\<open>exec_query.go\<close>, \<open>estimate_gas.go\<close>), \<open>Transactions\<close>
    (\<open>prepare_transaction.go\<close>, \<open>send_transaction.go\<close>, \<open>deploy_contract_prepare.go\<close>), \<open>Queries\<close>
    (blocks, balances, nonces, gas prices, confirmations over the API).
  \<^item> The process: \<open>CommandLine\<close> (\<open>cmd/evmconnect.go\<close>, \<open>cmd/version.go\<close>, \<open>cmd/config.go\<close>,
    \<open>evmconnect/main.go\<close>). \<open>internal/msgs\<close>: \<open>Messages\<close> (\<open>en_error_messages.go\<close>) and \<open>Descriptions\<close>
    (\<open>en_config_descriptions.go\<close>, \<open>en_field_descriptions.go\<close>).

  \<^bold>\<open>State and operations.\<close> A struct is a record and an operation a function from the state to its
  result and the new state; definitions keep the names of the source. \<open>uint64\<close> is a 64-bit word,
  \<open>int64\<close> an integer reduced by \<open>i64\<close>. An error is \<open>Inl\<close> of a \<open>failure\<close>; a panic is one too, on the outer
  level where both can happen. The canonical chain keeps the identity of its list elements, because
  the pollers hold on to elements; listeners and streams live in stores, because goroutines hold on to
  them. A goroutine is a kind of step of an inductive relation: \<open>receipt_run\<close> for the
  receipt cache with its fetches, \<open>listener_reaches\<close> and \<open>life_step\<close> for the block listener,
  \<open>stream_step\<close> for one stream, \<open>conn_step\<close> for the connector with all its streams, \<open>client_step\<close> for
  the client, \<open>process_step\<close> for the process and its signals. What a mutex protects is one step.

  \<^bold>\<open>Loops.\<close> Loops over data are structural recursions, or have a measure. The rebuild of the chain, the
  seeding of the head and the two catch-up loops depend on the answers of the node: they are partial
  functions, where \<open>None\<close> is not returning, and that they return is a theorem (\<open>ChainConvergence\<close>,
  \<open>PollerProofs\<close>, \<open>CatchupProofs\<close>). \<open>retry.Do\<close> repeats its closure as often as the environment says,
  since only the end of a context stops it. No definition uses fuel.

  \<^bold>\<open>Parameters and their contracts.\<close> Code outside src/ is a field of an environment record: the node
  (one function per method, which may answer differently at every call), the LRU cache (\<open>lru_lawful\<close>),
  the ABI and JSON libraries, \<open>sort.Sort\<close>, the rendering of hashes, the configuration getters
  (\<open>defaultsAnswered\<close>), and the case of a \<open>select\<close> that fires. What a theorem relies on is one of its
  hypotheses: \<open>node_answers\<close> and \<open>node_contract\<close> say that a block asked for by number has that number
  and a hash, \<open>stable_node\<close> that the node serves one chain for as long as it takes to converge.
  \<open>node_logs\<close> says that no log of an answer lies below the range that was asked for, and that a block
  hash stands for one block number. \<open>Examples\<close>, \<open>EventExamples\<close> and \<open>ApiExamples\<close> hold environments that satisfy them, for the witnesses.

  \<^bold>\<open>What the theorems show.\<close>
  \<^item> Canonical chain and receipts (\<open>ChainInvariant\<close>, \<open>ChainFrame\<close>, \<open>ChainConvergence\<close>,
    \<open>ReceiptGenerations\<close>, \<open>ChainProperties\<close>): the list stays linked, the highest block does not go back,
    a reconciliation converges on the node's chain, and no receipt of an orphaned block survives.
  \<^item> Confirmations (\<open>ConfirmationProofs\<close>, \<open>ConfirmationProperties\<close>): shape, soundness and completeness.
  \<^item> Polling (\<open>PollerInvariants\<close>, \<open>PollerProofs\<close>, \<open>PollerProperties\<close>): the invariant of every reachable
    state, catching up, seeding, dispatch, recovery of a lost filter. \<open>PollFrames\<close>, \<open>ListenerLifeProofs\<close> and
    \<open>ListenerProperties\<close>: one loop, no channel closed twice, and what those who wait are told.
    \<open>ChainHeight\<close> and \<open>ListenerHeight\<close>: in full mode the chain stays at or below the highest block,
    and no caller is told a height before there is one.
  \<^item> Event streams (\<open>StreamProofs\<close>, \<open>CatchupProofs\<close>, \<open>EventQueryProofs\<close>, \<open>StreamProperties\<close>): marks only move
    forwards, catch-up ends and stays below the head, a query delivers what the plain
    specification \<open>wanted\<close> says.
  \<^item> The scan with eth_getLogs (\<open>ScanPositionProofs\<close>, \<open>PollRefinement\<close>, \<open>ScanProperties\<close>): a pass refines the
    abstract scan \<open>full_scan\<close>, no version of a block is delivered twice, and marks stay out of the
    unstable window. \<open>LightScan\<close>: in light mode a pass refines \<open>light_run\<close>, sweeps of the unstable window
    that commit what was stable; what is committed was delivered, once, by a sweep that found it stable. \<open>SystemProofs\<close> puts the stream and the block listener together: \<open>served_by\<close> says
    that the stream reads the heads and snapshots of a history of \<open>life_step\<close>, and then every block of the
    listener's confirmation window behind the position was scanned in its current version.
  \<^item> Requests (\<open>ConnectorRuns\<close>, \<open>ReceiptProofs\<close>, \<open>TxProofs\<close>, \<open>ConnectorProperties\<close>, \<open>ApiProperties\<close>): streams do
    not disturb each other, a restart resumes at the checkpoint, answers on receipts are definitive,
    gas is enough and fits the block, reverts are reported, and several round trips.
    \<open>ConnectorStart\<close> says exactly which configurations are accepted, and that the defaults are.
  \<^item> \<open>CommandLine\<close>: the exit code of the process tells whether its start failed, and at which stage; a
    started manager is closed once, and a signal can always end it. \<open>Messages\<close> and \<open>Descriptions\<close>: every
    message that is raised is declared, with a code of its own; every key of the configuration is
    described with a type that fits its default, the values listed are those accepted, and every
    member that is written is described.

  \<^bold>\<open>Interfaces.\<close> \<open>high_water\<close> (a mark that only a greater value replaces) is interpreted on the marks and
  checkpoints of listeners, the head of a stream, and the highest block of both tracking modes;
  \<open>chain_frame\<close> (a relation that every primitive edit respects is respected by a reconciliation) on the
  fixed fields, the flags that never fall and the hashes of cached blocks; \<open>updater\<close> (an iteration
  respects what its update respects) on \<open>reconcileCanonicalChain\<close>; \<open>poll_frame\<close> and its extension
  \<open>head_frame\<close> (a relation that a reconciliation, the caches and the marks of the pollers respect is
  respected by a whole poll, of full mode or of every mode) on the flags that never fall, the start of the
  poller and the growth of the chain, and \<open>updater\<close> follows from \<open>poll_frame\<close>; \<open>paging\<close> (a loop that
  moves forwards by pages ends) on both catch-up loops.

  \<^bold>\<open>Not modelled.\<close> The parsing of the command line and its flags, the reading of the configuration file,
  and the transaction manager that the process starts, which are libraries; the rendering of messages
  and help from their texts; the generated mocks; logging; the duration of timers and delays, which appear as a choice of the step or as a number that
  is returned; the throttle of concurrent fetches, which delays the start of a fetch only; the float
  multiplication of the retry delay, which is a parameter. Reads of one goroutine between two locked
  sections of another are interleaved where the code releases the lock; the calls that a poll makes to
  the node belong to the step of the poll.
\<close>

end
